theory Spec2Isabelle
  imports Complex_Main
begin

section \<open>Box layout of \<open>layout/boxlayout.go\<close>\<close>

text \<open>
  The vertical and the horizontal box layout are embedded as two separately translated
  pairs of functions, \<open>Layout\<close> and \<open>MinSize\<close>, as the source writes them twice.

  Numbers. The source computes in \<open>float32\<close>; the embedding computes in \<^typ>\<open>real\<close>,
  the idealisation the specification itself uses for sizes and positions. Rounding,
  infinities and NaN are outside the model. The counters \<open>spacers\<close> and
  \<open>visibleObjects\<close> are \<^typ>\<open>int\<close> (the subtraction \<open>visibleObjects - 1\<close> is \<open>-1\<close>
  when nothing is visible, as in Go).

  Objects. A \<open>fyne.CanvasObject\<close> is consumed through \<open>Visible\<close>, \<open>MinSize\<close>, \<open>Move\<close>,
  \<open>Resize\<close> and two optional capabilities found by type assertion: \<open>fyne.Growable\<close>
  (\<open>GrowFactor\<close>) and \<open>SpacerObject\<close> (\<open>ExpandHorizontal\<close>, \<open>ExpandVertical\<close>). An object
  is a record of what these queries answer plus the two fields that \<open>Move\<close> and \<open>Resize\<close>
  write. The answers of \<open>Visible\<close>, \<open>MinSize\<close>, \<open>GrowFactor\<close> and the spacer queries are
  fields that \<open>Move\<close> and \<open>Resize\<close> leave alone. The slice of objects is a list of such
  records, and \<open>Layout\<close> returns the list after all its \<open>Move\<close> and \<open>Resize\<close> calls; the
  entries of the slice are taken to be distinct objects.
\<close>

subsection \<open>Geometry and objects\<close>

record Size =
  Width :: real
  Height :: real

record Position =
  X :: real
  Y :: real

definition NewSize :: "real \<Rightarrow> real \<Rightarrow> Size" where
  "NewSize w h = \<lparr>Width = w, Height = h\<rparr>"

definition NewPos :: "real \<Rightarrow> real \<Rightarrow> Position" where
  "NewPos x y = \<lparr>X = x, Y = y\<rparr>"

text \<open>
  Modelled from the spec: \<open>fyne.Max\<close> is declared in package \<open>fyne\<close>, outside the source
  file; the specification calls its result "the maximum of" its two arguments.
\<close>

definition fyne_Max :: "real \<Rightarrow> real \<Rightarrow> real" where
  "fyne_Max x y = (if x > y then x else y)"

text \<open>The answers of an object that implements \<open>SpacerObject\<close>.\<close>

record SpacerObject =
  ExpandHorizontal :: bool
  ExpandVertical :: bool

text \<open>
  \<open>Growable\<close> is \<open>Some g\<close> when the assertion \<open>child.(fyne.Growable)\<close> succeeds and
  \<open>GrowFactor()\<close> answers \<open>g\<close>; \<open>Spacer\<close> is \<open>Some s\<close> when \<open>obj.(SpacerObject)\<close> succeeds.
  \<open>objPos\<close> and \<open>objSize\<close> are what \<open>Move\<close> and \<open>Resize\<close> last wrote.
\<close>

record CanvasObject =
  Visible :: bool
  MinSize :: Size
  Growable :: "real option"
  Spacer :: "SpacerObject option"
  objPos :: Position
  objSize :: Size

definition Move :: "Position \<Rightarrow> CanvasObject \<Rightarrow> CanvasObject" where
  "Move p child = child\<lparr>objPos := p\<rparr>"

definition Resize :: "Size \<Rightarrow> CanvasObject \<Rightarrow> CanvasObject" where
  "Resize s child = child\<lparr>objSize := s\<rparr>"

definition isVerticalSpacer :: "CanvasObject \<Rightarrow> bool" where
  "isVerticalSpacer obj = (case Spacer obj of None \<Rightarrow> False | Some spacer \<Rightarrow> ExpandVertical spacer)"

definition isHorizontalSpacer :: "CanvasObject \<Rightarrow> bool" where
  "isHorizontalSpacer obj = (case Spacer obj of None \<Rightarrow> False | Some spacer \<Rightarrow> ExpandHorizontal spacer)"

subsection \<open>The loops\<close>

text \<open>
  \<open>for _, child := range objects\<close> with local variables \<open>s\<close>: the body maps the locals
  and the child to the new locals and the child as the body's calls left it.
\<close>

fun forEach :: "('s \<Rightarrow> 'a \<Rightarrow> 's \<times> 'a) \<Rightarrow> 's \<Rightarrow> 'a list \<Rightarrow> 's \<times> 'a list" where
  "forEach body s [] = (s, [])"
| "forEach body s (child # objects) =
     (case body s child of (s1, child1) \<Rightarrow>
        (case forEach body s1 objects of (s2, objects1) \<Rightarrow> (s2, child1 # objects1)))"

text \<open>
  The locals of the first loop of \<open>Layout\<close>; \<open>totalMin\<close> is \<open>totalMinHights\<close> in the
  vertical layout and \<open>totalMinWidths\<close> in the horizontal one.
\<close>

record Totals =
  spacers :: int
  visibleObjects :: int
  totalMin :: real
  growFactors :: real

definition noTotals :: Totals where
  "noTotals = \<lparr>spacers = 0, visibleObjects = 0, totalMin = 0, growFactors = 0\<rparr>"

text \<open>
  What follows the first loop: \<open>extra\<close>, \<open>hPerFactor\<close> / \<open>wPerFactor\<close> and \<open>spacerSize\<close>,
  each as a function of the locals the first loop leaves. \<open>padding\<close> is the value that
  \<open>paddingFunc()\<close> returns, read once per call.
\<close>

definition extraOf :: "real \<Rightarrow> real \<Rightarrow> Totals \<Rightarrow> real" where
  "extraOf padding mainSize t =
     mainSize - totalMin t - (padding * real_of_int (visibleObjects t - 1))"

definition perFactorOf :: "real \<Rightarrow> Totals \<Rightarrow> real" where
  "perFactorOf extra t = (if growFactors t > 0 then extra / growFactors t else 0)"

definition spacerSizeOf :: "real \<Rightarrow> Totals \<Rightarrow> real" where
  "spacerSizeOf extra t = (if spacers t > 0 then extra / real_of_int (spacers t) else 0)"

subsection \<open>\<open>vBoxLayout\<close>\<close>

definition vMeasureStep :: "Size \<Rightarrow> Totals \<Rightarrow> CanvasObject \<Rightarrow> Totals \<times> CanvasObject" where
  "vMeasureStep sz t child =
     (if \<not> Visible child then (t, child)
      else if isVerticalSpacer child then (t\<lparr>spacers := spacers t + 1\<rparr>, child)
      else
        let minH = Height (MinSize child);
            t1 = t\<lparr>visibleObjects := visibleObjects t + 1, totalMin := totalMin t + minH\<rparr>
        in case Growable child of
             Some g \<Rightarrow>
               (t1\<lparr>growFactors := growFactors t1 + g * (if minH < 1 then 1 else minH)\<rparr>, child)
           | None \<Rightarrow> (t1, Resize (NewSize (Width sz) minH) child))"

definition vPlaceStep ::
  "Size \<Rightarrow> real \<Rightarrow> real \<Rightarrow> real \<Rightarrow> real \<times> real \<Rightarrow> CanvasObject \<Rightarrow> (real \<times> real) \<times> CanvasObject" where
  "vPlaceStep sz padding hPerFactor spacerSize cursor child =
     (case cursor of (x, y) \<Rightarrow>
        if \<not> Visible child then ((x, y), child)
        else if isVerticalSpacer child then ((x, y + spacerSize), child)
        else
          let moved = Move (NewPos x y) child;
              height = Height (MinSize moved)
          in (case Growable moved of
                Some g \<Rightarrow>
                  (let height1 = height + hPerFactor * g * height
                   in ((x, y + (padding + height1)), Resize (NewSize (Width sz) height1) moved))
              | None \<Rightarrow> ((x, y + (padding + height)), moved)))"

text \<open>
  \<open>vTotals\<close> are the locals after the first loop of \<open>vBoxLayout.Layout\<close>, \<open>vExtra\<close>,
  \<open>vPerFactor\<close> and \<open>vSpacerSize\<close> the values of \<open>extra\<close>, \<open>hPerFactor\<close> and \<open>spacerSize\<close>
  of that call; the second loop starts at \<open>x, y := 0, 0\<close>.
\<close>

definition vTotals :: "CanvasObject list \<Rightarrow> Size \<Rightarrow> Totals" where
  "vTotals objects sz = fst (forEach (vMeasureStep sz) noTotals objects)"

definition vExtra :: "real \<Rightarrow> CanvasObject list \<Rightarrow> Size \<Rightarrow> real" where
  "vExtra padding objects sz = extraOf padding (Height sz) (vTotals objects sz)"

definition vPerFactor :: "real \<Rightarrow> CanvasObject list \<Rightarrow> Size \<Rightarrow> real" where
  "vPerFactor padding objects sz = perFactorOf (vExtra padding objects sz) (vTotals objects sz)"

definition vSpacerSize :: "real \<Rightarrow> CanvasObject list \<Rightarrow> Size \<Rightarrow> real" where
  "vSpacerSize padding objects sz = spacerSizeOf (vExtra padding objects sz) (vTotals objects sz)"

definition vBoxLayout_Layout :: "real \<Rightarrow> CanvasObject list \<Rightarrow> Size \<Rightarrow> CanvasObject list" where
  "vBoxLayout_Layout padding objects sz =
     (let measured = snd (forEach (vMeasureStep sz) noTotals objects);
          hPerFactor = vPerFactor padding objects sz;
          spacerSize = vSpacerSize padding objects sz
      in snd (forEach (vPlaceStep sz padding hPerFactor spacerSize) (0, 0) measured))"

definition vMinSizeStep :: "real \<Rightarrow> CanvasObject \<Rightarrow> Size \<times> bool \<Rightarrow> Size \<times> bool" where
  "vMinSizeStep padding child acc =
     (case acc of (minSize, addPadding) \<Rightarrow>
        if \<not> Visible child \<or> isVerticalSpacer child then (minSize, addPadding)
        else
          let childMin = MinSize child;
              m1 = minSize\<lparr>Width := fyne_Max (Width childMin) (Width minSize)\<rparr>;
              m2 = m1\<lparr>Height := Height m1 + Height childMin\<rparr>;
              m3 = (if addPadding then m2\<lparr>Height := Height m2 + padding\<rparr> else m2)
          in (m3, True))"

definition vBoxLayout_MinSize :: "real \<Rightarrow> CanvasObject list \<Rightarrow> Size" where
  "vBoxLayout_MinSize padding objects =
     fst (fold (vMinSizeStep padding) objects (NewSize 0 0, False))"

subsection \<open>\<open>hBoxLayout\<close>\<close>

definition hMeasureStep :: "Size \<Rightarrow> Totals \<Rightarrow> CanvasObject \<Rightarrow> Totals \<times> CanvasObject" where
  "hMeasureStep sz t child =
     (if \<not> Visible child then (t, child)
      else if isHorizontalSpacer child then (t\<lparr>spacers := spacers t + 1\<rparr>, child)
      else
        let minW = Width (MinSize child);
            t1 = t\<lparr>visibleObjects := visibleObjects t + 1, totalMin := totalMin t + minW\<rparr>
        in case Growable child of
             Some g \<Rightarrow>
               (t1\<lparr>growFactors := growFactors t1 + g * (if minW < 1 then 1 else minW)\<rparr>, child)
           | None \<Rightarrow> (t1, Resize (NewSize minW (Height sz)) child))"

definition hPlaceStep ::
  "Size \<Rightarrow> real \<Rightarrow> real \<Rightarrow> real \<Rightarrow> real \<times> real \<Rightarrow> CanvasObject \<Rightarrow> (real \<times> real) \<times> CanvasObject" where
  "hPlaceStep sz padding wPerFactor spacerSize cursor child =
     (case cursor of (x, y) \<Rightarrow>
        if \<not> Visible child then ((x, y), child)
        else if isHorizontalSpacer child then ((x + spacerSize, y), child)
        else
          let moved = Move (NewPos x y) child;
              width = Width (MinSize moved)
          in (case Growable moved of
                Some g \<Rightarrow>
                  (let width1 = width + wPerFactor * g * width
                   in ((x + (padding + width1), y), Resize (NewSize width1 (Height sz)) moved))
              | None \<Rightarrow> ((x + (padding + width), y), moved)))"

definition hTotals :: "CanvasObject list \<Rightarrow> Size \<Rightarrow> Totals" where
  "hTotals objects sz = fst (forEach (hMeasureStep sz) noTotals objects)"

definition hExtra :: "real \<Rightarrow> CanvasObject list \<Rightarrow> Size \<Rightarrow> real" where
  "hExtra padding objects sz = extraOf padding (Width sz) (hTotals objects sz)"

definition hPerFactor :: "real \<Rightarrow> CanvasObject list \<Rightarrow> Size \<Rightarrow> real" where
  "hPerFactor padding objects sz = perFactorOf (hExtra padding objects sz) (hTotals objects sz)"

definition hSpacerSize :: "real \<Rightarrow> CanvasObject list \<Rightarrow> Size \<Rightarrow> real" where
  "hSpacerSize padding objects sz = spacerSizeOf (hExtra padding objects sz) (hTotals objects sz)"

definition hBoxLayout_Layout :: "real \<Rightarrow> CanvasObject list \<Rightarrow> Size \<Rightarrow> CanvasObject list" where
  "hBoxLayout_Layout padding objects sz =
     (let measured = snd (forEach (hMeasureStep sz) noTotals objects);
          wPerFactor = hPerFactor padding objects sz;
          spacerSize = hSpacerSize padding objects sz
      in snd (forEach (hPlaceStep sz padding wPerFactor spacerSize) (0, 0) measured))"

definition hMinSizeStep :: "real \<Rightarrow> CanvasObject \<Rightarrow> Size \<times> bool \<Rightarrow> Size \<times> bool" where
  "hMinSizeStep padding child acc =
     (case acc of (minSize, addPadding) \<Rightarrow>
        if \<not> Visible child \<or> isHorizontalSpacer child then (minSize, addPadding)
        else
          let childMin = MinSize child;
              m1 = minSize\<lparr>Height := fyne_Max (Height childMin) (Height minSize)\<rparr>;
              m2 = m1\<lparr>Width := Width m1 + Width childMin\<rparr>;
              m3 = (if addPadding then m2\<lparr>Width := Width m2 + padding\<rparr> else m2)
          in (m3, True))"

definition hBoxLayout_MinSize :: "real \<Rightarrow> CanvasObject list \<Rightarrow> Size" where
  "hBoxLayout_MinSize padding objects =
     fst (fold (hMinSizeStep padding) objects (NewSize 0 0, False))"

subsection \<open>Vocabulary of the properties\<close>

text \<open>
  The children a box lays out: visible and not a spacer along the main axis; and the
  visible spacers along the main axis.
\<close>

definition vLaidOut :: "CanvasObject list \<Rightarrow> CanvasObject list" where
  "vLaidOut objects = filter (\<lambda>c. Visible c \<and> \<not> isVerticalSpacer c) objects"

definition hLaidOut :: "CanvasObject list \<Rightarrow> CanvasObject list" where
  "hLaidOut objects = filter (\<lambda>c. Visible c \<and> \<not> isHorizontalSpacer c) objects"

definition vSpacers :: "CanvasObject list \<Rightarrow> CanvasObject list" where
  "vSpacers objects = filter (\<lambda>c. Visible c \<and> isVerticalSpacer c) objects"

definition hSpacers :: "CanvasObject list \<Rightarrow> CanvasObject list" where
  "hSpacers objects = filter (\<lambda>c. Visible c \<and> isHorizontalSpacer c) objects"

text \<open>
  The weight of a child as the specification words it: grow factor times the larger of
  its own minimum main-axis size and 1; an object without the capability weighs nothing.
\<close>

definition vWeight :: "CanvasObject \<Rightarrow> real" where
  "vWeight c = (case Growable c of None \<Rightarrow> 0 | Some g \<Rightarrow> g * max (Height (MinSize c)) 1)"

definition hWeight :: "CanvasObject \<Rightarrow> real" where
  "hWeight c = (case Growable c of None \<Rightarrow> 0 | Some g \<Rightarrow> g * max (Width (MinSize c)) 1)"

text \<open>Swapping the two axes of a size, a position, a spacer's answers and an object.\<close>

definition swapSize :: "Size \<Rightarrow> Size" where
  "swapSize s = \<lparr>Width = Height s, Height = Width s\<rparr>"

definition swapPos :: "Position \<Rightarrow> Position" where
  "swapPos p = \<lparr>X = Y p, Y = X p\<rparr>"

definition swapSpacer :: "SpacerObject \<Rightarrow> SpacerObject" where
  "swapSpacer s = \<lparr>ExpandHorizontal = ExpandVertical s, ExpandVertical = ExpandHorizontal s\<rparr>"

definition swapAxes :: "CanvasObject \<Rightarrow> CanvasObject" where
  "swapAxes c =
     \<lparr>Visible = Visible c, MinSize = swapSize (MinSize c), Growable = Growable c,
      Spacer = map_option swapSpacer (Spacer c),
      objPos = swapPos (objPos c), objSize = swapSize (objSize c)\<rparr>"

text \<open>
  An object with its spacer capability taken away unless it expands along the main axis
  of the box.
\<close>

definition vPlain :: "CanvasObject \<Rightarrow> CanvasObject" where
  "vPlain c = (if isVerticalSpacer c then c else c\<lparr>Spacer := None\<rparr>)"

definition hPlain :: "CanvasObject \<Rightarrow> CanvasObject" where
  "hPlain c = (if isHorizontalSpacer c then c else c\<lparr>Spacer := None\<rparr>)"

subsection \<open>Objects of the examples\<close>

text \<open>
  \<open>widget w h\<close>: a visible object of minimum size \<open>(w, h)\<close> with no capability;
  \<open>growing g w h\<close>: the same with \<open>GrowFactor() = g\<close>; \<open>spacerObj\<close>: what
  \<open>layout.NewSpacer()\<close> makes, expanding along both axes; \<open>crossSpacer\<close> expands
  horizontally only; \<open>hidden c\<close> is \<open>c\<close> made invisible. All start at position
  \<open>(7, 7)\<close> with size \<open>(3, 3)\<close>.
\<close>

definition widget :: "real \<Rightarrow> real \<Rightarrow> CanvasObject" where
  "widget w h =
     \<lparr>Visible = True, MinSize = NewSize w h, Growable = None, Spacer = None,
      objPos = NewPos 7 7, objSize = NewSize 3 3\<rparr>"

definition growing :: "real \<Rightarrow> real \<Rightarrow> real \<Rightarrow> CanvasObject" where
  "growing g w h = (widget w h)\<lparr>Growable := Some g\<rparr>"

definition spacerObj :: CanvasObject where
  "spacerObj = (widget 0 0)\<lparr>Spacer := Some \<lparr>ExpandHorizontal = True, ExpandVertical = True\<rparr>\<rparr>"

definition crossSpacer :: CanvasObject where
  "crossSpacer = (widget 4 6)\<lparr>Spacer := Some \<lparr>ExpandHorizontal = True, ExpandVertical = False\<rparr>\<rparr>"

definition hidden :: "CanvasObject \<Rightarrow> CanvasObject" where
  "hidden c = c\<lparr>Visible := False\<rparr>"

section \<open>Proofs\<close>

subsection \<open>The loop combinator\<close>

lemma forEach_Cons_fst:
  "fst (forEach body s (c # cs)) = fst (forEach body (fst (body s c)) cs)"
  by (simp add: case_prod_unfold)

lemma forEach_Cons_snd:
  "snd (forEach body s (c # cs)) = snd (body s c) # snd (forEach body (fst (body s c)) cs)"
  by (simp add: case_prod_unfold)

lemma forEach_length: "length (snd (forEach body s xs)) = length xs"
  by (induction xs arbitrary: s) (simp_all add: forEach_Cons_snd del: forEach.simps(2))

lemma forEach_snd_map:
  assumes "\<And>s c. snd (body s c) = g c"
  shows "snd (forEach body s xs) = map g xs"
  by (induction xs arbitrary: s) (simp_all add: forEach_Cons_snd assms del: forEach.simps(2))

lemma forEach_nth_rel:
  assumes "\<And>s c. P c (snd (body s c))"
  shows "i < length xs \<Longrightarrow> P (xs ! i) (snd (forEach body s xs) ! i)"
proof (induction xs arbitrary: s i)
  case Nil
  then show ?case by simp
next
  case (Cons c cs)
  show ?case
  proof (cases i)
    case 0
    then show ?thesis by (simp add: forEach_Cons_snd assms del: forEach.simps(2))
  next
    case (Suc j)
    then have "j < length cs" using Cons.prems by simp
    then have "P (cs ! j) (snd (forEach body (fst (body s c)) cs) ! j)" by (rule Cons.IH)
    then show ?thesis using Suc by (simp add: forEach_Cons_snd del: forEach.simps(2))
  qed
qed

lemma forEach_filter:
  assumes skip: "\<And>s c. \<not> p c \<Longrightarrow> body s c = (s, c)"
    and keep: "\<And>s c. p (snd (body s c)) = p c"
  shows "forEach body s (filter p xs) =
           (fst (forEach body s xs), filter p (snd (forEach body s xs)))"
proof (induction xs arbitrary: s)
  case Nil
  show ?case by simp
next
  case (Cons c cs)
  show ?case
  proof (cases "p c")
    case True
    obtain s1 c1 where b: "body s c = (s1, c1)" by (cases "body s c")
    have "p c1" using keep [of s c] b True by simp
    then show ?thesis using True b Cons.IH [of s1] by (simp split: prod.splits)
  next
    case False
    then show ?thesis using skip [of c s] Cons.IH [of s] by (simp split: prod.splits)
  qed
qed

lemma forEach_sim:
  assumes "\<And>s c. body' (S s) (T c) = (S (fst (body s c)), T (snd (body s c)))"
  shows "forEach body' (S s) (map T xs) =
           (S (fst (forEach body s xs)), map T (snd (forEach body s xs)))"
proof (induction xs arbitrary: s)
  case Nil
  show ?case by simp
next
  case (Cons c cs)
  obtain s1 c1 where b: "body s c = (s1, c1)" by (cases "body s c")
  have b': "body' (S s) (T c) = (S s1, T c1)" using assms [of s c] b by simp
  show ?case using b b' Cons.IH [of s1] by (simp split: prod.splits)
qed

subsection \<open>What \<open>Move\<close>, \<open>Resize\<close> and the loop bodies leave alone\<close>

lemma isVerticalSpacer_Move [simp]: "isVerticalSpacer (Move p c) = isVerticalSpacer c"
  by (simp add: isVerticalSpacer_def Move_def)
lemma isVerticalSpacer_Resize [simp]: "isVerticalSpacer (Resize s c) = isVerticalSpacer c"
  by (simp add: isVerticalSpacer_def Resize_def)
lemma isHorizontalSpacer_Move [simp]: "isHorizontalSpacer (Move p c) = isHorizontalSpacer c"
  by (simp add: isHorizontalSpacer_def Move_def)
lemma isHorizontalSpacer_Resize [simp]: "isHorizontalSpacer (Resize s c) = isHorizontalSpacer c"
  by (simp add: isHorizontalSpacer_def Resize_def)

lemma Move_fields [simp]:
  "Visible (Move p c) = Visible c" "MinSize (Move p c) = MinSize c"
  "Growable (Move p c) = Growable c" "Spacer (Move p c) = Spacer c"
  "objPos (Move p c) = p" "objSize (Move p c) = objSize c"
  by (simp_all add: Move_def)

lemma Resize_fields [simp]:
  "Visible (Resize s c) = Visible c" "MinSize (Resize s c) = MinSize c"
  "Growable (Resize s c) = Growable c" "Spacer (Resize s c) = Spacer c"
  "objPos (Resize s c) = objPos c" "objSize (Resize s c) = s"
  by (simp_all add: Resize_def)

lemma NewSize_fields [simp]: "Width (NewSize w h) = w" "Height (NewSize w h) = h"
  by (simp_all add: NewSize_def)

lemma NewPos_fields [simp]: "X (NewPos x y) = x" "Y (NewPos x y) = y"
  by (simp_all add: NewPos_def)

lemma vMeasureStep_snd:
  "snd (vMeasureStep sz t c) =
     (if Visible c \<and> \<not> isVerticalSpacer c \<and> Growable c = None
      then Resize (NewSize (Width sz) (Height (MinSize c))) c else c)"
  by (simp add: vMeasureStep_def Let_def split: option.splits)

lemma hMeasureStep_snd:
  "snd (hMeasureStep sz t c) =
     (if Visible c \<and> \<not> isHorizontalSpacer c \<and> Growable c = None
      then Resize (NewSize (Width (MinSize c)) (Height sz)) c else c)"
  by (simp add: hMeasureStep_def Let_def split: option.splits)

lemma vMeasured_map:
  "snd (forEach (vMeasureStep sz) t objects) = map (\<lambda>c. snd (vMeasureStep sz noTotals c)) objects"
  by (rule forEach_snd_map) (simp add: vMeasureStep_snd)

lemma hMeasured_map:
  "snd (forEach (hMeasureStep sz) t objects) = map (\<lambda>c. snd (hMeasureStep sz noTotals c)) objects"
  by (rule forEach_snd_map) (simp add: hMeasureStep_snd)

lemma vPlaceStep_width:
  "Visible c \<Longrightarrow> \<not> isVerticalSpacer c \<Longrightarrow> (Growable c = None \<Longrightarrow> Width (objSize c) = Width sz) \<Longrightarrow>
   Width (objSize (snd (vPlaceStep sz padding f k cur c))) = Width sz"
  by (cases cur) (simp add: vPlaceStep_def Let_def split: option.splits)

lemma hPlaceStep_height:
  "Visible c \<Longrightarrow> \<not> isHorizontalSpacer c \<Longrightarrow> (Growable c = None \<Longrightarrow> Height (objSize c) = Height sz) \<Longrightarrow>
   Height (objSize (snd (hPlaceStep sz padding f k cur c))) = Height sz"
  by (cases cur) (simp add: hPlaceStep_def Let_def split: option.splits)

lemma vLayout_cross:
  assumes "i < length objects" "Visible (objects ! i)" "\<not> isVerticalSpacer (objects ! i)"
  shows "Width (objSize (vBoxLayout_Layout padding objects sz ! i)) = Width sz"
proof -
  let ?m = "map (\<lambda>c. snd (vMeasureStep sz noTotals c)) objects"
  let ?P = "\<lambda>c c'. Visible c \<and> \<not> isVerticalSpacer c \<and> (Growable c = None \<longrightarrow> Width (objSize c) = Width sz)
     \<longrightarrow> Width (objSize c') = Width sz"
  have i: "i < length ?m" using assms(1) by simp
  have pre: "Visible (?m ! i) \<and> \<not> isVerticalSpacer (?m ! i) \<and>
     (Growable (?m ! i) = None \<longrightarrow> Width (objSize (?m ! i)) = Width sz)"
    using assms by (auto simp add: vMeasureStep_snd)
  have "?P (?m ! i) (snd (forEach (vPlaceStep sz padding f k) (0, 0) ?m) ! i)" for f k
    using i by (rule forEach_nth_rel [where P = ?P, rotated]) (simp add: vPlaceStep_width)
  with pre show ?thesis
    by (simp add: vBoxLayout_Layout_def Let_def vMeasured_map)
qed

lemma hLayout_cross:
  assumes "i < length objects" "Visible (objects ! i)" "\<not> isHorizontalSpacer (objects ! i)"
  shows "Height (objSize (hBoxLayout_Layout padding objects sz ! i)) = Height sz"
proof -
  let ?m = "map (\<lambda>c. snd (hMeasureStep sz noTotals c)) objects"
  let ?P = "\<lambda>c c'. Visible c \<and> \<not> isHorizontalSpacer c \<and> (Growable c = None \<longrightarrow> Height (objSize c) = Height sz)
     \<longrightarrow> Height (objSize c') = Height sz"
  have i: "i < length ?m" using assms(1) by simp
  have pre: "Visible (?m ! i) \<and> \<not> isHorizontalSpacer (?m ! i) \<and>
     (Growable (?m ! i) = None \<longrightarrow> Height (objSize (?m ! i)) = Height sz)"
    using assms by (auto simp add: hMeasureStep_snd)
  have "?P (?m ! i) (snd (forEach (hPlaceStep sz padding f k) (0, 0) ?m) ! i)" for f k
    using i by (rule forEach_nth_rel [where P = ?P, rotated]) (simp add: hPlaceStep_height)
  with pre show ?thesis
    by (simp add: hBoxLayout_Layout_def Let_def hMeasured_map)
qed

subsection \<open>Closed forms of the first loop\<close>

lemma fyne_Max_max: "fyne_Max x y = max x y"
  by (simp add: fyne_Max_def max_def)

lemma vMeasureStep_fst:
  "fst (vMeasureStep sz t c) =
     (if \<not> Visible c then t
      else if isVerticalSpacer c then t\<lparr>spacers := spacers t + 1\<rparr>
      else t\<lparr>visibleObjects := visibleObjects t + 1,
             totalMin := totalMin t + Height (MinSize c),
             growFactors := growFactors t + vWeight c\<rparr>)"
  by (simp add: vMeasureStep_def Let_def vWeight_def max_def split: option.splits)

lemma hMeasureStep_fst:
  "fst (hMeasureStep sz t c) =
     (if \<not> Visible c then t
      else if isHorizontalSpacer c then t\<lparr>spacers := spacers t + 1\<rparr>
      else t\<lparr>visibleObjects := visibleObjects t + 1,
             totalMin := totalMin t + Width (MinSize c),
             growFactors := growFactors t + hWeight c\<rparr>)"
  by (simp add: hMeasureStep_def Let_def hWeight_def max_def split: option.splits)

lemma vMeasure_totals:
  "fst (forEach (vMeasureStep sz) t objects) =
     \<lparr>spacers = spacers t + int (length (vSpacers objects)),
      visibleObjects = visibleObjects t + int (length (vLaidOut objects)),
      totalMin = totalMin t + sum_list (map (\<lambda>c. Height (MinSize c)) (vLaidOut objects)),
      growFactors = growFactors t + sum_list (map vWeight (vLaidOut objects))\<rparr>"
proof (induction objects arbitrary: t)
  case Nil
  show ?case by (simp add: vSpacers_def vLaidOut_def)
next
  case (Cons c cs)
  show ?case
    by (simp add: forEach_Cons_fst Cons.IH vMeasureStep_fst vSpacers_def vLaidOut_def
          del: forEach.simps(2))
qed

lemma hMeasure_totals:
  "fst (forEach (hMeasureStep sz) t objects) =
     \<lparr>spacers = spacers t + int (length (hSpacers objects)),
      visibleObjects = visibleObjects t + int (length (hLaidOut objects)),
      totalMin = totalMin t + sum_list (map (\<lambda>c. Width (MinSize c)) (hLaidOut objects)),
      growFactors = growFactors t + sum_list (map hWeight (hLaidOut objects))\<rparr>"
proof (induction objects arbitrary: t)
  case Nil
  show ?case by (simp add: hSpacers_def hLaidOut_def)
next
  case (Cons c cs)
  show ?case
    by (simp add: forEach_Cons_fst Cons.IH hMeasureStep_fst hSpacers_def hLaidOut_def
          del: forEach.simps(2))
qed

lemma vTotals_closed:
  "vTotals objects sz =
     \<lparr>spacers = int (length (vSpacers objects)),
      visibleObjects = int (length (vLaidOut objects)),
      totalMin = sum_list (map (\<lambda>c. Height (MinSize c)) (vLaidOut objects)),
      growFactors = sum_list (map vWeight (vLaidOut objects))\<rparr>"
  by (simp add: vTotals_def vMeasure_totals noTotals_def)

lemma hTotals_closed:
  "hTotals objects sz =
     \<lparr>spacers = int (length (hSpacers objects)),
      visibleObjects = int (length (hLaidOut objects)),
      totalMin = sum_list (map (\<lambda>c. Width (MinSize c)) (hLaidOut objects)),
      growFactors = sum_list (map hWeight (hLaidOut objects))\<rparr>"
  by (simp add: hTotals_def hMeasure_totals noTotals_def)

lemma vExtra_closed:
  "vExtra padding objects sz =
     Height sz - sum_list (map (\<lambda>c. Height (MinSize c)) (vLaidOut objects))
       - padding * (real (length (vLaidOut objects)) - 1)"
  by (simp add: vExtra_def extraOf_def vTotals_closed)

lemma hExtra_closed:
  "hExtra padding objects sz =
     Width sz - sum_list (map (\<lambda>c. Width (MinSize c)) (hLaidOut objects))
       - padding * (real (length (hLaidOut objects)) - 1)"
  by (simp add: hExtra_def extraOf_def hTotals_closed)

subsection \<open>Closed forms of \<open>MinSize\<close>\<close>

lemma fold_filter_skip:
  assumes "\<And>c a. \<not> p c \<Longrightarrow> f c a = a"
  shows "fold f (filter p xs) a = fold f xs a"
  by (induction xs arbitrary: a) (simp_all add: assms)

lemma vMinSize_fold_laidOut:
  "fold (vMinSizeStep padding) objects acc = fold (vMinSizeStep padding) (vLaidOut objects) acc"
  unfolding vLaidOut_def
  by (rule fold_filter_skip [symmetric]) (auto simp add: vMinSizeStep_def split: prod.splits)

lemma hMinSize_fold_laidOut:
  "fold (hMinSizeStep padding) objects acc = fold (hMinSizeStep padding) (hLaidOut objects) acc"
  unfolding hLaidOut_def
  by (rule fold_filter_skip [symmetric]) (auto simp add: hMinSizeStep_def split: prod.splits)

lemma Max_insert_fold: "fold max ws (w::real) = Max (insert w (set ws))"
  using Max.set_eq_fold [of w ws] by simp

lemma vMinSize_fold_closed:
  assumes "\<forall>c \<in> set cs. Visible c \<and> \<not> isVerticalSpacer c"
  shows "fold (vMinSizeStep padding) cs (m, b) =
     (\<lparr>Width = fold max (map (\<lambda>c. Width (MinSize c)) cs) (Width m),
       Height = Height m + sum_list (map (\<lambda>c. Height (MinSize c)) cs)
                 + padding * real (if b then length cs else length cs - 1)\<rparr>,
      b \<or> cs \<noteq> [])"
  using assms
proof (induction cs arbitrary: m b)
  case Nil
  show ?case by simp
next
  case (Cons c cs)
  have step: "vMinSizeStep padding c (m, b) =
      (\<lparr>Width = max (Width (MinSize c)) (Width m),
        Height = Height m + Height (MinSize c) + (if b then padding else 0)\<rparr>, True)"
    using Cons.prems by (simp add: vMinSizeStep_def Let_def fyne_Max_max)
  have rest: "\<forall>c \<in> set cs. Visible c \<and> \<not> isVerticalSpacer c" using Cons.prems by simp
  show ?case
    by (simp add: step Cons.IH [OF rest] algebra_simps)
qed

lemma hMinSize_fold_closed:
  assumes "\<forall>c \<in> set cs. Visible c \<and> \<not> isHorizontalSpacer c"
  shows "fold (hMinSizeStep padding) cs (m, b) =
     (\<lparr>Width = Width m + sum_list (map (\<lambda>c. Width (MinSize c)) cs)
                 + padding * real (if b then length cs else length cs - 1),
       Height = fold max (map (\<lambda>c. Height (MinSize c)) cs) (Height m)\<rparr>,
      b \<or> cs \<noteq> [])"
  using assms
proof (induction cs arbitrary: m b)
  case Nil
  show ?case by simp
next
  case (Cons c cs)
  have step: "hMinSizeStep padding c (m, b) =
      (\<lparr>Width = Width m + Width (MinSize c) + (if b then padding else 0),
        Height = max (Height (MinSize c)) (Height m)\<rparr>, True)"
    using Cons.prems by (simp add: hMinSizeStep_def Let_def fyne_Max_max)
  have rest: "\<forall>c \<in> set cs. Visible c \<and> \<not> isHorizontalSpacer c" using Cons.prems by simp
  show ?case
    by (simp add: step Cons.IH [OF rest] algebra_simps)
qed

lemma vMinSize_closed:
  "vBoxLayout_MinSize padding objects =
     \<lparr>Width = Max (insert 0 (set (map (\<lambda>c. Width (MinSize c)) (vLaidOut objects)))),
      Height = sum_list (map (\<lambda>c. Height (MinSize c)) (vLaidOut objects))
                 + padding * real (length (vLaidOut objects) - 1)\<rparr>"
proof -
  have "\<forall>c \<in> set (vLaidOut objects). Visible c \<and> \<not> isVerticalSpacer c"
    by (simp add: vLaidOut_def)
  then show ?thesis
    unfolding vBoxLayout_MinSize_def
    by (subst vMinSize_fold_laidOut) (simp add: vMinSize_fold_closed Max_insert_fold)
qed

lemma hMinSize_closed:
  "hBoxLayout_MinSize padding objects =
     \<lparr>Width = sum_list (map (\<lambda>c. Width (MinSize c)) (hLaidOut objects))
                 + padding * real (length (hLaidOut objects) - 1),
      Height = Max (insert 0 (set (map (\<lambda>c. Height (MinSize c)) (hLaidOut objects))))\<rparr>"
proof -
  have "\<forall>c \<in> set (hLaidOut objects). Visible c \<and> \<not> isHorizontalSpacer c"
    by (simp add: hLaidOut_def)
  then show ?thesis
    unfolding hBoxLayout_MinSize_def
    by (subst hMinSize_fold_laidOut) (simp add: hMinSize_fold_closed Max_insert_fold)
qed

lemma Max_insert_zero:
  fixes ws :: "real list"
  assumes "ws \<noteq> []" and "\<forall>w \<in> set ws. 0 \<le> w"
  shows "Max (insert 0 (set ws)) = Max (set ws)"
proof -
  have ne: "set ws \<noteq> {}" using assms(1) by simp
  have "Max (insert 0 (set ws)) = max 0 (Max (set ws))"
    using ne by simp
  moreover have "0 \<le> Max (set ws)"
    using ne assms by (cases ws) (auto simp add: Max_ge_iff)
  ultimately show ?thesis by simp
qed

subsection \<open>Invisible children and spacers\<close>

lemma vMeasureStep_invisible: "\<not> Visible c \<Longrightarrow> vMeasureStep sz t c = (t, c)"
  by (simp add: vMeasureStep_def)

lemma hMeasureStep_invisible: "\<not> Visible c \<Longrightarrow> hMeasureStep sz t c = (t, c)"
  by (simp add: hMeasureStep_def)

lemma vPlaceStep_invisible: "\<not> Visible c \<Longrightarrow> vPlaceStep sz padding f k cur c = (cur, c)"
  by (cases cur) (simp add: vPlaceStep_def)

lemma hPlaceStep_invisible: "\<not> Visible c \<Longrightarrow> hPlaceStep sz padding f k cur c = (cur, c)"
  by (cases cur) (simp add: hPlaceStep_def)

lemma vMeasureStep_Visible [simp]: "Visible (snd (vMeasureStep sz t c)) = Visible c"
  by (simp add: vMeasureStep_snd)

lemma hMeasureStep_Visible [simp]: "Visible (snd (hMeasureStep sz t c)) = Visible c"
  by (simp add: hMeasureStep_snd)

lemma vMeasureStep_isSpacer [simp]:
  "isVerticalSpacer (snd (vMeasureStep sz t c)) = isVerticalSpacer c"
  by (simp add: vMeasureStep_snd)

lemma hMeasureStep_isSpacer [simp]:
  "isHorizontalSpacer (snd (hMeasureStep sz t c)) = isHorizontalSpacer c"
  by (simp add: hMeasureStep_snd)

lemma vPlaceStep_Visible [simp]: "Visible (snd (vPlaceStep sz padding f k cur c)) = Visible c"
  by (cases cur) (simp add: vPlaceStep_def Let_def split: option.splits)

lemma hPlaceStep_Visible [simp]: "Visible (snd (hPlaceStep sz padding f k cur c)) = Visible c"
  by (cases cur) (simp add: hPlaceStep_def Let_def split: option.splits)

lemma vPlaceStep_isSpacer [simp]:
  "isVerticalSpacer (snd (vPlaceStep sz padding f k cur c)) = isVerticalSpacer c"
  by (cases cur) (simp add: vPlaceStep_def Let_def split: option.splits)

lemma hPlaceStep_isSpacer [simp]:
  "isHorizontalSpacer (snd (hPlaceStep sz padding f k cur c)) = isHorizontalSpacer c"
  by (cases cur) (simp add: hPlaceStep_def Let_def split: option.splits)

lemma vLayout_loops:
  "vBoxLayout_Layout padding objects sz =
     snd (forEach (vPlaceStep sz padding (vPerFactor padding objects sz) (vSpacerSize padding objects sz))
            (0, 0) (map (\<lambda>c. snd (vMeasureStep sz noTotals c)) objects))"
  by (simp add: vBoxLayout_Layout_def Let_def vMeasured_map)

lemma hLayout_loops:
  "hBoxLayout_Layout padding objects sz =
     snd (forEach (hPlaceStep sz padding (hPerFactor padding objects sz) (hSpacerSize padding objects sz))
            (0, 0) (map (\<lambda>c. snd (hMeasureStep sz noTotals c)) objects))"
  by (simp add: hBoxLayout_Layout_def Let_def hMeasured_map)

lemma vLayout_length [simp]: "length (vBoxLayout_Layout padding objects sz) = length objects"
  by (simp add: vLayout_loops forEach_length)

lemma hLayout_length [simp]: "length (hBoxLayout_Layout padding objects sz) = length objects"
  by (simp add: hLayout_loops forEach_length)

lemma vLaidOut_Visible [simp]: "vLaidOut (filter Visible objects) = vLaidOut objects"
  by (simp add: vLaidOut_def)

lemma hLaidOut_Visible [simp]: "hLaidOut (filter Visible objects) = hLaidOut objects"
  by (simp add: hLaidOut_def)

lemma vSpacers_Visible [simp]: "vSpacers (filter Visible objects) = vSpacers objects"
  by (simp add: vSpacers_def)

lemma hSpacers_Visible [simp]: "hSpacers (filter Visible objects) = hSpacers objects"
  by (simp add: hSpacers_def)

lemma vLayout_filter_Visible:
  "filter Visible (vBoxLayout_Layout padding objects sz) =
     vBoxLayout_Layout padding (filter Visible objects) sz"
proof -
  let ?m = "\<lambda>c. snd (vMeasureStep sz noTotals c)"
  have t: "vTotals (filter Visible objects) sz = vTotals objects sz"
    by (simp add: vTotals_closed)
  have f: "vPerFactor padding (filter Visible objects) sz = vPerFactor padding objects sz"
    by (simp add: vPerFactor_def vExtra_def t)
  have k: "vSpacerSize padding (filter Visible objects) sz = vSpacerSize padding objects sz"
    by (simp add: vSpacerSize_def vExtra_def t)
  have m: "map ?m (filter Visible objects) = filter Visible (map ?m objects)"
    by (simp add: filter_map comp_def)
  show ?thesis
    unfolding vLayout_loops f k m
    by (subst forEach_filter) (simp_all add: vPlaceStep_invisible)
qed

lemma hLayout_filter_Visible:
  "filter Visible (hBoxLayout_Layout padding objects sz) =
     hBoxLayout_Layout padding (filter Visible objects) sz"
proof -
  let ?m = "\<lambda>c. snd (hMeasureStep sz noTotals c)"
  have t: "hTotals (filter Visible objects) sz = hTotals objects sz"
    by (simp add: hTotals_closed)
  have f: "hPerFactor padding (filter Visible objects) sz = hPerFactor padding objects sz"
    by (simp add: hPerFactor_def hExtra_def t)
  have k: "hSpacerSize padding (filter Visible objects) sz = hSpacerSize padding objects sz"
    by (simp add: hSpacerSize_def hExtra_def t)
  have m: "map ?m (filter Visible objects) = filter Visible (map ?m objects)"
    by (simp add: filter_map comp_def)
  show ?thesis
    unfolding hLayout_loops f k m
    by (subst forEach_filter) (simp_all add: hPlaceStep_invisible)
qed

lemma vLayout_untouched:
  assumes "i < length objects" and "\<not> Visible (objects ! i) \<or> isVerticalSpacer (objects ! i)"
  shows "vBoxLayout_Layout padding objects sz ! i = objects ! i"
proof -
  let ?m = "map (\<lambda>c. snd (vMeasureStep sz noTotals c)) objects"
  let ?P = "\<lambda>c c'. \<not> Visible c \<or> isVerticalSpacer c \<longrightarrow> c' = c"
  have i: "i < length ?m" using assms(1) by simp
  have same: "?m ! i = objects ! i" using assms by (auto simp add: vMeasureStep_snd)
  have "?P (?m ! i) (snd (forEach (vPlaceStep sz padding f k) (0, 0) ?m) ! i)" for f k
    using i
    by (rule forEach_nth_rel [where P = ?P, rotated])
       (auto simp add: vPlaceStep_def split: prod.splits)
  then show ?thesis using assms(2) same by (simp add: vLayout_loops)
qed

lemma hLayout_untouched:
  assumes "i < length objects" and "\<not> Visible (objects ! i) \<or> isHorizontalSpacer (objects ! i)"
  shows "hBoxLayout_Layout padding objects sz ! i = objects ! i"
proof -
  let ?m = "map (\<lambda>c. snd (hMeasureStep sz noTotals c)) objects"
  let ?P = "\<lambda>c c'. \<not> Visible c \<or> isHorizontalSpacer c \<longrightarrow> c' = c"
  have i: "i < length ?m" using assms(1) by simp
  have same: "?m ! i = objects ! i" using assms by (auto simp add: hMeasureStep_snd)
  have "?P (?m ! i) (snd (forEach (hPlaceStep sz padding f k) (0, 0) ?m) ! i)" for f k
    using i
    by (rule forEach_nth_rel [where P = ?P, rotated])
       (auto simp add: hPlaceStep_def split: prod.splits)
  then show ?thesis using assms(2) same by (simp add: hLayout_loops)
qed

lemma vMinSize_filter_Visible:
  "vBoxLayout_MinSize padding (filter Visible objects) = vBoxLayout_MinSize padding objects"
  by (simp add: vMinSize_closed)

lemma hMinSize_filter_Visible:
  "hBoxLayout_MinSize padding (filter Visible objects) = hBoxLayout_MinSize padding objects"
  by (simp add: hMinSize_closed)

lemma forEach_filter_map:
  assumes "\<And>s c. P (snd (body s c)) = P c" and "\<And>s c. h (snd (body s c)) = g c"
  shows "map h (filter P (snd (forEach body s xs))) = map g (filter P xs)"
  by (induction xs arbitrary: s) (simp_all add: forEach_Cons_snd assms del: forEach.simps(2))

lemma forEach_map_snd:
  assumes "\<And>s c. h (snd (body s c)) = g c"
  shows "map h (snd (forEach body s xs)) = map g xs"
  by (induction xs arbitrary: s) (simp_all add: forEach_Cons_snd assms del: forEach.simps(2))

lemma vPlaceStep_objSize:
  "objSize (snd (vPlaceStep sz padding f k cur c)) = objSize (snd (vPlaceStep sz padding f 0 (0, 0) c))"
  by (cases cur) (simp add: vPlaceStep_def Let_def split: option.splits)

lemma hPlaceStep_objSize:
  "objSize (snd (hPlaceStep sz padding f k cur c)) = objSize (snd (hPlaceStep sz padding f 0 (0, 0) c))"
  by (cases cur) (simp add: hPlaceStep_def Let_def split: option.splits)

lemma vLaidOut_no_spacers [simp]:
  "vLaidOut (filter (\<lambda>c. \<not> isVerticalSpacer c) objects) = vLaidOut objects"
  by (simp add: vLaidOut_def) (metis (mono_tags, lifting) filter_cong)

lemma hLaidOut_no_spacers [simp]:
  "hLaidOut (filter (\<lambda>c. \<not> isHorizontalSpacer c) objects) = hLaidOut objects"
  by (simp add: hLaidOut_def) (metis (mono_tags, lifting) filter_cong)

lemma vPerFactor_closed:
  "vPerFactor padding objects sz =
     (if sum_list (map vWeight (vLaidOut objects)) > 0
      then vExtra padding objects sz / sum_list (map vWeight (vLaidOut objects)) else 0)"
  by (simp add: vPerFactor_def perFactorOf_def vTotals_closed)

lemma hPerFactor_closed:
  "hPerFactor padding objects sz =
     (if sum_list (map hWeight (hLaidOut objects)) > 0
      then hExtra padding objects sz / sum_list (map hWeight (hLaidOut objects)) else 0)"
  by (simp add: hPerFactor_def perFactorOf_def hTotals_closed)

lemma vSpacerSize_closed:
  "vSpacerSize padding objects sz =
     (if vSpacers objects \<noteq> []
      then vExtra padding objects sz / real (length (vSpacers objects)) else 0)"
  by (simp add: vSpacerSize_def spacerSizeOf_def vTotals_closed)

lemma hSpacerSize_closed:
  "hSpacerSize padding objects sz =
     (if hSpacers objects \<noteq> []
      then hExtra padding objects sz / real (length (hSpacers objects)) else 0)"
  by (simp add: hSpacerSize_def spacerSizeOf_def hTotals_closed)

lemma vLayout_sizes_without_spacers:
  "map objSize (filter (\<lambda>c. \<not> isVerticalSpacer c) (vBoxLayout_Layout padding objects sz)) =
   map objSize (vBoxLayout_Layout padding (filter (\<lambda>c. \<not> isVerticalSpacer c) objects) sz)"
proof -
  let ?P = "\<lambda>c. \<not> isVerticalSpacer c"
  let ?m = "\<lambda>c. snd (vMeasureStep sz noTotals c)"
  let ?f = "vPerFactor padding objects sz"
  let ?g = "\<lambda>c. objSize (snd (vPlaceStep sz padding ?f 0 (0, 0) c))"
  have f: "vPerFactor padding (filter ?P objects) sz = ?f"
    by (simp add: vPerFactor_closed vExtra_closed)
  have l: "map objSize (filter ?P (vBoxLayout_Layout padding objects sz)) =
             map ?g (filter ?P (map ?m objects))"
    unfolding vLayout_loops
    by (rule forEach_filter_map) (simp_all add: vPlaceStep_objSize [of _ _ _ "vSpacerSize padding objects sz"])
  have r: "map objSize (vBoxLayout_Layout padding (filter ?P objects) sz) =
             map ?g (map ?m (filter ?P objects))"
    unfolding vLayout_loops f
    by (rule forEach_map_snd)
       (simp add: vPlaceStep_objSize [of _ _ _ "vSpacerSize padding (filter ?P objects) sz"])
  show ?thesis unfolding l r by (simp add: filter_map comp_def)
qed

lemma hLayout_sizes_without_spacers:
  "map objSize (filter (\<lambda>c. \<not> isHorizontalSpacer c) (hBoxLayout_Layout padding objects sz)) =
   map objSize (hBoxLayout_Layout padding (filter (\<lambda>c. \<not> isHorizontalSpacer c) objects) sz)"
proof -
  let ?P = "\<lambda>c. \<not> isHorizontalSpacer c"
  let ?m = "\<lambda>c. snd (hMeasureStep sz noTotals c)"
  let ?f = "hPerFactor padding objects sz"
  let ?g = "\<lambda>c. objSize (snd (hPlaceStep sz padding ?f 0 (0, 0) c))"
  have f: "hPerFactor padding (filter ?P objects) sz = ?f"
    by (simp add: hPerFactor_closed hExtra_closed)
  have l: "map objSize (filter ?P (hBoxLayout_Layout padding objects sz)) =
             map ?g (filter ?P (map ?m objects))"
    unfolding hLayout_loops
    by (rule forEach_filter_map) (simp_all add: hPlaceStep_objSize [of _ _ _ "hSpacerSize padding objects sz"])
  have r: "map objSize (hBoxLayout_Layout padding (filter ?P objects) sz) =
             map ?g (map ?m (filter ?P objects))"
    unfolding hLayout_loops f
    by (rule forEach_map_snd)
       (simp add: hPlaceStep_objSize [of _ _ _ "hSpacerSize padding (filter ?P objects) sz"])
  show ?thesis unfolding l r by (simp add: filter_map comp_def)
qed

lemma vPlaceStep_spacer:
  assumes "c \<in> set objects" and "Visible c" and "isVerticalSpacer c"
  shows "vPlaceStep sz padding f (vSpacerSize padding objects sz) (x, y) c =
           ((x, y + vExtra padding objects sz / real (length (vSpacers objects))), c)"
proof -
  have "c \<in> set (vSpacers objects)" using assms by (simp add: vSpacers_def)
  then have "vSpacers objects \<noteq> []" by auto
  then show ?thesis using assms by (simp add: vPlaceStep_def vSpacerSize_closed)
qed

lemma hPlaceStep_spacer:
  assumes "c \<in> set objects" and "Visible c" and "isHorizontalSpacer c"
  shows "hPlaceStep sz padding f (hSpacerSize padding objects sz) (x, y) c =
           ((x + hExtra padding objects sz / real (length (hSpacers objects)), y), c)"
proof -
  have "c \<in> set (hSpacers objects)" using assms by (simp add: hSpacers_def)
  then have "hSpacers objects \<noteq> []" by auto
  then show ?thesis using assms by (simp add: hPlaceStep_def hSpacerSize_closed)
qed

subsection \<open>Unfolding for concrete inputs\<close>

lemmas object_defs = widget_def growing_def spacerObj_def crossSpacer_def hidden_def
  isVerticalSpacer_def isHorizontalSpacer_def Move_def Resize_def NewSize_def NewPos_def

lemmas layout_defs = vBoxLayout_Layout_def hBoxLayout_Layout_def vPerFactor_def hPerFactor_def
  vSpacerSize_def hSpacerSize_def vExtra_def hExtra_def vTotals_def hTotals_def
  vMeasureStep_def hMeasureStep_def vPlaceStep_def hPlaceStep_def
  extraOf_def perFactorOf_def spacerSizeOf_def noTotals_def Let_def

lemmas minSize_defs = vBoxLayout_MinSize_def hBoxLayout_MinSize_def vMinSizeStep_def
  hMinSizeStep_def fyne_Max_def Let_def

subsection \<open>Swapping the axes\<close>

lemma swapSize_fields [simp]:
  "Width (swapSize s) = Height s" "Height (swapSize s) = Width s"
  by (simp_all add: swapSize_def)

lemma swapSize_twice [simp]: "swapSize (swapSize s) = s"
  by (simp add: swapSize_def)

lemma swapPos_twice [simp]: "swapPos (swapPos p) = p"
  by (simp add: swapPos_def)

lemma swapSpacer_twice [simp]: "swapSpacer (swapSpacer s) = s"
  by (simp add: swapSpacer_def)

lemma swapAxes_fields [simp]:
  "Visible (swapAxes c) = Visible c" "MinSize (swapAxes c) = swapSize (MinSize c)"
  "Growable (swapAxes c) = Growable c" "Spacer (swapAxes c) = map_option swapSpacer (Spacer c)"
  "objPos (swapAxes c) = swapPos (objPos c)" "objSize (swapAxes c) = swapSize (objSize c)"
  by (simp_all add: swapAxes_def)

lemma swapAxes_twice [simp]: "swapAxes (swapAxes c) = c"
  by (rule CanvasObject.equality) (simp_all add: option.map_comp comp_def option.map_ident)

lemma swapAxes_comp [simp]: "swapAxes \<circ> swapAxes = id"
  by (rule ext) simp

lemma isHorizontalSpacer_swapAxes [simp]: "isHorizontalSpacer (swapAxes c) = isVerticalSpacer c"
  by (simp add: isHorizontalSpacer_def isVerticalSpacer_def swapSpacer_def split: option.splits)

lemma isVerticalSpacer_swapAxes [simp]: "isVerticalSpacer (swapAxes c) = isHorizontalSpacer c"
  by (simp add: isHorizontalSpacer_def isVerticalSpacer_def swapSpacer_def split: option.splits)

lemma swapAxes_Resize: "swapAxes (Resize s c) = Resize (swapSize s) (swapAxes c)"
  by (simp add: swapAxes_def Resize_def)

lemma swapAxes_Move: "swapAxes (Move p c) = Move (swapPos p) (swapAxes c)"
  by (simp add: swapAxes_def Move_def)

lemma swapSize_NewSize: "swapSize (NewSize w h) = NewSize h w"
  by (simp add: swapSize_def NewSize_def)

lemma swapPos_NewPos: "swapPos (NewPos x y) = NewPos y x"
  by (simp add: swapPos_def NewPos_def)

lemma hMeasureStep_swapAxes:
  "hMeasureStep sz t (swapAxes c) =
     (fst (vMeasureStep (swapSize sz) t c), swapAxes (snd (vMeasureStep (swapSize sz) t c)))"
  by (simp add: hMeasureStep_def vMeasureStep_def Let_def swapAxes_Resize swapSize_NewSize
        split: option.splits)

lemma hPlaceStep_swapAxes:
  "hPlaceStep sz padding f k (prod.swap cur) (swapAxes c) =
     (prod.swap (fst (vPlaceStep (swapSize sz) padding f k cur c)),
      swapAxes (snd (vPlaceStep (swapSize sz) padding f k cur c)))"
  by (cases cur)
     (simp add: hPlaceStep_def vPlaceStep_def Let_def swapAxes_Resize swapAxes_Move
        swapSize_NewSize swapPos_NewPos split: option.splits)

lemma hMinSizeStep_swapAxes:
  "hMinSizeStep padding (swapAxes c) (swapSize m, b) =
     (swapSize (fst (vMinSizeStep padding c (m, b))), snd (vMinSizeStep padding c (m, b)))"
  by (simp add: hMinSizeStep_def vMinSizeStep_def Let_def swapSize_def)

lemma hMinSize_fold_swapAxes:
  "fold (hMinSizeStep padding) (map swapAxes cs) (swapSize m, b) =
     (swapSize (fst (fold (vMinSizeStep padding) cs (m, b))),
      snd (fold (vMinSizeStep padding) cs (m, b)))"
proof (induction cs arbitrary: m b)
  case Nil
  show ?case by simp
next
  case (Cons c cs)
  obtain m1 b1 where s: "vMinSizeStep padding c (m, b) = (m1, b1)"
    by (cases "vMinSizeStep padding c (m, b)")
  show ?case using Cons.IH [of m1 b1] by (simp add: hMinSizeStep_swapAxes s)
qed

lemma hMinSize_mirror:
  "hBoxLayout_MinSize padding (map swapAxes objects) = swapSize (vBoxLayout_MinSize padding objects)"
proof -
  have "NewSize 0 0 = swapSize (NewSize 0 0)" by (simp add: swapSize_NewSize)
  then show ?thesis
    unfolding hBoxLayout_MinSize_def vBoxLayout_MinSize_def
    by (metis hMinSize_fold_swapAxes fst_conv)
qed

lemma hTotals_mirror: "hTotals (map swapAxes objects) sz = vTotals objects (swapSize sz)"
  unfolding hTotals_def vTotals_def
  using forEach_sim [where body' = "hMeasureStep sz" and body = "vMeasureStep (swapSize sz)"
      and S = "\<lambda>t. t" and T = swapAxes and s = noTotals and xs = objects]
  by (simp add: hMeasureStep_swapAxes)

lemma hMeasured_mirror:
  "snd (forEach (hMeasureStep sz) noTotals (map swapAxes objects)) =
     map swapAxes (snd (forEach (vMeasureStep (swapSize sz)) noTotals objects))"
  using forEach_sim [where body' = "hMeasureStep sz" and body = "vMeasureStep (swapSize sz)"
      and S = "\<lambda>t. t" and T = swapAxes and s = noTotals and xs = objects]
  by (simp add: hMeasureStep_swapAxes)

lemma hLayout_mirror:
  "hBoxLayout_Layout padding (map swapAxes objects) sz =
     map swapAxes (vBoxLayout_Layout padding objects (swapSize sz))"
proof -
  have e: "hExtra padding (map swapAxes objects) sz = vExtra padding objects (swapSize sz)"
    by (simp add: hExtra_def vExtra_def hTotals_mirror)
  have f: "hPerFactor padding (map swapAxes objects) sz = vPerFactor padding objects (swapSize sz)"
    by (simp add: hPerFactor_def vPerFactor_def hTotals_mirror e)
  have k: "hSpacerSize padding (map swapAxes objects) sz = vSpacerSize padding objects (swapSize sz)"
    by (simp add: hSpacerSize_def vSpacerSize_def hTotals_mirror e)
  have p: "snd (forEach (hPlaceStep sz padding a b) (0, 0) (map swapAxes ys)) =
             map swapAxes (snd (forEach (vPlaceStep (swapSize sz) padding a b) (0, 0) ys))"
    for a b ys
    using forEach_sim [where body' = "hPlaceStep sz padding a b"
        and body = "vPlaceStep (swapSize sz) padding a b"
        and S = prod.swap and T = swapAxes and s = "(0, 0)" and xs = ys]
    by (simp add: hPlaceStep_swapAxes)
  show ?thesis
    by (simp add: hBoxLayout_Layout_def vBoxLayout_Layout_def Let_def f k hMeasured_mirror p)
qed

subsection \<open>Taking an unused spacer capability away\<close>

lemma vPlain_fields [simp]:
  "Visible (vPlain c) = Visible c" "MinSize (vPlain c) = MinSize c"
  "Growable (vPlain c) = Growable c" "objPos (vPlain c) = objPos c"
  "objSize (vPlain c) = objSize c" "isVerticalSpacer (vPlain c) = isVerticalSpacer c"
  by (simp_all add: vPlain_def isVerticalSpacer_def)

lemma hPlain_fields [simp]:
  "Visible (hPlain c) = Visible c" "MinSize (hPlain c) = MinSize c"
  "Growable (hPlain c) = Growable c" "objPos (hPlain c) = objPos c"
  "objSize (hPlain c) = objSize c" "isHorizontalSpacer (hPlain c) = isHorizontalSpacer c"
  by (simp_all add: hPlain_def isHorizontalSpacer_def)

lemma vPlain_Resize: "vPlain (Resize s c) = Resize s (vPlain c)"
  by (simp add: vPlain_def Resize_def isVerticalSpacer_def)

lemma vPlain_Move: "vPlain (Move p c) = Move p (vPlain c)"
  by (simp add: vPlain_def Move_def isVerticalSpacer_def)

lemma hPlain_Resize: "hPlain (Resize s c) = Resize s (hPlain c)"
  by (simp add: hPlain_def Resize_def isHorizontalSpacer_def)

lemma hPlain_Move: "hPlain (Move p c) = Move p (hPlain c)"
  by (simp add: hPlain_def Move_def isHorizontalSpacer_def)

lemma vMeasureStep_vPlain:
  "vMeasureStep sz t (vPlain c) = (fst (vMeasureStep sz t c), vPlain (snd (vMeasureStep sz t c)))"
  by (simp add: vMeasureStep_def Let_def vPlain_Resize split: option.splits)

lemma hMeasureStep_hPlain:
  "hMeasureStep sz t (hPlain c) = (fst (hMeasureStep sz t c), hPlain (snd (hMeasureStep sz t c)))"
  by (simp add: hMeasureStep_def Let_def hPlain_Resize split: option.splits)

lemma vPlaceStep_vPlain:
  "vPlaceStep sz padding f k cur (vPlain c) =
     (fst (vPlaceStep sz padding f k cur c), vPlain (snd (vPlaceStep sz padding f k cur c)))"
  by (cases cur) (simp add: vPlaceStep_def Let_def vPlain_Resize vPlain_Move split: option.splits)

lemma hPlaceStep_hPlain:
  "hPlaceStep sz padding f k cur (hPlain c) =
     (fst (hPlaceStep sz padding f k cur c), hPlain (snd (hPlaceStep sz padding f k cur c)))"
  by (cases cur) (simp add: hPlaceStep_def Let_def hPlain_Resize hPlain_Move split: option.splits)

lemma vMinSizeStep_vPlain: "vMinSizeStep padding (vPlain c) = vMinSizeStep padding c"
  by (rule ext) (simp add: vMinSizeStep_def Let_def split: prod.splits)

lemma hMinSizeStep_hPlain: "hMinSizeStep padding (hPlain c) = hMinSizeStep padding c"
  by (rule ext) (simp add: hMinSizeStep_def Let_def split: prod.splits)

lemma vMinSize_vPlain:
  "vBoxLayout_MinSize padding (map vPlain objects) = vBoxLayout_MinSize padding objects"
  by (simp add: vBoxLayout_MinSize_def fold_map comp_def vMinSizeStep_vPlain)

lemma hMinSize_hPlain:
  "hBoxLayout_MinSize padding (map hPlain objects) = hBoxLayout_MinSize padding objects"
  by (simp add: hBoxLayout_MinSize_def fold_map comp_def hMinSizeStep_hPlain)

lemma vLayout_vPlain:
  "vBoxLayout_Layout padding (map vPlain objects) sz = map vPlain (vBoxLayout_Layout padding objects sz)"
proof -
  have m: "forEach (vMeasureStep sz) noTotals (map vPlain objects) =
      (fst (forEach (vMeasureStep sz) noTotals objects),
       map vPlain (snd (forEach (vMeasureStep sz) noTotals objects)))"
    using forEach_sim [where body' = "vMeasureStep sz" and body = "vMeasureStep sz"
        and S = "\<lambda>t. t" and T = vPlain and s = noTotals and xs = objects]
    by (simp add: vMeasureStep_vPlain)
  have t: "vTotals (map vPlain objects) sz = vTotals objects sz"
    by (simp add: vTotals_def m)
  have f: "vPerFactor padding (map vPlain objects) sz = vPerFactor padding objects sz"
    by (simp add: vPerFactor_def vExtra_def t)
  have k: "vSpacerSize padding (map vPlain objects) sz = vSpacerSize padding objects sz"
    by (simp add: vSpacerSize_def vExtra_def t)
  have p: "snd (forEach (vPlaceStep sz padding a b) (0, 0) (map vPlain ys)) =
             map vPlain (snd (forEach (vPlaceStep sz padding a b) (0, 0) ys))" for a b ys
    using forEach_sim [where body' = "vPlaceStep sz padding a b"
        and body = "vPlaceStep sz padding a b"
        and S = "\<lambda>cur. cur" and T = vPlain and s = "(0, 0)" and xs = ys]
    by (simp add: vPlaceStep_vPlain)
  show ?thesis
    by (simp add: vBoxLayout_Layout_def Let_def f k m p)
qed

lemma hLayout_hPlain:
  "hBoxLayout_Layout padding (map hPlain objects) sz = map hPlain (hBoxLayout_Layout padding objects sz)"
proof -
  have m: "forEach (hMeasureStep sz) noTotals (map hPlain objects) =
      (fst (forEach (hMeasureStep sz) noTotals objects),
       map hPlain (snd (forEach (hMeasureStep sz) noTotals objects)))"
    using forEach_sim [where body' = "hMeasureStep sz" and body = "hMeasureStep sz"
        and S = "\<lambda>t. t" and T = hPlain and s = noTotals and xs = objects]
    by (simp add: hMeasureStep_hPlain)
  have t: "hTotals (map hPlain objects) sz = hTotals objects sz"
    by (simp add: hTotals_def m)
  have f: "hPerFactor padding (map hPlain objects) sz = hPerFactor padding objects sz"
    by (simp add: hPerFactor_def hExtra_def t)
  have k: "hSpacerSize padding (map hPlain objects) sz = hSpacerSize padding objects sz"
    by (simp add: hSpacerSize_def hExtra_def t)
  have p: "snd (forEach (hPlaceStep sz padding a b) (0, 0) (map hPlain ys)) =
             map hPlain (snd (forEach (hPlaceStep sz padding a b) (0, 0) ys))" for a b ys
    using forEach_sim [where body' = "hPlaceStep sz padding a b"
        and body = "hPlaceStep sz padding a b"
        and S = "\<lambda>cur. cur" and T = hPlain and s = "(0, 0)" and xs = ys]
    by (simp add: hPlaceStep_hPlain)
  show ?thesis
    by (simp add: hBoxLayout_Layout_def Let_def f k m p)
qed

lemma vCrossSpacer_steps:
  assumes "Spacer c = Some s" and "\<not> ExpandVertical s" and "Visible c"
  shows "\<not> isVerticalSpacer c \<and>
    spacers (fst (vMeasureStep sz t c)) = spacers t \<and>
    visibleObjects (fst (vMeasureStep sz t c)) = visibleObjects t + 1 \<and>
    totalMin (fst (vMeasureStep sz t c)) = totalMin t + Height (MinSize c) \<and>
    objPos (snd (vPlaceStep sz padding f k (x, y) (snd (vMeasureStep sz t c)))) = NewPos x y \<and>
    Width (objSize (snd (vPlaceStep sz padding f k (x, y) (snd (vMeasureStep sz t c))))) = Width sz \<and>
    vMinSizeStep padding c (m, b) =
           (\<lparr>Width = fyne_Max (Width (MinSize c)) (Width m),
             Height = Height m + Height (MinSize c) + (if b then padding else 0)\<rparr>, True)"
  using assms
  by (simp add: isVerticalSpacer_def vMeasureStep_def vPlaceStep_def vMinSizeStep_def Let_def
        split: option.splits)

lemma hCrossSpacer_steps:
  assumes "Spacer c = Some s" and "\<not> ExpandHorizontal s" and "Visible c"
  shows "\<not> isHorizontalSpacer c \<and>
    spacers (fst (hMeasureStep sz t c)) = spacers t \<and>
    visibleObjects (fst (hMeasureStep sz t c)) = visibleObjects t + 1 \<and>
    totalMin (fst (hMeasureStep sz t c)) = totalMin t + Width (MinSize c) \<and>
    objPos (snd (hPlaceStep sz padding f k (x, y) (snd (hMeasureStep sz t c)))) = NewPos x y \<and>
    Height (objSize (snd (hPlaceStep sz padding f k (x, y) (snd (hMeasureStep sz t c))))) = Height sz \<and>
    hMinSizeStep padding c (m, b) =
           (\<lparr>Width = Width m + Width (MinSize c) + (if b then padding else 0),
             Height = fyne_Max (Height (MinSize c)) (Height m)\<rparr>, True)"
  using assms
  by (simp add: isHorizontalSpacer_def hMeasureStep_def hPlaceStep_def hMinSizeStep_def Let_def
        split: option.splits)

subsection \<open>Sizes of growable children, weights and the two shares\<close>

lemma vLayout_growable_size:
  assumes "i < length objects" and "Visible (objects ! i)" and "\<not> isVerticalSpacer (objects ! i)"
    and "Growable (objects ! i) = Some g"
  shows "objSize (vBoxLayout_Layout padding objects sz ! i) =
           NewSize (Width sz)
             (Height (MinSize (objects ! i)) +
              vPerFactor padding objects sz * g * Height (MinSize (objects ! i)))"
proof -
  let ?m = "map (\<lambda>c. snd (vMeasureStep sz noTotals c)) objects"
  let ?f = "vPerFactor padding objects sz"
  let ?P = "\<lambda>c c'. Visible c \<and> \<not> isVerticalSpacer c \<and> Growable c = Some g \<longrightarrow>
     objSize c' = NewSize (Width sz) (Height (MinSize c) + ?f * g * Height (MinSize c))"
  have i: "i < length ?m" using assms(1) by simp
  have same: "?m ! i = objects ! i" using assms by (simp add: vMeasureStep_snd)
  have "?P (?m ! i) (snd (forEach (vPlaceStep sz padding ?f k) (0, 0) ?m) ! i)" for k
    using i
    by (rule forEach_nth_rel [where P = ?P, rotated])
       (auto simp add: vPlaceStep_def Let_def split: prod.splits)
  then show ?thesis using assms same by (simp add: vLayout_loops)
qed

lemma hLayout_growable_size:
  assumes "i < length objects" and "Visible (objects ! i)" and "\<not> isHorizontalSpacer (objects ! i)"
    and "Growable (objects ! i) = Some g"
  shows "objSize (hBoxLayout_Layout padding objects sz ! i) =
           NewSize (Width (MinSize (objects ! i)) +
                    hPerFactor padding objects sz * g * Width (MinSize (objects ! i)))
             (Height sz)"
proof -
  let ?m = "map (\<lambda>c. snd (hMeasureStep sz noTotals c)) objects"
  let ?f = "hPerFactor padding objects sz"
  let ?P = "\<lambda>c c'. Visible c \<and> \<not> isHorizontalSpacer c \<and> Growable c = Some g \<longrightarrow>
     objSize c' = NewSize (Width (MinSize c) + ?f * g * Width (MinSize c)) (Height sz)"
  have i: "i < length ?m" using assms(1) by simp
  have same: "?m ! i = objects ! i" using assms by (simp add: hMeasureStep_snd)
  have "?P (?m ! i) (snd (forEach (hPlaceStep sz padding ?f k) (0, 0) ?m) ! i)" for k
    using i
    by (rule forEach_nth_rel [where P = ?P, rotated])
       (auto simp add: hPlaceStep_def Let_def split: prod.splits)
  then show ?thesis using assms same by (simp add: hLayout_loops)
qed

lemma member_le_sum_list_real:
  fixes ws :: "real list"
  assumes "\<forall>w \<in> set ws. 0 \<le> w" and "v \<in> set ws"
  shows "v \<le> sum_list ws"
  using assms
proof (induction ws)
  case Nil
  then show ?case by simp
next
  case (Cons w ws)
  have "0 \<le> sum_list ws" using Cons.prems(1) by (simp add: sum_list_nonneg)
  then show ?case using Cons by auto
qed

lemma vWeight_total_pos:
  assumes "\<exists>c \<in> set cs. \<exists>g. Growable c = Some g \<and> 0 < g"
    and "\<forall>c \<in> set cs. \<forall>g. Growable c = Some g \<longrightarrow> 0 \<le> g"
  shows "0 < sum_list (map vWeight cs)"
proof -
  obtain c g where c: "c \<in> set cs" "Growable c = Some g" "0 < g" using assms(1) by blast
  have "0 < vWeight c" using c by (simp add: vWeight_def max_def)
  moreover have "\<forall>w \<in> set (map vWeight cs). 0 \<le> w"
    using assms(2) by (auto simp add: vWeight_def max_def split: option.splits)
  then have "vWeight c \<le> sum_list (map vWeight cs)"
    using c(1) by (intro member_le_sum_list_real) auto
  ultimately show ?thesis by linarith
qed

lemma hWeight_total_pos:
  assumes "\<exists>c \<in> set cs. \<exists>g. Growable c = Some g \<and> 0 < g"
    and "\<forall>c \<in> set cs. \<forall>g. Growable c = Some g \<longrightarrow> 0 \<le> g"
  shows "0 < sum_list (map hWeight cs)"
proof -
  obtain c g where c: "c \<in> set cs" "Growable c = Some g" "0 < g" using assms(1) by blast
  have "0 < hWeight c" using c by (simp add: hWeight_def max_def)
  moreover have "\<forall>w \<in> set (map hWeight cs). 0 \<le> w"
    using assms(2) by (auto simp add: hWeight_def max_def split: option.splits)
  then have "hWeight c \<le> sum_list (map hWeight cs)"
    using c(1) by (intro member_le_sum_list_real) auto
  ultimately show ?thesis by linarith
qed

lemma vExtra_fixed_sizes:
  "vExtra padding (map (\<lambda>c. c\<lparr>Growable := None\<rparr>) objects) sz = vExtra padding objects sz"
  by (simp add: vExtra_closed vLaidOut_def filter_map comp_def isVerticalSpacer_def)

lemma hExtra_fixed_sizes:
  "hExtra padding (map (\<lambda>c. c\<lparr>Growable := None\<rparr>) objects) sz = hExtra padding objects sz"
  by (simp add: hExtra_closed hLaidOut_def filter_map comp_def isHorizontalSpacer_def)

lemma vSpacerSize_fixed_sizes:
  "vSpacerSize padding (map (\<lambda>c. c\<lparr>Growable := None\<rparr>) objects) sz = vSpacerSize padding objects sz"
  by (simp add: vSpacerSize_closed vExtra_fixed_sizes)
     (simp add: vSpacers_def filter_map comp_def isVerticalSpacer_def)

lemma hSpacerSize_fixed_sizes:
  "hSpacerSize padding (map (\<lambda>c. c\<lparr>Growable := None\<rparr>) objects) sz = hSpacerSize padding objects sz"
  by (simp add: hSpacerSize_closed hExtra_fixed_sizes)
     (simp add: hSpacers_def filter_map comp_def isHorizontalSpacer_def)

lemma vPerFactor_without_spacers:
  "vPerFactor padding (filter (\<lambda>c. \<not> isVerticalSpacer c) objects) sz = vPerFactor padding objects sz"
  by (simp add: vPerFactor_closed vExtra_closed)

lemma hPerFactor_without_spacers:
  "hPerFactor padding (filter (\<lambda>c. \<not> isHorizontalSpacer c) objects) sz = hPerFactor padding objects sz"
  by (simp add: hPerFactor_closed hExtra_closed)

subsection \<open>\<open>extra\<close> and \<open>MinSize\<close>\<close>

lemma vExtra_MinSize:
  assumes "vLaidOut objects \<noteq> []"
  shows "vExtra padding objects sz = Height sz - Height (vBoxLayout_MinSize padding objects)"
proof -
  have "real (length (vLaidOut objects) - 1) = real (length (vLaidOut objects)) - 1"
    using assms by (cases "vLaidOut objects") simp_all
  then show ?thesis by (simp add: vExtra_closed vMinSize_closed)
qed

lemma hExtra_MinSize:
  assumes "hLaidOut objects \<noteq> []"
  shows "hExtra padding objects sz = Width sz - Width (hBoxLayout_MinSize padding objects)"
proof -
  have "real (length (hLaidOut objects) - 1) = real (length (hLaidOut objects)) - 1"
    using assms by (cases "hLaidOut objects") simp_all
  then show ?thesis by (simp add: hExtra_closed hMinSize_closed)
qed

lemma vMinSize_nothing: "vLaidOut objects = [] \<Longrightarrow> Height (vBoxLayout_MinSize padding objects) = 0"
  by (simp add: vMinSize_closed)

lemma hMinSize_nothing: "hLaidOut objects = [] \<Longrightarrow> Width (hBoxLayout_MinSize padding objects) = 0"
  by (simp add: hMinSize_closed)

subsection \<open>Two growable children\<close>

lemma map_two:
  assumes "length xs = 2"
  shows "map f xs = [f (xs ! 0), f (xs ! 1)]"
proof -
  obtain x y where "xs = [x, y]"
    using assms by (metis (no_types) length_0_conv length_Suc_conv numeral_2_eq_2)
  then show ?thesis by simp
qed

lemma vLayout_two_growable:
  assumes "Visible a" and "Visible b" and "\<not> isVerticalSpacer a" and "\<not> isVerticalSpacer b"
    and "Growable a = Some 1" and "Growable b = Some 3"
    and "Height (MinSize a) = m" and "Height (MinSize b) = m" and "1 \<le> m"
  shows "map objSize (vBoxLayout_Layout padding [a, b] sz) =
           [NewSize (Width sz) (m + vExtra padding [a, b] sz / 4),
            NewSize (Width sz) (m + 3 * vExtra padding [a, b] sz / 4)]"
proof -
  have w: "growFactors (vTotals [a, b] sz) = 4 * m"
    using assms by (simp add: vTotals_closed vLaidOut_def vWeight_def max_def)
  have f: "vPerFactor padding [a, b] sz = vExtra padding [a, b] sz / (4 * m)"
    using assms(9) by (simp add: vPerFactor_def perFactorOf_def w)
  have m0: "m \<noteq> 0" using assms(9) by simp
  have "objSize (vBoxLayout_Layout padding [a, b] sz ! 0) =
          NewSize (Width sz) (m + vExtra padding [a, b] sz / 4)"
    using vLayout_growable_size [of 0 "[a, b]" 1 padding sz] assms m0 by (simp add: f)
  moreover have "objSize (vBoxLayout_Layout padding [a, b] sz ! 1) =
          NewSize (Width sz) (m + 3 * vExtra padding [a, b] sz / 4)"
    using vLayout_growable_size [of 1 "[a, b]" 3 padding sz] assms m0 by (simp add: f)
  moreover have "length (vBoxLayout_Layout padding [a, b] sz) = 2" by simp
  ultimately show ?thesis by (simp add: map_two)
qed


lemma hLayout_two_growable:
  assumes "Visible a" and "Visible b" and "\<not> isHorizontalSpacer a" and "\<not> isHorizontalSpacer b"
    and "Growable a = Some 1" and "Growable b = Some 3"
    and "Width (MinSize a) = m" and "Width (MinSize b) = m" and "1 \<le> m"
  shows "map objSize (hBoxLayout_Layout padding [a, b] sz) =
           [NewSize (m + hExtra padding [a, b] sz / 4) (Height sz),
            NewSize (m + 3 * hExtra padding [a, b] sz / 4) (Height sz)]"
proof -
  have w: "growFactors (hTotals [a, b] sz) = 4 * m"
    using assms by (simp add: hTotals_closed hLaidOut_def hWeight_def max_def)
  have f: "hPerFactor padding [a, b] sz = hExtra padding [a, b] sz / (4 * m)"
    using assms(9) by (simp add: hPerFactor_def perFactorOf_def w)
  have m0: "m \<noteq> 0" using assms(9) by simp
  have "objSize (hBoxLayout_Layout padding [a, b] sz ! 0) =
          NewSize (m + hExtra padding [a, b] sz / 4) (Height sz)"
    using hLayout_growable_size [of 0 "[a, b]" 1 padding sz] assms m0 by (simp add: f)
  moreover have "objSize (hBoxLayout_Layout padding [a, b] sz ! 1) =
          NewSize (m + 3 * hExtra padding [a, b] sz / 4) (Height sz)"
    using hLayout_growable_size [of 1 "[a, b]" 3 padding sz] assms m0 by (simp add: f)
  moreover have "length (hBoxLayout_Layout padding [a, b] sz) = 2" by simp
  ultimately show ?thesis by (simp add: map_two)
qed

lemma vExtra_filter_Visible: "vExtra padding (filter Visible objects) sz = vExtra padding objects sz"
  by (simp add: vExtra_closed)

lemma hExtra_filter_Visible: "hExtra padding (filter Visible objects) sz = hExtra padding objects sz"
  by (simp add: hExtra_closed)

subsection \<open>The sizes \<open>Layout\<close> hands out\<close>

lemma vLayout_laidOut_heights:
  "map (\<lambda>c. Height (objSize c)) (vLaidOut (vBoxLayout_Layout padding objects sz)) =
     map (\<lambda>c. Height (MinSize c) +
                (case Growable c of None \<Rightarrow> 0
                 | Some g \<Rightarrow> vPerFactor padding objects sz * g * Height (MinSize c)))
       (vLaidOut objects)"
proof -
  let ?P = "\<lambda>c. Visible c \<and> \<not> isVerticalSpacer c"
  let ?m = "\<lambda>c. snd (vMeasureStep sz noTotals c)"
  let ?f = "vPerFactor padding objects sz"
  let ?g = "\<lambda>c. Height (objSize (snd (vPlaceStep sz padding ?f 0 (0, 0) c)))"
  have l: "map (\<lambda>c. Height (objSize c)) (filter ?P (vBoxLayout_Layout padding objects sz)) =
             map ?g (filter ?P (map ?m objects))"
    unfolding vLayout_loops
    by (rule forEach_filter_map)
       (simp_all add: vPlaceStep_objSize [of _ _ _ "vSpacerSize padding objects sz"])
  have "map ?g (filter ?P (map ?m objects)) = map (\<lambda>c. ?g (?m c)) (filter ?P objects)"
    by (simp add: filter_map comp_def)
  also have "\<dots> = map (\<lambda>c. Height (MinSize c) +
                (case Growable c of None \<Rightarrow> 0 | Some g \<Rightarrow> ?f * g * Height (MinSize c)))
       (filter ?P objects)"
    by (rule map_cong)
       (auto simp add: vMeasureStep_snd vPlaceStep_def Let_def split: option.splits)
  finally show ?thesis using l by (simp add: vLaidOut_def)
qed

lemma hLayout_laidOut_widths:
  "map (\<lambda>c. Width (objSize c)) (hLaidOut (hBoxLayout_Layout padding objects sz)) =
     map (\<lambda>c. Width (MinSize c) +
                (case Growable c of None \<Rightarrow> 0
                 | Some g \<Rightarrow> hPerFactor padding objects sz * g * Width (MinSize c)))
       (hLaidOut objects)"
proof -
  let ?P = "\<lambda>c. Visible c \<and> \<not> isHorizontalSpacer c"
  let ?m = "\<lambda>c. snd (hMeasureStep sz noTotals c)"
  let ?f = "hPerFactor padding objects sz"
  let ?g = "\<lambda>c. Width (objSize (snd (hPlaceStep sz padding ?f 0 (0, 0) c)))"
  have l: "map (\<lambda>c. Width (objSize c)) (filter ?P (hBoxLayout_Layout padding objects sz)) =
             map ?g (filter ?P (map ?m objects))"
    unfolding hLayout_loops
    by (rule forEach_filter_map)
       (simp_all add: hPlaceStep_objSize [of _ _ _ "hSpacerSize padding objects sz"])
  have "map ?g (filter ?P (map ?m objects)) = map (\<lambda>c. ?g (?m c)) (filter ?P objects)"
    by (simp add: filter_map comp_def)
  also have "\<dots> = map (\<lambda>c. Width (MinSize c) +
                (case Growable c of None \<Rightarrow> 0 | Some g \<Rightarrow> ?f * g * Width (MinSize c)))
       (filter ?P objects)"
    by (rule map_cong)
       (auto simp add: hMeasureStep_snd hPlaceStep_def Let_def split: option.splits)
  finally show ?thesis using l by (simp add: hLaidOut_def)
qed

lemma sum_list_shares:
  fixes f :: real
  assumes "\<forall>c \<in> set cs. \<forall>g. Growable c = Some g \<longrightarrow> 1 \<le> h c"
  shows "sum_list (map (\<lambda>c. h c + (case Growable c of None \<Rightarrow> 0 | Some g \<Rightarrow> f * g * h c)) cs) =
           sum_list (map h cs) +
           f * sum_list (map (\<lambda>c. case Growable c of None \<Rightarrow> 0 | Some g \<Rightarrow> g * max (h c) 1) cs)"
  using assms
  by (induction cs) (auto simp add: algebra_simps max_def split: option.splits)

text \<open>
  When every growable child that is laid out has a minimum of at least 1 and the weights
  are positive, the final main-axis sizes and the paddings add up to the container.
\<close>

lemma vLayout_fills_container:
  assumes "\<forall>c \<in> set (vLaidOut objects). \<forall>g. Growable c = Some g \<longrightarrow> 1 \<le> Height (MinSize c)"
    and "0 < growFactors (vTotals objects sz)"
  shows "sum_list (map (\<lambda>c. Height (objSize c)) (vLaidOut (vBoxLayout_Layout padding objects sz)))
           + padding * (real (length (vLaidOut objects)) - 1) = Height sz"
proof -
  let ?W = "sum_list (map vWeight (vLaidOut objects))"
  have w: "0 < ?W" using assms(2) by (simp add: vTotals_closed)
  have f: "vPerFactor padding objects sz * ?W = vExtra padding objects sz"
    using w by (simp add: vPerFactor_closed)
  have "sum_list (map (\<lambda>c. Height (objSize c)) (vLaidOut (vBoxLayout_Layout padding objects sz))) =
      sum_list (map (\<lambda>c. Height (MinSize c)) (vLaidOut objects)) + vPerFactor padding objects sz * ?W"
    unfolding vLayout_laidOut_heights
    using sum_list_shares [OF assms(1), of "vPerFactor padding objects sz"]
    by (simp add: vWeight_def [abs_def])
  then show ?thesis unfolding f by (simp add: vExtra_closed)
qed

lemma hLayout_fills_container:
  assumes "\<forall>c \<in> set (hLaidOut objects). \<forall>g. Growable c = Some g \<longrightarrow> 1 \<le> Width (MinSize c)"
    and "0 < growFactors (hTotals objects sz)"
  shows "sum_list (map (\<lambda>c. Width (objSize c)) (hLaidOut (hBoxLayout_Layout padding objects sz)))
           + padding * (real (length (hLaidOut objects)) - 1) = Width sz"
proof -
  let ?W = "sum_list (map hWeight (hLaidOut objects))"
  have w: "0 < ?W" using assms(2) by (simp add: hTotals_closed)
  have f: "hPerFactor padding objects sz * ?W = hExtra padding objects sz"
    using w by (simp add: hPerFactor_closed)
  have "sum_list (map (\<lambda>c. Width (objSize c)) (hLaidOut (hBoxLayout_Layout padding objects sz))) =
      sum_list (map (\<lambda>c. Width (MinSize c)) (hLaidOut objects)) + hPerFactor padding objects sz * ?W"
    unfolding hLayout_laidOut_widths
    using sum_list_shares [OF assms(1), of "hPerFactor padding objects sz"]
    by (simp add: hWeight_def [abs_def])
  then show ?thesis unfolding f by (simp add: hExtra_closed)
qed

subsection \<open>The two scenarios of the specification\<close>

text \<open>
  Vertical box, container \<open>(100, 210)\<close>, padding 5, three ordinary children of minimum
  heights 20, 30 and 40: positions \<open>(0, 0)\<close>, \<open>(0, 25)\<close>, \<open>(0, 60)\<close>, heights unchanged,
  and \<open>extra = 110\<close> stays unused.
\<close>

lemma scenario_vertical:
  "map objPos (vBoxLayout_Layout 5 [widget 10 20, widget 10 30, widget 10 40] (NewSize 100 210)) =
     [NewPos 0 0, NewPos 0 25, NewPos 0 60] \<and>
   map objSize (vBoxLayout_Layout 5 [widget 10 20, widget 10 30, widget 10 40] (NewSize 100 210)) =
     [NewSize 100 20, NewSize 100 30, NewSize 100 40] \<and>
   vExtra 5 [widget 10 20, widget 10 30, widget 10 40] (NewSize 100 210) = 110"
  by (simp add: layout_defs object_defs)

text \<open>
  Horizontal box, container width 100, padding 5, a spacer between two ordinary
  children of widths 10 and 20: \<open>extra = 65\<close>, and the second child is placed at
  \<open>x = 10 + 5 + 65 = 80\<close>.
\<close>

lemma scenario_horizontal:
  "hExtra 5 [widget 10 8, spacerObj, widget 20 8] (NewSize 100 50) = 65 \<and>
   map objPos (hBoxLayout_Layout 5 [widget 10 8, spacerObj, widget 20 8] (NewSize 100 50)) =
     [NewPos 0 0, NewPos 7 7, NewPos 80 0]"
  by (simp add: layout_defs object_defs)

subsection \<open>Where \<open>Layout\<close> puts each child and how large it makes it\<close>

lemma forEach_take:
  "take i (snd (forEach body s xs)) = snd (forEach body s (take i xs))"
proof (induction xs arbitrary: s i)
  case Nil
  show ?case by simp
next
  case (Cons c cs)
  show ?case
    by (cases i) (simp_all add: forEach_Cons_snd Cons.IH del: forEach.simps(2))
qed

lemma forEach_nth:
  "i < length xs \<Longrightarrow>
     snd (forEach body s xs) ! i = snd (body (fst (forEach body s (take i xs))) (xs ! i))"
proof (induction xs arbitrary: s i)
  case Nil
  then show ?case by simp
next
  case (Cons c cs)
  show ?case
  proof (cases i)
    case 0
    then show ?thesis by (simp add: forEach_Cons_snd del: forEach.simps(2))
  next
    case (Suc j)
    then have "j < length cs" using Cons.prems by simp
    then show ?thesis
      using Suc Cons.IH [of j "fst (body s c)"]
      by (simp add: forEach_Cons_snd forEach_Cons_fst del: forEach.simps(2))
  qed
qed

lemma vPlace_cursor:
  "fst (forEach (vPlaceStep sz padding f k) (x, y) cs) =
     (x, y + real (length (vSpacers cs)) * k +
         sum_list (map (\<lambda>c. padding + (Height (MinSize c) +
            (case Growable c of None \<Rightarrow> 0 | Some g \<Rightarrow> f * g * Height (MinSize c))))
           (vLaidOut cs)))"
proof (induction cs arbitrary: y)
  case Nil
  show ?case by (simp add: vSpacers_def vLaidOut_def)
next
  case (Cons c cs)
  have step: "fst (vPlaceStep sz padding f k (x, y) c) =
      (x, y + (if \<not> Visible c then 0 else if isVerticalSpacer c then k
               else padding + (Height (MinSize c) +
                 (case Growable c of None \<Rightarrow> 0 | Some g \<Rightarrow> f * g * Height (MinSize c)))))"
    by (simp add: vPlaceStep_def Let_def split: option.splits)
  show ?case
    by (simp add: forEach_Cons_fst step Cons.IH vSpacers_def vLaidOut_def algebra_simps
          del: forEach.simps(2))
qed

lemma hPlace_cursor:
  "fst (forEach (hPlaceStep sz padding f k) (x, y) cs) =
     (x + real (length (hSpacers cs)) * k +
         sum_list (map (\<lambda>c. padding + (Width (MinSize c) +
            (case Growable c of None \<Rightarrow> 0 | Some g \<Rightarrow> f * g * Width (MinSize c))))
           (hLaidOut cs)), y)"
proof (induction cs arbitrary: x)
  case Nil
  show ?case by (simp add: hSpacers_def hLaidOut_def)
next
  case (Cons c cs)
  have step: "fst (hPlaceStep sz padding f k (x, y) c) =
      (x + (if \<not> Visible c then 0 else if isHorizontalSpacer c then k
               else padding + (Width (MinSize c) +
                 (case Growable c of None \<Rightarrow> 0 | Some g \<Rightarrow> f * g * Width (MinSize c)))), y)"
    by (simp add: hPlaceStep_def Let_def split: option.splits)
  show ?case
    by (simp add: forEach_Cons_fst step Cons.IH hSpacers_def hLaidOut_def algebra_simps
          del: forEach.simps(2))
qed

lemma vPlaced_heights:
  "map (\<lambda>c. Height (objSize c))
       (vLaidOut (snd (forEach (vPlaceStep sz padding f k) cur
          (map (\<lambda>c. snd (vMeasureStep sz noTotals c)) cs)))) =
     map (\<lambda>c. Height (MinSize c) +
                (case Growable c of None \<Rightarrow> 0 | Some g \<Rightarrow> f * g * Height (MinSize c)))
       (vLaidOut cs)"
proof -
  let ?P = "\<lambda>c. Visible c \<and> \<not> isVerticalSpacer c"
  let ?m = "\<lambda>c. snd (vMeasureStep sz noTotals c)"
  let ?g = "\<lambda>c. Height (objSize (snd (vPlaceStep sz padding f 0 (0, 0) c)))"
  have l: "map (\<lambda>c. Height (objSize c))
        (filter ?P (snd (forEach (vPlaceStep sz padding f k) cur (map ?m cs)))) =
      map ?g (filter ?P (map ?m cs))"
    by (rule forEach_filter_map) (simp_all add: vPlaceStep_objSize [of _ _ _ k])
  have "map ?g (filter ?P (map ?m cs)) = map (\<lambda>c. ?g (?m c)) (filter ?P cs)"
    by (simp add: filter_map comp_def)
  also have "\<dots> = map (\<lambda>c. Height (MinSize c) +
                (case Growable c of None \<Rightarrow> 0 | Some g \<Rightarrow> f * g * Height (MinSize c)))
       (filter ?P cs)"
    by (rule map_cong)
       (auto simp add: vMeasureStep_snd vPlaceStep_def Let_def split: option.splits)
  finally show ?thesis using l by (simp add: vLaidOut_def)
qed

lemma hPlaced_widths:
  "map (\<lambda>c. Width (objSize c))
       (hLaidOut (snd (forEach (hPlaceStep sz padding f k) cur
          (map (\<lambda>c. snd (hMeasureStep sz noTotals c)) cs)))) =
     map (\<lambda>c. Width (MinSize c) +
                (case Growable c of None \<Rightarrow> 0 | Some g \<Rightarrow> f * g * Width (MinSize c)))
       (hLaidOut cs)"
proof -
  let ?P = "\<lambda>c. Visible c \<and> \<not> isHorizontalSpacer c"
  let ?m = "\<lambda>c. snd (hMeasureStep sz noTotals c)"
  let ?g = "\<lambda>c. Width (objSize (snd (hPlaceStep sz padding f 0 (0, 0) c)))"
  have l: "map (\<lambda>c. Width (objSize c))
        (filter ?P (snd (forEach (hPlaceStep sz padding f k) cur (map ?m cs)))) =
      map ?g (filter ?P (map ?m cs))"
    by (rule forEach_filter_map) (simp_all add: hPlaceStep_objSize [of _ _ _ k])
  have "map ?g (filter ?P (map ?m cs)) = map (\<lambda>c. ?g (?m c)) (filter ?P cs)"
    by (simp add: filter_map comp_def)
  also have "\<dots> = map (\<lambda>c. Width (MinSize c) +
                (case Growable c of None \<Rightarrow> 0 | Some g \<Rightarrow> f * g * Width (MinSize c)))
       (filter ?P cs)"
    by (rule map_cong)
       (auto simp add: hMeasureStep_snd hPlaceStep_def Let_def split: option.splits)
  finally show ?thesis using l by (simp add: hLaidOut_def)
qed

lemma vMeasureStep_keeps [simp]:
  "MinSize (snd (vMeasureStep sz t c)) = MinSize c"
  "Growable (snd (vMeasureStep sz t c)) = Growable c"
  by (simp_all add: vMeasureStep_snd)

lemma hMeasureStep_keeps [simp]:
  "MinSize (snd (hMeasureStep sz t c)) = MinSize c"
  "Growable (snd (hMeasureStep sz t c)) = Growable c"
  by (simp_all add: hMeasureStep_snd)

lemma vMeasured_counts:
  "length (vSpacers (map (\<lambda>c. snd (vMeasureStep sz noTotals c)) cs)) = length (vSpacers cs)"
  "map (\<lambda>c. padding + (Height (MinSize c) +
            (case Growable c of None \<Rightarrow> 0 | Some g \<Rightarrow> f * g * Height (MinSize c))))
       (vLaidOut (map (\<lambda>c. snd (vMeasureStep sz noTotals c)) cs)) =
   map (\<lambda>c. padding + (Height (MinSize c) +
            (case Growable c of None \<Rightarrow> 0 | Some g \<Rightarrow> f * g * Height (MinSize c))))
       (vLaidOut cs)"
  by (simp_all add: vSpacers_def vLaidOut_def filter_map comp_def split: option.splits)

lemma hMeasured_counts:
  "length (hSpacers (map (\<lambda>c. snd (hMeasureStep sz noTotals c)) cs)) = length (hSpacers cs)"
  "map (\<lambda>c. padding + (Width (MinSize c) +
            (case Growable c of None \<Rightarrow> 0 | Some g \<Rightarrow> f * g * Width (MinSize c))))
       (hLaidOut (map (\<lambda>c. snd (hMeasureStep sz noTotals c)) cs)) =
   map (\<lambda>c. padding + (Width (MinSize c) +
            (case Growable c of None \<Rightarrow> 0 | Some g \<Rightarrow> f * g * Width (MinSize c))))
       (hLaidOut cs)"
  by (simp_all add: hSpacers_def hLaidOut_def filter_map comp_def split: option.splits)

lemma vLayout_position:
  assumes "i < length objects" and "Visible (objects ! i)" and "\<not> isVerticalSpacer (objects ! i)"
  shows "objPos (vBoxLayout_Layout padding objects sz ! i) =
           NewPos 0
             (real (length (vSpacers (take i objects))) * vSpacerSize padding objects sz +
              sum_list (map (\<lambda>c. padding + Height (objSize c))
                (vLaidOut (take i (vBoxLayout_Layout padding objects sz)))))"
proof -
  let ?m = "\<lambda>c. snd (vMeasureStep sz noTotals c)"
  let ?f = "vPerFactor padding objects sz"
  let ?k = "vSpacerSize padding objects sz"
  let ?body = "vPlaceStep sz padding ?f ?k"
  let ?fh = "\<lambda>c. Height (MinSize c) +
                (case Growable c of None \<Rightarrow> 0 | Some g \<Rightarrow> ?f * g * Height (MinSize c))"
  have i: "i < length (map ?m objects)" using assms(1) by simp
  have c: "Visible (?m (objects ! i)) \<and> \<not> isVerticalSpacer (?m (objects ! i))"
    using assms by simp
  have cur: "fst (forEach ?body (0, 0) (take i (map ?m objects))) =
      (0, real (length (vSpacers (take i objects))) * ?k +
          sum_list (map (\<lambda>c. padding + ?fh c) (vLaidOut (take i objects))))"
    by (simp add: vPlace_cursor take_map vMeasured_counts)
  have pos: "objPos (snd (?body (x, y) c)) = NewPos x y"
    if "Visible c \<and> \<not> isVerticalSpacer c" for x y c
    using that by (simp add: vPlaceStep_def Let_def split: option.splits)
  have h: "map (\<lambda>c. Height (objSize c)) (vLaidOut (take i (vBoxLayout_Layout padding objects sz))) =
      map ?fh (vLaidOut (take i objects))"
    by (simp add: vLayout_loops forEach_take take_map vPlaced_heights)
  have "sum_list (map (\<lambda>c. padding + Height (objSize c))
          (vLaidOut (take i (vBoxLayout_Layout padding objects sz)))) =
        sum_list (map (\<lambda>h. padding + h)
          (map (\<lambda>c. Height (objSize c)) (vLaidOut (take i (vBoxLayout_Layout padding objects sz)))))"
    by (simp add: comp_def)
  also have "\<dots> = sum_list (map (\<lambda>c. padding + ?fh c) (vLaidOut (take i objects)))"
    unfolding h by (simp add: comp_def)
  finally have s: "sum_list (map (\<lambda>c. padding + Height (objSize c))
          (vLaidOut (take i (vBoxLayout_Layout padding objects sz)))) =
        sum_list (map (\<lambda>c. padding + ?fh c) (vLaidOut (take i objects)))" .
  have "vBoxLayout_Layout padding objects sz ! i =
      snd (?body (fst (forEach ?body (0, 0) (take i (map ?m objects)))) (map ?m objects ! i))"
    unfolding vLayout_loops using i by (rule forEach_nth)
  then show ?thesis
    unfolding cur s using pos [OF c] assms(1) by simp
qed

lemma hLayout_position:
  assumes "i < length objects" and "Visible (objects ! i)" and "\<not> isHorizontalSpacer (objects ! i)"
  shows "objPos (hBoxLayout_Layout padding objects sz ! i) =
           NewPos
             (real (length (hSpacers (take i objects))) * hSpacerSize padding objects sz +
              sum_list (map (\<lambda>c. padding + Width (objSize c))
                (hLaidOut (take i (hBoxLayout_Layout padding objects sz)))))
             0"
proof -
  let ?m = "\<lambda>c. snd (hMeasureStep sz noTotals c)"
  let ?f = "hPerFactor padding objects sz"
  let ?k = "hSpacerSize padding objects sz"
  let ?body = "hPlaceStep sz padding ?f ?k"
  let ?fh = "\<lambda>c. Width (MinSize c) +
                (case Growable c of None \<Rightarrow> 0 | Some g \<Rightarrow> ?f * g * Width (MinSize c))"
  have i: "i < length (map ?m objects)" using assms(1) by simp
  have c: "Visible (?m (objects ! i)) \<and> \<not> isHorizontalSpacer (?m (objects ! i))"
    using assms by simp
  have cur: "fst (forEach ?body (0, 0) (take i (map ?m objects))) =
      (real (length (hSpacers (take i objects))) * ?k +
          sum_list (map (\<lambda>c. padding + ?fh c) (hLaidOut (take i objects))), 0)"
    by (simp add: hPlace_cursor take_map hMeasured_counts)
  have pos: "objPos (snd (?body (x, y) c)) = NewPos x y"
    if "Visible c \<and> \<not> isHorizontalSpacer c" for x y c
    using that by (simp add: hPlaceStep_def Let_def split: option.splits)
  have h: "map (\<lambda>c. Width (objSize c)) (hLaidOut (take i (hBoxLayout_Layout padding objects sz))) =
      map ?fh (hLaidOut (take i objects))"
    by (simp add: hLayout_loops forEach_take take_map hPlaced_widths)
  have "sum_list (map (\<lambda>c. padding + Width (objSize c))
          (hLaidOut (take i (hBoxLayout_Layout padding objects sz)))) =
        sum_list (map (\<lambda>h. padding + h)
          (map (\<lambda>c. Width (objSize c)) (hLaidOut (take i (hBoxLayout_Layout padding objects sz)))))"
    by (simp add: comp_def)
  also have "\<dots> = sum_list (map (\<lambda>c. padding + ?fh c) (hLaidOut (take i objects)))"
    unfolding h by (simp add: comp_def)
  finally have s: "sum_list (map (\<lambda>c. padding + Width (objSize c))
          (hLaidOut (take i (hBoxLayout_Layout padding objects sz)))) =
        sum_list (map (\<lambda>c. padding + ?fh c) (hLaidOut (take i objects)))" .
  have "hBoxLayout_Layout padding objects sz ! i =
      snd (?body (fst (forEach ?body (0, 0) (take i (map ?m objects)))) (map ?m objects ! i))"
    unfolding hLayout_loops using i by (rule forEach_nth)
  then show ?thesis
    unfolding cur s using pos [OF c] assms(1) by simp
qed

lemma vLayout_size:
  assumes "i < length objects" and "Visible (objects ! i)" and "\<not> isVerticalSpacer (objects ! i)"
  shows "objSize (vBoxLayout_Layout padding objects sz ! i) =
           NewSize (Width sz)
             (Height (MinSize (objects ! i)) +
              (case Growable (objects ! i) of None \<Rightarrow> 0
               | Some g \<Rightarrow> vPerFactor padding objects sz * g * Height (MinSize (objects ! i))))"
proof (cases "Growable (objects ! i)")
  case (Some g)
  then show ?thesis using vLayout_growable_size [OF assms, of g padding sz] by simp
next
  case None
  let ?m = "map (\<lambda>c. snd (vMeasureStep sz noTotals c)) objects"
  let ?P = "\<lambda>c c'. Visible c \<and> \<not> isVerticalSpacer c \<and> Growable c = None \<longrightarrow> objSize c' = objSize c"
  have i: "i < length ?m" using assms(1) by simp
  have "?P (?m ! i) (snd (forEach (vPlaceStep sz padding f k) (0, 0) ?m) ! i)" for f k
    using i
    by (rule forEach_nth_rel [where P = ?P, rotated])
       (auto simp add: vPlaceStep_def Let_def split: prod.splits)
  then show ?thesis using assms None by (simp add: vLayout_loops vMeasureStep_snd)
qed

lemma hLayout_size:
  assumes "i < length objects" and "Visible (objects ! i)" and "\<not> isHorizontalSpacer (objects ! i)"
  shows "objSize (hBoxLayout_Layout padding objects sz ! i) =
           NewSize
             (Width (MinSize (objects ! i)) +
              (case Growable (objects ! i) of None \<Rightarrow> 0
               | Some g \<Rightarrow> hPerFactor padding objects sz * g * Width (MinSize (objects ! i))))
             (Height sz)"
proof (cases "Growable (objects ! i)")
  case (Some g)
  then show ?thesis using hLayout_growable_size [OF assms, of g padding sz] by simp
next
  case None
  let ?m = "map (\<lambda>c. snd (hMeasureStep sz noTotals c)) objects"
  let ?P = "\<lambda>c c'. Visible c \<and> \<not> isHorizontalSpacer c \<and> Growable c = None \<longrightarrow> objSize c' = objSize c"
  have i: "i < length ?m" using assms(1) by simp
  have "?P (?m ! i) (snd (forEach (hPlaceStep sz padding f k) (0, 0) ?m) ! i)" for f k
    using i
    by (rule forEach_nth_rel [where P = ?P, rotated])
       (auto simp add: hPlaceStep_def Let_def split: prod.splits)
  then show ?thesis using assms None by (simp add: hLayout_loops hMeasureStep_snd)
qed

lemma vSpacers_take_empty: "vSpacers objects = [] \<Longrightarrow> vSpacers (take i objects) = []"
  by (auto simp add: vSpacers_def filter_empty_conv dest: in_set_takeD)

lemma hSpacers_take_empty: "hSpacers objects = [] \<Longrightarrow> hSpacers (take i objects) = []"
  by (auto simp add: hSpacers_def filter_empty_conv dest: in_set_takeD)

lemma vLayout_position_extra:
  assumes "i < length objects" and "Visible (objects ! i)" and "\<not> isVerticalSpacer (objects ! i)"
  shows "objPos (vBoxLayout_Layout padding objects sz ! i) =
           NewPos 0
             (real (length (vSpacers (take i objects))) *
                (vExtra padding objects sz / real (length (vSpacers objects))) +
              sum_list (map (\<lambda>c. padding + Height (objSize c))
                (vLaidOut (take i (vBoxLayout_Layout padding objects sz)))))"
  using vLayout_position [OF assms, of padding sz]
  by (simp add: vSpacerSize_closed vSpacers_take_empty)

lemma hLayout_position_extra:
  assumes "i < length objects" and "Visible (objects ! i)" and "\<not> isHorizontalSpacer (objects ! i)"
  shows "objPos (hBoxLayout_Layout padding objects sz ! i) =
           NewPos
             (real (length (hSpacers (take i objects))) *
                (hExtra padding objects sz / real (length (hSpacers objects))) +
              sum_list (map (\<lambda>c. padding + Width (objSize c))
                (hLaidOut (take i (hBoxLayout_Layout padding objects sz)))))
             0"
  using hLayout_position [OF assms, of padding sz]
  by (simp add: hSpacerSize_closed hSpacers_take_empty)

lemma vLayout_keeps:
  assumes "i < length objects"
  shows "Visible (vBoxLayout_Layout padding objects sz ! i) = Visible (objects ! i) \<and>
         isVerticalSpacer (vBoxLayout_Layout padding objects sz ! i) = isVerticalSpacer (objects ! i)"
proof -
  let ?m = "map (\<lambda>c. snd (vMeasureStep sz noTotals c)) objects"
  let ?P = "\<lambda>c c'. Visible c' = Visible c \<and> isVerticalSpacer c' = isVerticalSpacer c"
  have i: "i < length ?m" using assms by simp
  have "?P (?m ! i) (snd (forEach (vPlaceStep sz padding f k) (0, 0) ?m) ! i)" for f k
    using i by (rule forEach_nth_rel [where P = ?P, rotated]) simp
  then show ?thesis using assms by (simp add: vLayout_loops)
qed

lemma hLayout_keeps:
  assumes "i < length objects"
  shows "Visible (hBoxLayout_Layout padding objects sz ! i) = Visible (objects ! i) \<and>
         isHorizontalSpacer (hBoxLayout_Layout padding objects sz ! i) = isHorizontalSpacer (objects ! i)"
proof -
  let ?m = "map (\<lambda>c. snd (hMeasureStep sz noTotals c)) objects"
  let ?P = "\<lambda>c c'. Visible c' = Visible c \<and> isHorizontalSpacer c' = isHorizontalSpacer c"
  have i: "i < length ?m" using assms by simp
  have "?P (?m ! i) (snd (forEach (hPlaceStep sz padding f k) (0, 0) ?m) ! i)" for f k
    using i by (rule forEach_nth_rel [where P = ?P, rotated]) simp
  then show ?thesis using assms by (simp add: hLayout_loops)
qed

lemma vLayout_laid_out_child:
  assumes "i < length objects" and "Visible (objects ! i)" and "\<not> isVerticalSpacer (objects ! i)"
  shows "objects ! i \<in> set (vLaidOut objects) \<and>
         objSize (vBoxLayout_Layout padding objects sz ! i) =
           NewSize (Width sz)
             (Height (MinSize (objects ! i)) +
              (case Growable (objects ! i) of None \<Rightarrow> 0
               | Some g \<Rightarrow> vPerFactor padding objects sz * g * Height (MinSize (objects ! i)))) \<and>
         objPos (vBoxLayout_Layout padding objects sz ! i) =
           NewPos 0
             (real (length (vSpacers (take i objects))) * vSpacerSize padding objects sz +
              sum_list (map (\<lambda>c. padding + Height (objSize c))
                (vLaidOut (take i (vBoxLayout_Layout padding objects sz))))) \<and>
         vBoxLayout_Layout padding objects sz ! i \<in>
           set (vLaidOut (take (Suc i) (vBoxLayout_Layout padding objects sz)))"
proof -
  let ?L = "vBoxLayout_Layout padding objects sz"
  have "objects ! i \<in> set (vLaidOut objects)"
    using assms by (simp add: vLaidOut_def)
  moreover have "?L ! i \<in> set (take (Suc i) ?L)"
    using assms(1) by (simp add: take_Suc_conv_app_nth)
  then have "?L ! i \<in> set (vLaidOut (take (Suc i) ?L))"
    using assms vLayout_keeps [OF assms(1), of padding sz] by (simp add: vLaidOut_def)
  ultimately show ?thesis
    using vLayout_size [OF assms, of padding sz] vLayout_position [OF assms, of padding sz]
    by simp
qed

lemma hLayout_laid_out_child:
  assumes "i < length objects" and "Visible (objects ! i)" and "\<not> isHorizontalSpacer (objects ! i)"
  shows "objects ! i \<in> set (hLaidOut objects) \<and>
         objSize (hBoxLayout_Layout padding objects sz ! i) =
           NewSize
             (Width (MinSize (objects ! i)) +
              (case Growable (objects ! i) of None \<Rightarrow> 0
               | Some g \<Rightarrow> hPerFactor padding objects sz * g * Width (MinSize (objects ! i))))
             (Height sz) \<and>
         objPos (hBoxLayout_Layout padding objects sz ! i) =
           NewPos
             (real (length (hSpacers (take i objects))) * hSpacerSize padding objects sz +
              sum_list (map (\<lambda>c. padding + Width (objSize c))
                (hLaidOut (take i (hBoxLayout_Layout padding objects sz)))))
             0 \<and>
         hBoxLayout_Layout padding objects sz ! i \<in>
           set (hLaidOut (take (Suc i) (hBoxLayout_Layout padding objects sz)))"
proof -
  let ?L = "hBoxLayout_Layout padding objects sz"
  have "objects ! i \<in> set (hLaidOut objects)"
    using assms by (simp add: hLaidOut_def)
  moreover have "?L ! i \<in> set (take (Suc i) ?L)"
    using assms(1) by (simp add: take_Suc_conv_app_nth)
  then have "?L ! i \<in> set (hLaidOut (take (Suc i) ?L))"
    using assms hLayout_keeps [OF assms(1), of padding sz] by (simp add: hLaidOut_def)
  ultimately show ?thesis
    using hLayout_size [OF assms, of padding sz] hLayout_position [OF assms, of padding sz]
    by simp
qed

subsection \<open>Two growable children, any minimum\<close>

lemma vLayout_two_growable_as_coded:
  assumes "Visible a" and "Visible b" and "\<not> isVerticalSpacer a" and "\<not> isVerticalSpacer b"
    and "Growable a = Some 1" and "Growable b = Some 3"
    and "Height (MinSize a) = m" and "Height (MinSize b) = m"
  shows "growFactors (vTotals [a, b] sz) = 4 * max m 1 \<and>
         map objSize (vBoxLayout_Layout padding [a, b] sz) =
           [NewSize (Width sz) (m + vExtra padding [a, b] sz / (4 * max m 1) * 1 * m),
            NewSize (Width sz) (m + vExtra padding [a, b] sz / (4 * max m 1) * 3 * m)]"
proof -
  have w: "growFactors (vTotals [a, b] sz) = 4 * max m 1"
    using assms by (simp add: vTotals_closed vLaidOut_def vWeight_def)
  have "0 < 4 * max m 1" by (simp add: max_def)
  then have f: "vPerFactor padding [a, b] sz = vExtra padding [a, b] sz / (4 * max m 1)"
    by (simp add: vPerFactor_def perFactorOf_def w)
  have "objSize (vBoxLayout_Layout padding [a, b] sz ! 0) =
          NewSize (Width sz) (m + vExtra padding [a, b] sz / (4 * max m 1) * 1 * m)"
    using vLayout_growable_size [of 0 "[a, b]" 1 padding sz] assms by (simp add: f)
  moreover have "objSize (vBoxLayout_Layout padding [a, b] sz ! 1) =
          NewSize (Width sz) (m + vExtra padding [a, b] sz / (4 * max m 1) * 3 * m)"
    using vLayout_growable_size [of 1 "[a, b]" 3 padding sz] assms by (simp add: f)
  moreover have "length (vBoxLayout_Layout padding [a, b] sz) = 2" by simp
  ultimately show ?thesis using w by (simp add: map_two)
qed

lemma hLayout_two_growable_as_coded:
  assumes "Visible a" and "Visible b" and "\<not> isHorizontalSpacer a" and "\<not> isHorizontalSpacer b"
    and "Growable a = Some 1" and "Growable b = Some 3"
    and "Width (MinSize a) = m" and "Width (MinSize b) = m"
  shows "growFactors (hTotals [a, b] sz) = 4 * max m 1 \<and>
         map objSize (hBoxLayout_Layout padding [a, b] sz) =
           [NewSize (m + hExtra padding [a, b] sz / (4 * max m 1) * 1 * m) (Height sz),
            NewSize (m + hExtra padding [a, b] sz / (4 * max m 1) * 3 * m) (Height sz)]"
proof -
  have w: "growFactors (hTotals [a, b] sz) = 4 * max m 1"
    using assms by (simp add: hTotals_closed hLaidOut_def hWeight_def)
  have "0 < 4 * max m 1" by (simp add: max_def)
  then have f: "hPerFactor padding [a, b] sz = hExtra padding [a, b] sz / (4 * max m 1)"
    by (simp add: hPerFactor_def perFactorOf_def w)
  have "objSize (hBoxLayout_Layout padding [a, b] sz ! 0) =
          NewSize (m + hExtra padding [a, b] sz / (4 * max m 1) * 1 * m) (Height sz)"
    using hLayout_growable_size [of 0 "[a, b]" 1 padding sz] assms by (simp add: f)
  moreover have "objSize (hBoxLayout_Layout padding [a, b] sz ! 1) =
          NewSize (m + hExtra padding [a, b] sz / (4 * max m 1) * 3 * m) (Height sz)"
    using hLayout_growable_size [of 1 "[a, b]" 3 padding sz] assms by (simp add: f)
  moreover have "length (hBoxLayout_Layout padding [a, b] sz) = 2" by simp
  ultimately show ?thesis using w by (simp add: map_two)
qed

lemma vTotals_filter_Visible: "vTotals (filter Visible objects) sz = vTotals objects sz"
  by (simp add: vTotals_closed)

lemma hTotals_filter_Visible: "hTotals (filter Visible objects) sz = hTotals objects sz"
  by (simp add: hTotals_closed)

section \<open>The claims\<close>

subsection \<open>C1: grow factors 1 and 3\<close>

text \<open>
  C1. What \<open>Layout\<close> does when its visible children are exactly two growable children
  \<open>a\<close> and \<open>b\<close>, in this order, neither a spacer along the main axis, with grow factors
  1 and 3 and the same minimum main-axis size \<open>m\<close> (invisible children may stand anywhere
  in the slice). \<open>extra\<close> is the container's main-axis size minus \<open>2 m\<close> minus one
  padding; the first loop leaves \<open>growFactors = 4 * max m 1\<close>; \<open>a\<close> ends with main-axis
  size \<open>m + extra / (4 * max m 1) * 1 * m\<close> and \<open>b\<close> with
  \<open>m + extra / (4 * max m 1) * 3 * m\<close>, both with the container's cross-axis size.
  For \<open>1 \<le> m\<close> the two receive \<open>extra / 4\<close> and \<open>3 extra / 4\<close>, as the claim says. For
  \<open>m < 1\<close> they receive \<open>extra / 4 * m\<close> and \<open>3 extra / 4 * m\<close>: there the claim does not
  hold of the code, and part of \<open>extra\<close> goes to no child, because the first loop
  weighs with the minimum floored at 1 (lines 81-84, 182-185) and the second loop
  multiplies by the minimum itself (lines 119, 220). Stated for both layouts.

  The instance below is \<open>m = 1/2\<close>, padding 0, container height 9: \<open>extra = 8\<close>, the
  children receive 1 and 3, not 2 and 6, and the two heights add up to 5 of 9.
\<close>

theorem growable_shares_one_and_three:
  assumes "filter Visible objects = [a, b]"
    and "Growable a = Some 1" and "Growable b = Some 3"
  shows "(\<not> isVerticalSpacer a \<and> \<not> isVerticalSpacer b \<and>
          Height (MinSize a) = m \<and> Height (MinSize b) = m \<longrightarrow>
            vExtra padding objects sz = Height sz - (m + m) - padding \<and>
            growFactors (vTotals objects sz) = 4 * max m 1 \<and>
            map objSize (filter Visible (vBoxLayout_Layout padding objects sz)) =
              [NewSize (Width sz) (m + vExtra padding objects sz / (4 * max m 1) * 1 * m),
               NewSize (Width sz) (m + vExtra padding objects sz / (4 * max m 1) * 3 * m)] \<and>
            (1 \<le> m \<longrightarrow>
               map objSize (filter Visible (vBoxLayout_Layout padding objects sz)) =
                 [NewSize (Width sz) (m + vExtra padding objects sz / 4),
                  NewSize (Width sz) (m + 3 * vExtra padding objects sz / 4)]) \<and>
            (m < 1 \<longrightarrow>
               map objSize (filter Visible (vBoxLayout_Layout padding objects sz)) =
                 [NewSize (Width sz) (m + vExtra padding objects sz / 4 * m),
                  NewSize (Width sz) (m + 3 * vExtra padding objects sz / 4 * m)])) \<and>
         (\<not> isHorizontalSpacer a \<and> \<not> isHorizontalSpacer b \<and>
          Width (MinSize a) = m \<and> Width (MinSize b) = m \<longrightarrow>
            hExtra padding objects sz = Width sz - (m + m) - padding \<and>
            growFactors (hTotals objects sz) = 4 * max m 1 \<and>
            map objSize (filter Visible (hBoxLayout_Layout padding objects sz)) =
              [NewSize (m + hExtra padding objects sz / (4 * max m 1) * 1 * m) (Height sz),
               NewSize (m + hExtra padding objects sz / (4 * max m 1) * 3 * m) (Height sz)] \<and>
            (1 \<le> m \<longrightarrow>
               map objSize (filter Visible (hBoxLayout_Layout padding objects sz)) =
                 [NewSize (m + hExtra padding objects sz / 4) (Height sz),
                  NewSize (m + 3 * hExtra padding objects sz / 4) (Height sz)]) \<and>
            (m < 1 \<longrightarrow>
               map objSize (filter Visible (hBoxLayout_Layout padding objects sz)) =
                 [NewSize (m + hExtra padding objects sz / 4 * m) (Height sz),
                  NewSize (m + 3 * hExtra padding objects sz / 4 * m) (Height sz)]))"
proof -
  have "a \<in> set (filter Visible objects)" and "b \<in> set (filter Visible objects)"
    by (simp_all add: assms(1))
  then have vis: "Visible a" "Visible b" by simp_all
  have ve: "vExtra padding objects sz = vExtra padding [a, b] sz"
    using vExtra_filter_Visible [of padding objects sz] assms(1) by simp
  have he: "hExtra padding objects sz = hExtra padding [a, b] sz"
    using hExtra_filter_Visible [of padding objects sz] assms(1) by simp
  have vt: "vTotals objects sz = vTotals [a, b] sz"
    using vTotals_filter_Visible [of objects sz] assms(1) by simp
  have ht: "hTotals objects sz = hTotals [a, b] sz"
    using hTotals_filter_Visible [of objects sz] assms(1) by simp
  have vl: "filter Visible (vBoxLayout_Layout padding objects sz) = vBoxLayout_Layout padding [a, b] sz"
    using vLayout_filter_Visible [of padding objects sz] assms(1) by simp
  have hl: "filter Visible (hBoxLayout_Layout padding objects sz) = hBoxLayout_Layout padding [a, b] sz"
    using hLayout_filter_Visible [of padding objects sz] assms(1) by simp
  have one: "1 \<le> m \<Longrightarrow> e / (4 * max m 1) * 1 * m = e / 4 \<and> e / (4 * max m 1) * 3 * m = 3 * e / 4"
    for e :: real
    by (simp add: max_def)
  have low: "m < 1 \<Longrightarrow> e / (4 * max m 1) * 1 * m = e / 4 * m \<and> e / (4 * max m 1) * 3 * m = 3 * e / 4 * m"
    for e :: real
    by (simp add: max_def)
  have V: "vExtra padding objects sz = Height sz - (m + m) - padding \<and>
      growFactors (vTotals objects sz) = 4 * max m 1 \<and>
      map objSize (filter Visible (vBoxLayout_Layout padding objects sz)) =
        [NewSize (Width sz) (m + vExtra padding objects sz / (4 * max m 1) * 1 * m),
         NewSize (Width sz) (m + vExtra padding objects sz / (4 * max m 1) * 3 * m)]"
    if s: "\<not> isVerticalSpacer a \<and> \<not> isVerticalSpacer b \<and>
          Height (MinSize a) = m \<and> Height (MinSize b) = m"
  proof -
    have "vExtra padding [a, b] sz = Height sz - (m + m) - padding"
      using vis s by (simp add: vExtra_closed vLaidOut_def)
    moreover have "growFactors (vTotals [a, b] sz) = 4 * max m 1 \<and>
        map objSize (vBoxLayout_Layout padding [a, b] sz) =
        [NewSize (Width sz) (m + vExtra padding [a, b] sz / (4 * max m 1) * 1 * m),
         NewSize (Width sz) (m + vExtra padding [a, b] sz / (4 * max m 1) * 3 * m)]"
      using vis s assms(2,3) by (intro vLayout_two_growable_as_coded) simp_all
    ultimately show ?thesis unfolding ve vl vt by simp
  qed
  have H: "hExtra padding objects sz = Width sz - (m + m) - padding \<and>
      growFactors (hTotals objects sz) = 4 * max m 1 \<and>
      map objSize (filter Visible (hBoxLayout_Layout padding objects sz)) =
        [NewSize (m + hExtra padding objects sz / (4 * max m 1) * 1 * m) (Height sz),
         NewSize (m + hExtra padding objects sz / (4 * max m 1) * 3 * m) (Height sz)]"
    if s: "\<not> isHorizontalSpacer a \<and> \<not> isHorizontalSpacer b \<and>
          Width (MinSize a) = m \<and> Width (MinSize b) = m"
  proof -
    have "hExtra padding [a, b] sz = Width sz - (m + m) - padding"
      using vis s by (simp add: hExtra_closed hLaidOut_def)
    moreover have "growFactors (hTotals [a, b] sz) = 4 * max m 1 \<and>
        map objSize (hBoxLayout_Layout padding [a, b] sz) =
        [NewSize (m + hExtra padding [a, b] sz / (4 * max m 1) * 1 * m) (Height sz),
         NewSize (m + hExtra padding [a, b] sz / (4 * max m 1) * 3 * m) (Height sz)]"
      using vis s assms(2,3) by (intro hLayout_two_growable_as_coded) simp_all
    ultimately show ?thesis unfolding he hl ht by simp
  qed
  show ?thesis
    apply (intro conjI impI)
    subgoal using V by blast
    subgoal using V by blast
    subgoal using V by blast
    subgoal using V one [of "vExtra padding objects sz"] by simp
    subgoal using V low [of "vExtra padding objects sz"] by simp
    subgoal using H by blast
    subgoal using H by blast
    subgoal using H by blast
    subgoal using H one [of "hExtra padding objects sz"] by simp
    subgoal using H low [of "hExtra padding objects sz"] by simp
    done
qed

theorem growable_shares_one_and_three_witness:
  "filter Visible [growing 1 8 (1 / 2), growing 3 8 (1 / 2)] =
     [growing 1 8 (1 / 2), growing 3 8 (1 / 2)] \<and>
   Growable (growing 1 8 (1 / 2)) = Some 1 \<and> Growable (growing 3 8 (1 / 2)) = Some 3 \<and>
   \<not> isVerticalSpacer (growing 1 8 (1 / 2)) \<and> \<not> isVerticalSpacer (growing 3 8 (1 / 2)) \<and>
   Height (MinSize (growing 1 8 (1 / 2))) = 1 / 2 \<and>
   Height (MinSize (growing 3 8 (1 / 2))) = 1 / 2 \<and>
   vExtra 0 [growing 1 8 (1 / 2), growing 3 8 (1 / 2)] (NewSize 100 9) = 8 \<and>
   growFactors (vTotals [growing 1 8 (1 / 2), growing 3 8 (1 / 2)] (NewSize 100 9)) = 4 \<and>
   map objSize (filter Visible
       (vBoxLayout_Layout 0 [growing 1 8 (1 / 2), growing 3 8 (1 / 2)] (NewSize 100 9))) =
     [NewSize 100 (1 / 2 + 1), NewSize 100 (1 / 2 + 3)] \<and>
   vBoxLayout_Layout 0 [growing 1 8 (1 / 2), growing 3 8 (1 / 2)] (NewSize 100 9) =
     [(growing 1 8 (1 / 2))\<lparr>objPos := NewPos 0 0, objSize := NewSize 100 (3 / 2)\<rparr>,
      (growing 3 8 (1 / 2))\<lparr>objPos := NewPos 0 (3 / 2), objSize := NewSize 100 (7 / 2)\<rparr>] \<and>
   (1::real) \<noteq> 8 / 4 \<and> (3::real) \<noteq> 3 * 8 / 4 \<and>
   (3 / 2 + 7 / 2 :: real) < 9"
proof -
  let ?objects = "[growing 1 8 (1 / 2), growing 3 8 (1 / 2)]"
  have f: "filter Visible ?objects = ?objects"
    by (simp add: object_defs)
  have g: "Growable (growing 1 8 (1 / 2)) = Some 1 \<and> Growable (growing 3 8 (1 / 2)) = Some 3"
    by (simp add: object_defs)
  have s: "\<not> isVerticalSpacer (growing 1 8 (1 / 2)) \<and> \<not> isVerticalSpacer (growing 3 8 (1 / 2)) \<and>
      Height (MinSize (growing 1 8 (1 / 2))) = 1 / 2 \<and>
      Height (MinSize (growing 3 8 (1 / 2))) = 1 / 2"
    by (simp add: object_defs)
  have l: "vBoxLayout_Layout 0 ?objects (NewSize 100 9) =
      [(growing 1 8 (1 / 2))\<lparr>objPos := NewPos 0 0, objSize := NewSize 100 (3 / 2)\<rparr>,
       (growing 3 8 (1 / 2))\<lparr>objPos := NewPos 0 (3 / 2), objSize := NewSize 100 (7 / 2)\<rparr>]"
    by (simp add: layout_defs object_defs)
  have n: "(1::real) \<noteq> 8 / 4 \<and> (3::real) \<noteq> 3 * 8 / 4 \<and> (3 / 2 + 7 / 2 :: real) < 9" by simp
  have w: "Width (NewSize 100 9) = 100 \<and> Height (NewSize 100 9) = 9" by simp
  have t: "vExtra 0 ?objects (NewSize 100 9) = 8 \<and>
      growFactors (vTotals ?objects (NewSize 100 9)) = 4 \<and>
      map objSize (filter Visible (vBoxLayout_Layout 0 ?objects (NewSize 100 9))) =
        [NewSize 100 (1 / 2 + 1), NewSize 100 (1 / 2 + 3)]"
    using conjunct1 [OF growable_shares_one_and_three
      [OF f conjunct1 [OF g] conjunct2 [OF g], of "1 / 2" 0 "NewSize 100 9"]] s w
    by simp
  from f g s t l n show ?thesis by blast
qed

subsection \<open>C2: a growable child of minimum 0\<close>

text \<open>
  C2. What \<open>Layout\<close> does with a visible growable child whose own minimum main-axis size
  is 0: the first loop adds its grow factor times 1 to \<open>growFactors\<close> (the floor), and
  after \<open>Layout\<close> its main-axis size is 0, whatever the leftover space, the padding and
  the other children are, since the second loop adds \<open>perFactor * growFactor * 0\<close>
  (lines 119, 220). The child receives no part of the extra space, so the positive
  share the claim promises does not hold of the code; the floor only enlarges the
  divisor. Stated for both layouts; the child is named by its index in the slice.

  The instance below: grow factors 1 and 1, minimum heights 0 and 10, padding 0,
  container height 21. \<open>extra = 11\<close>, \<open>growFactors = 11\<close>, the per-factor share is 1, and
  the heights after \<open>Layout\<close> are 0 and 20: one unit of \<open>extra\<close> goes to no child.
\<close>

theorem zero_minimum_growable_child_receives_nothing:
  assumes "i < length objects" and "Visible (objects ! i)" and "Growable (objects ! i) = Some g"
  shows "(\<not> isVerticalSpacer (objects ! i) \<and> Height (MinSize (objects ! i)) = 0 \<longrightarrow>
            growFactors (fst (vMeasureStep sz t (objects ! i))) = growFactors t + g * 1 \<and>
            Height (objSize (vBoxLayout_Layout padding objects sz ! i)) = 0) \<and>
         (\<not> isHorizontalSpacer (objects ! i) \<and> Width (MinSize (objects ! i)) = 0 \<longrightarrow>
            growFactors (fst (hMeasureStep sz t (objects ! i))) = growFactors t + g * 1 \<and>
            Width (objSize (hBoxLayout_Layout padding objects sz ! i)) = 0)"
  using assms
  by (simp add: vLayout_growable_size hLayout_growable_size vMeasureStep_fst hMeasureStep_fst
        vWeight_def hWeight_def)

theorem zero_minimum_growable_child_receives_nothing_witness:
  "0 < length [growing 1 8 0, growing 1 8 10] \<and>
   Visible ([growing 1 8 0, growing 1 8 10] ! 0) \<and>
   Growable ([growing 1 8 0, growing 1 8 10] ! 0) = Some 1 \<and>
   \<not> isVerticalSpacer ([growing 1 8 0, growing 1 8 10] ! 0) \<and>
   Height (MinSize ([growing 1 8 0, growing 1 8 10] ! 0)) = 0 \<and>
   vExtra 0 [growing 1 8 0, growing 1 8 10] (NewSize 100 21) = 11 \<and>
   growFactors (vTotals [growing 1 8 0, growing 1 8 10] (NewSize 100 21)) = 11 \<and>
   vPerFactor 0 [growing 1 8 0, growing 1 8 10] (NewSize 100 21) = 1 \<and>
   growFactors (fst (vMeasureStep (NewSize 100 21) noTotals ([growing 1 8 0, growing 1 8 10] ! 0))) = 1 \<and>
   Height (objSize (vBoxLayout_Layout 0 [growing 1 8 0, growing 1 8 10] (NewSize 100 21) ! 0)) = 0 \<and>
   Height (objSize (vBoxLayout_Layout 0 [growing 1 8 0, growing 1 8 10] (NewSize 100 21) ! 1)) = 20"
proof -
  let ?objects = "[growing 1 8 0, growing 1 8 10]"
  have c: "Visible (?objects ! 0) \<and> Growable (?objects ! 0) = Some 1 \<and>
      \<not> isVerticalSpacer (?objects ! 0) \<and> Height (MinSize (?objects ! 0)) = 0"
    by (simp add: object_defs)
  have t: "vTotals ?objects (NewSize 100 21) =
      \<lparr>spacers = 0, visibleObjects = 2, totalMin = 10, growFactors = 11\<rparr>"
    by (simp add: vTotals_def vMeasureStep_def noTotals_def Let_def object_defs)
  have e: "vExtra 0 ?objects (NewSize 100 21) = 11"
    by (simp add: vExtra_def extraOf_def t)
  have f: "vPerFactor 0 ?objects (NewSize 100 21) = 1"
    by (simp add: vPerFactor_def perFactorOf_def e t)
  have s: "Height (objSize (vBoxLayout_Layout 0 ?objects (NewSize 100 21) ! 1)) = 20"
    by (simp add: layout_defs object_defs)
  have i: "0 < length ?objects" by simp
  show ?thesis
    using zero_minimum_growable_child_receives_nothing
      [OF i conjunct1 [OF c] conjunct1 [OF conjunct2 [OF c]], of "NewSize 100 21" noTotals 0]
      c e f s
    unfolding t by (simp add: noTotals_def)
qed

subsection \<open>C3: spacers and growable children share nothing\<close>

text \<open>
  C3. In a \<open>Layout\<close> call with at least one visible spacer along the main axis and at
  least one laid-out growable child of positive grow factor (no laid-out child having a
  negative one), both pools take the whole \<open>extra\<close>. In what \<open>Layout\<close> returns, every
  laid-out growable child of grow factor \<open>g\<close> and minimum \<open>h\<close> has main-axis size
  \<open>h + extra / totalWeight * g * h\<close>, and every laid-out child stands at the main-axis
  coordinate \<open>n * (extra / k) + sum\<close>, where \<open>n\<close> is the number of visible spacers before
  it, \<open>k\<close> the number of all visible spacers, and \<open>sum\<close> adds padding plus final
  main-axis size over the laid-out children before it. \<open>totalWeight\<close> is \<open>growFactors\<close>,
  the sum of grow factor times the larger of the minimum and 1, and is positive;
  \<open>spacers\<close> is \<open>k\<close>. \<open>spacerSize\<close> is what it would be with no child growable, the
  per-factor share is what it would be with the spacers removed, and the second loop's
  body on a visible spacer advances the cursor by \<open>extra / k\<close>. Stated for both layouts.
\<close>

theorem spacer_and_growable_pools_are_independent:
  "(vSpacers objects \<noteq> [] \<and>
    (\<exists>c \<in> set (vLaidOut objects). \<exists>g. Growable c = Some g \<and> 0 < g) \<and>
    (\<forall>c \<in> set (vLaidOut objects). \<forall>g. Growable c = Some g \<longrightarrow> 0 \<le> g) \<longrightarrow>
      (\<forall>i < length objects. \<forall>g. Visible (objects ! i) \<and> \<not> isVerticalSpacer (objects ! i) \<and>
          Growable (objects ! i) = Some g \<longrightarrow>
        objSize (vBoxLayout_Layout padding objects sz ! i) =
          NewSize (Width sz)
            (Height (MinSize (objects ! i)) +
             vExtra padding objects sz / sum_list (map vWeight (vLaidOut objects)) * g *
               Height (MinSize (objects ! i)))) \<and>
      (\<forall>i < length objects. Visible (objects ! i) \<and> \<not> isVerticalSpacer (objects ! i) \<longrightarrow>
        objPos (vBoxLayout_Layout padding objects sz ! i) =
          NewPos 0
            (real (length (vSpacers (take i objects))) *
               (vExtra padding objects sz / real (length (vSpacers objects))) +
             sum_list (map (\<lambda>c. padding + Height (objSize c))
               (vLaidOut (take i (vBoxLayout_Layout padding objects sz)))))) \<and>
      vSpacerSize padding objects sz =
        vExtra padding objects sz / real (length (vSpacers objects)) \<and>
      spacers (vTotals objects sz) = int (length (vSpacers objects)) \<and>
      growFactors (vTotals objects sz) = sum_list (map vWeight (vLaidOut objects)) \<and>
      0 < sum_list (map vWeight (vLaidOut objects)) \<and>
      vPerFactor padding objects sz =
        vExtra padding objects sz / sum_list (map vWeight (vLaidOut objects)) \<and>
      (\<forall>c \<in> set (vSpacers objects). \<forall>x y.
         vPlaceStep sz padding (vPerFactor padding objects sz) (vSpacerSize padding objects sz) (x, y) c =
           ((x, y + vExtra padding objects sz / real (length (vSpacers objects))), c)) \<and>
      vSpacerSize padding objects sz =
        vSpacerSize padding (map (\<lambda>c. c\<lparr>Growable := None\<rparr>) objects) sz \<and>
      vPerFactor padding objects sz =
        vPerFactor padding (filter (\<lambda>c. \<not> isVerticalSpacer c) objects) sz) \<and>
   (hSpacers objects \<noteq> [] \<and>
    (\<exists>c \<in> set (hLaidOut objects). \<exists>g. Growable c = Some g \<and> 0 < g) \<and>
    (\<forall>c \<in> set (hLaidOut objects). \<forall>g. Growable c = Some g \<longrightarrow> 0 \<le> g) \<longrightarrow>
      (\<forall>i < length objects. \<forall>g. Visible (objects ! i) \<and> \<not> isHorizontalSpacer (objects ! i) \<and>
          Growable (objects ! i) = Some g \<longrightarrow>
        objSize (hBoxLayout_Layout padding objects sz ! i) =
          NewSize
            (Width (MinSize (objects ! i)) +
             hExtra padding objects sz / sum_list (map hWeight (hLaidOut objects)) * g *
               Width (MinSize (objects ! i)))
            (Height sz)) \<and>
      (\<forall>i < length objects. Visible (objects ! i) \<and> \<not> isHorizontalSpacer (objects ! i) \<longrightarrow>
        objPos (hBoxLayout_Layout padding objects sz ! i) =
          NewPos
            (real (length (hSpacers (take i objects))) *
               (hExtra padding objects sz / real (length (hSpacers objects))) +
             sum_list (map (\<lambda>c. padding + Width (objSize c))
               (hLaidOut (take i (hBoxLayout_Layout padding objects sz)))))
            0) \<and>
      hSpacerSize padding objects sz =
        hExtra padding objects sz / real (length (hSpacers objects)) \<and>
      spacers (hTotals objects sz) = int (length (hSpacers objects)) \<and>
      growFactors (hTotals objects sz) = sum_list (map hWeight (hLaidOut objects)) \<and>
      0 < sum_list (map hWeight (hLaidOut objects)) \<and>
      hPerFactor padding objects sz =
        hExtra padding objects sz / sum_list (map hWeight (hLaidOut objects)) \<and>
      (\<forall>c \<in> set (hSpacers objects). \<forall>x y.
         hPlaceStep sz padding (hPerFactor padding objects sz) (hSpacerSize padding objects sz) (x, y) c =
           ((x + hExtra padding objects sz / real (length (hSpacers objects)), y), c)) \<and>
      hSpacerSize padding objects sz =
        hSpacerSize padding (map (\<lambda>c. c\<lparr>Growable := None\<rparr>) objects) sz \<and>
      hPerFactor padding objects sz =
        hPerFactor padding (filter (\<lambda>c. \<not> isHorizontalSpacer c) objects) sz)"
proof -
  have vs: "\<forall>c \<in> set (vSpacers objects). \<forall>x y.
         vPlaceStep sz padding (vPerFactor padding objects sz) (vSpacerSize padding objects sz) (x, y) c =
           ((x, y + vExtra padding objects sz / real (length (vSpacers objects))), c)"
  proof (intro ballI allI)
    fix c x y
    assume "c \<in> set (vSpacers objects)"
    then have "c \<in> set objects" and "Visible c" and "isVerticalSpacer c"
      by (simp_all add: vSpacers_def)
    then show "vPlaceStep sz padding (vPerFactor padding objects sz) (vSpacerSize padding objects sz) (x, y) c =
           ((x, y + vExtra padding objects sz / real (length (vSpacers objects))), c)"
      by (rule vPlaceStep_spacer)
  qed
  have hs: "\<forall>c \<in> set (hSpacers objects). \<forall>x y.
         hPlaceStep sz padding (hPerFactor padding objects sz) (hSpacerSize padding objects sz) (x, y) c =
           ((x + hExtra padding objects sz / real (length (hSpacers objects)), y), c)"
  proof (intro ballI allI)
    fix c x y
    assume "c \<in> set (hSpacers objects)"
    then have "c \<in> set objects" and "Visible c" and "isHorizontalSpacer c"
      by (simp_all add: hSpacers_def)
    then show "hPlaceStep sz padding (hPerFactor padding objects sz) (hSpacerSize padding objects sz) (x, y) c =
           ((x + hExtra padding objects sz / real (length (hSpacers objects)), y), c)"
      by (rule hPlaceStep_spacer)
  qed
  have vw: "0 < sum_list (map vWeight (vLaidOut objects)) \<and>
      vPerFactor padding objects sz =
        vExtra padding objects sz / sum_list (map vWeight (vLaidOut objects))"
    if "\<exists>c \<in> set (vLaidOut objects). \<exists>g. Growable c = Some g \<and> 0 < g"
      and "\<forall>c \<in> set (vLaidOut objects). \<forall>g. Growable c = Some g \<longrightarrow> 0 \<le> g"
    using vWeight_total_pos [OF that] by (simp add: vPerFactor_closed)
  have hw: "0 < sum_list (map hWeight (hLaidOut objects)) \<and>
      hPerFactor padding objects sz =
        hExtra padding objects sz / sum_list (map hWeight (hLaidOut objects))"
    if "\<exists>c \<in> set (hLaidOut objects). \<exists>g. Growable c = Some g \<and> 0 < g"
      and "\<forall>c \<in> set (hLaidOut objects). \<forall>g. Growable c = Some g \<longrightarrow> 0 \<le> g"
    using hWeight_total_pos [OF that] by (simp add: hPerFactor_closed)
  have vz: "\<forall>i < length objects. \<forall>g. Visible (objects ! i) \<and> \<not> isVerticalSpacer (objects ! i) \<and>
          Growable (objects ! i) = Some g \<longrightarrow>
        objSize (vBoxLayout_Layout padding objects sz ! i) =
          NewSize (Width sz)
            (Height (MinSize (objects ! i)) +
             vExtra padding objects sz / sum_list (map vWeight (vLaidOut objects)) * g *
               Height (MinSize (objects ! i)))"
    if "\<exists>c \<in> set (vLaidOut objects). \<exists>g. Growable c = Some g \<and> 0 < g"
      and "\<forall>c \<in> set (vLaidOut objects). \<forall>g. Growable c = Some g \<longrightarrow> 0 \<le> g"
    using vw [OF that] by (simp add: vLayout_growable_size)
  have hz: "\<forall>i < length objects. \<forall>g. Visible (objects ! i) \<and> \<not> isHorizontalSpacer (objects ! i) \<and>
          Growable (objects ! i) = Some g \<longrightarrow>
        objSize (hBoxLayout_Layout padding objects sz ! i) =
          NewSize
            (Width (MinSize (objects ! i)) +
             hExtra padding objects sz / sum_list (map hWeight (hLaidOut objects)) * g *
               Width (MinSize (objects ! i)))
            (Height sz)"
    if "\<exists>c \<in> set (hLaidOut objects). \<exists>g. Growable c = Some g \<and> 0 < g"
      and "\<forall>c \<in> set (hLaidOut objects). \<forall>g. Growable c = Some g \<longrightarrow> 0 \<le> g"
    using hw [OF that] by (simp add: hLayout_growable_size)
  have vp: "\<forall>i < length objects. Visible (objects ! i) \<and> \<not> isVerticalSpacer (objects ! i) \<longrightarrow>
        objPos (vBoxLayout_Layout padding objects sz ! i) =
          NewPos 0
            (real (length (vSpacers (take i objects))) *
               (vExtra padding objects sz / real (length (vSpacers objects))) +
             sum_list (map (\<lambda>c. padding + Height (objSize c))
               (vLaidOut (take i (vBoxLayout_Layout padding objects sz)))))"
    by (simp add: vLayout_position_extra)
  have hp: "\<forall>i < length objects. Visible (objects ! i) \<and> \<not> isHorizontalSpacer (objects ! i) \<longrightarrow>
        objPos (hBoxLayout_Layout padding objects sz ! i) =
          NewPos
            (real (length (hSpacers (take i objects))) *
               (hExtra padding objects sz / real (length (hSpacers objects))) +
             sum_list (map (\<lambda>c. padding + Width (objSize c))
               (hLaidOut (take i (hBoxLayout_Layout padding objects sz)))))
            0"
    by (simp add: hLayout_position_extra)
  have vk: "vSpacers objects \<noteq> [] \<Longrightarrow> vSpacerSize padding objects sz =
        vExtra padding objects sz / real (length (vSpacers objects))"
    by (simp add: vSpacerSize_closed)
  have hk: "hSpacers objects \<noteq> [] \<Longrightarrow> hSpacerSize padding objects sz =
        hExtra padding objects sz / real (length (hSpacers objects))"
    by (simp add: hSpacerSize_closed)
  have vt: "spacers (vTotals objects sz) = int (length (vSpacers objects)) \<and>
      growFactors (vTotals objects sz) = sum_list (map vWeight (vLaidOut objects))"
    by (simp add: vTotals_closed)
  have ht: "spacers (hTotals objects sz) = int (length (hSpacers objects)) \<and>
      growFactors (hTotals objects sz) = sum_list (map hWeight (hLaidOut objects))"
    by (simp add: hTotals_closed)
  note ind = vSpacerSize_fixed_sizes [of padding objects sz] hSpacerSize_fixed_sizes [of padding objects sz]
    vPerFactor_without_spacers [of padding objects sz] hPerFactor_without_spacers [of padding objects sz]
  show ?thesis
    apply (intro conjI impI)
    subgoal using vz by blast
    subgoal by (rule vp)
    subgoal using vk by blast
    subgoal using vt by blast
    subgoal using vt by blast
    subgoal using vw by blast
    subgoal using vw by blast
    subgoal by (rule vs)
    subgoal using ind by simp
    subgoal using ind by simp
    subgoal using hz by blast
    subgoal by (rule hp)
    subgoal using hk by blast
    subgoal using ht by blast
    subgoal using ht by blast
    subgoal using hw by blast
    subgoal using hw by blast
    subgoal by (rule hs)
    subgoal using ind by simp
    subgoal using ind by simp
    done
qed

theorem spacer_and_growable_pools_are_independent_witness:
  "vSpacers [growing 1 8 10, spacerObj, growing 3 8 10] = [spacerObj] \<and>
   vLaidOut [growing 1 8 10, spacerObj, growing 3 8 10] = [growing 1 8 10, growing 3 8 10] \<and>
   Growable (growing 1 8 10) = Some 1 \<and> Growable (growing 3 8 10) = Some 3 \<and>
   vExtra 5 [growing 1 8 10, spacerObj, growing 3 8 10] (NewSize 100 105) = 80 \<and>
   vSpacerSize 5 [growing 1 8 10, spacerObj, growing 3 8 10] (NewSize 100 105) = 80 / 1 \<and>
   vPerFactor 5 [growing 1 8 10, spacerObj, growing 3 8 10] (NewSize 100 105) = 80 / 40 \<and>
   vBoxLayout_Layout 5 [growing 1 8 10, spacerObj, growing 3 8 10] (NewSize 100 105) =
     [(growing 1 8 10)\<lparr>objPos := NewPos 0 0, objSize := NewSize 100 (10 + 80 / 40 * 1 * 10)\<rparr>,
      spacerObj,
      (growing 3 8 10)\<lparr>objPos := NewPos 0 (1 * (80 / 1) + (5 + 30)),
                         objSize := NewSize 100 (10 + 80 / 40 * 3 * 10)\<rparr>] \<and>
   hSpacers [growing 1 10 8, spacerObj, growing 3 10 8] = [spacerObj] \<and>
   hLaidOut [growing 1 10 8, spacerObj, growing 3 10 8] = [growing 1 10 8, growing 3 10 8] \<and>
   hExtra 5 [growing 1 10 8, spacerObj, growing 3 10 8] (NewSize 105 100) = 80 \<and>
   hBoxLayout_Layout 5 [growing 1 10 8, spacerObj, growing 3 10 8] (NewSize 105 100) =
     [(growing 1 10 8)\<lparr>objPos := NewPos 0 0, objSize := NewSize (10 + 80 / 40 * 1 * 10) 100\<rparr>,
      spacerObj,
      (growing 3 10 8)\<lparr>objPos := NewPos (1 * (80 / 1) + (5 + 30)) 0,
                         objSize := NewSize (10 + 80 / 40 * 3 * 10) 100\<rparr>]"
proof -
  let ?objects = "[growing 1 8 10, spacerObj, growing 3 8 10]"
  let ?hobjects = "[growing 1 10 8, spacerObj, growing 3 10 8]"
  have s: "vSpacers ?objects = [spacerObj]"
    by (simp add: vSpacers_def object_defs)
  have l: "vLaidOut ?objects = [growing 1 8 10, growing 3 8 10]"
    by (simp add: vLaidOut_def object_defs)
  have hsl: "hSpacers ?hobjects = [spacerObj] \<and> hLaidOut ?hobjects = [growing 1 10 8, growing 3 10 8]"
    by (simp add: hSpacers_def hLaidOut_def object_defs)
  have g: "Growable (growing 1 8 10) = Some 1 \<and> Growable (growing 3 8 10) = Some 3"
    by (simp add: object_defs)
  have e: "vExtra 5 ?objects (NewSize 100 105) = 80"
    by (simp add: vExtra_closed l) (simp add: object_defs)
  have he: "hExtra 5 ?hobjects (NewSize 105 100) = 80"
    by (simp add: hExtra_closed hsl) (simp add: object_defs)
  have w: "sum_list (map vWeight [growing 1 8 10, growing 3 8 10]) = 40"
    by (simp add: vWeight_def object_defs)
  have v: "vBoxLayout_Layout 5 ?objects (NewSize 100 105) =
     [(growing 1 8 10)\<lparr>objPos := NewPos 0 0, objSize := NewSize 100 (10 + 80 / 40 * 1 * 10)\<rparr>,
      spacerObj,
      (growing 3 8 10)\<lparr>objPos := NewPos 0 (1 * (80 / 1) + (5 + 30)),
                         objSize := NewSize 100 (10 + 80 / 40 * 3 * 10)\<rparr>]"
    by (simp add: layout_defs object_defs)
  have h: "hBoxLayout_Layout 5 ?hobjects (NewSize 105 100) =
     [(growing 1 10 8)\<lparr>objPos := NewPos 0 0, objSize := NewSize (10 + 80 / 40 * 1 * 10) 100\<rparr>,
      spacerObj,
      (growing 3 10 8)\<lparr>objPos := NewPos (1 * (80 / 1) + (5 + 30)) 0,
                         objSize := NewSize (10 + 80 / 40 * 3 * 10) 100\<rparr>]"
    by (simp add: layout_defs object_defs)
  have p: "vSpacerSize 5 ?objects (NewSize 100 105) = 80 / 1 \<and>
      vPerFactor 5 ?objects (NewSize 100 105) = 80 / 40"
    using spacer_and_growable_pools_are_independent [of ?objects 5 "NewSize 100 105"] g
    unfolding s l e w by simp
  from s l g e p v hsl he h show ?thesis by blast
qed

subsection \<open>C4: \<open>MinSize\<close> adds along the main axis and takes the maximum across\<close>

text \<open>
  C4. For the children that \<open>MinSize\<close> counts (visible, not a spacer along the main
  axis; \<open>N\<close> of them, with or without the Growable capability), of non-negative minimum
  sizes: the main-axis component of \<open>MinSize\<close> is the sum of their main-axis minimums
  plus \<open>padding * (N - 1)\<close>, and the cross-axis component is the maximum of their
  cross-axis minimums; when there is no such child the result is \<open>(0, 0)\<close>. Stated for
  \<open>vBoxLayout.MinSize\<close> and \<open>hBoxLayout.MinSize\<close>.
\<close>

theorem minSize_sum_and_max:
  assumes "\<forall>c \<in> set objects. 0 \<le> Width (MinSize c) \<and> 0 \<le> Height (MinSize c)"
  shows "(vLaidOut objects = [] \<longrightarrow> vBoxLayout_MinSize padding objects = NewSize 0 0) \<and>
         (vLaidOut objects \<noteq> [] \<longrightarrow>
            Height (vBoxLayout_MinSize padding objects) =
              sum_list (map (\<lambda>c. Height (MinSize c)) (vLaidOut objects))
                + padding * (real (length (vLaidOut objects)) - 1) \<and>
            Width (vBoxLayout_MinSize padding objects) =
              Max (set (map (\<lambda>c. Width (MinSize c)) (vLaidOut objects)))) \<and>
         (hLaidOut objects = [] \<longrightarrow> hBoxLayout_MinSize padding objects = NewSize 0 0) \<and>
         (hLaidOut objects \<noteq> [] \<longrightarrow>
            Width (hBoxLayout_MinSize padding objects) =
              sum_list (map (\<lambda>c. Width (MinSize c)) (hLaidOut objects))
                + padding * (real (length (hLaidOut objects)) - 1) \<and>
            Height (hBoxLayout_MinSize padding objects) =
              Max (set (map (\<lambda>c. Height (MinSize c)) (hLaidOut objects))))"
proof -
  have v0: "vLaidOut objects = [] \<Longrightarrow> vBoxLayout_MinSize padding objects = NewSize 0 0"
    by (simp add: vMinSize_closed NewSize_def)
  have h0: "hLaidOut objects = [] \<Longrightarrow> hBoxLayout_MinSize padding objects = NewSize 0 0"
    by (simp add: hMinSize_closed NewSize_def)
  have len: "cs \<noteq> [] \<Longrightarrow> real (length cs - Suc 0) = real (length cs) - 1" for cs :: "CanvasObject list"
    by (cases cs) simp_all
  have vw: "\<forall>w \<in> set (map (\<lambda>c. Width (MinSize c)) (vLaidOut objects)). 0 \<le> w"
    using assms by (auto simp add: vLaidOut_def)
  have hw: "\<forall>w \<in> set (map (\<lambda>c. Height (MinSize c)) (hLaidOut objects)). 0 \<le> w"
    using assms by (auto simp add: hLaidOut_def)
  have v1: "vLaidOut objects \<noteq> [] \<Longrightarrow>
      Height (vBoxLayout_MinSize padding objects) =
        sum_list (map (\<lambda>c. Height (MinSize c)) (vLaidOut objects))
          + padding * (real (length (vLaidOut objects)) - 1)"
    by (simp add: vMinSize_closed len)
  have v2: "vLaidOut objects \<noteq> [] \<Longrightarrow>
      Width (vBoxLayout_MinSize padding objects) =
        Max (set (map (\<lambda>c. Width (MinSize c)) (vLaidOut objects)))"
    using Max_insert_zero [OF _ vw] by (simp add: vMinSize_closed)
  have h1: "hLaidOut objects \<noteq> [] \<Longrightarrow>
      Width (hBoxLayout_MinSize padding objects) =
        sum_list (map (\<lambda>c. Width (MinSize c)) (hLaidOut objects))
          + padding * (real (length (hLaidOut objects)) - 1)"
    by (simp add: hMinSize_closed len)
  have h2: "hLaidOut objects \<noteq> [] \<Longrightarrow>
      Height (hBoxLayout_MinSize padding objects) =
        Max (set (map (\<lambda>c. Height (MinSize c)) (hLaidOut objects)))"
    using Max_insert_zero [OF _ hw] by (simp add: hMinSize_closed)
  from v0 v1 v2 h0 h1 h2 show ?thesis by blast
qed

theorem minSize_sum_and_max_witness:
  "list_all (\<lambda>c. 0 \<le> Width (MinSize c) \<and> 0 \<le> Height (MinSize c))
     [widget 30 20, widget 50 10, widget 40 40] \<and>
   vLaidOut [widget 30 20, widget 50 10, widget 40 40] \<noteq> [] \<and>
   hLaidOut [widget 30 20, widget 50 10, widget 40 40] \<noteq> [] \<and>
   Height (vBoxLayout_MinSize 5 [widget 30 20, widget 50 10, widget 40 40]) = 20 + 10 + 40 + 5 * 2 \<and>
   Width (vBoxLayout_MinSize 5 [widget 30 20, widget 50 10, widget 40 40]) = 50 \<and>
   Width (hBoxLayout_MinSize 5 [widget 30 20, widget 50 10, widget 40 40]) = 30 + 50 + 40 + 5 * 2 \<and>
   Height (hBoxLayout_MinSize 5 [widget 30 20, widget 50 10, widget 40 40]) = 40"
  using minSize_sum_and_max [of "[widget 30 20, widget 50 10, widget 40 40]" 5]
  by (simp add: widget_def vLaidOut_def hLaidOut_def isVerticalSpacer_def isHorizontalSpacer_def)

subsection \<open>C5: the cross axis is filled\<close>

text \<open>
  C5. After every \<open>Layout\<close> call, every visible child that is not a spacer along the main
  axis has the container's cross-axis size: the container's width after
  \<open>vBoxLayout.Layout\<close>, the container's height after \<open>hBoxLayout.Layout\<close>, whatever its
  own minimum size and its size before the call. The child is named by its index in
  the slice.
\<close>

theorem layout_cross_axis_fills_container:
  assumes "i < length objects" and "Visible (objects ! i)"
  shows "(\<not> isVerticalSpacer (objects ! i) \<longrightarrow>
            Width (objSize (vBoxLayout_Layout padding objects sz ! i)) = Width sz) \<and>
         (\<not> isHorizontalSpacer (objects ! i) \<longrightarrow>
            Height (objSize (hBoxLayout_Layout padding objects sz ! i)) = Height sz)"
  using assms by (simp add: vLayout_cross hLayout_cross)

theorem layout_cross_axis_fills_container_witness:
  "1 < length [widget 30 20, growing 2 50 10] \<and>
   Visible ([widget 30 20, growing 2 50 10] ! 1) \<and>
   \<not> isVerticalSpacer ([widget 30 20, growing 2 50 10] ! 1) \<and>
   \<not> isHorizontalSpacer ([widget 30 20, growing 2 50 10] ! 1) \<and>
   Width (objSize (vBoxLayout_Layout 5 [widget 30 20, growing 2 50 10] (NewSize 100 210) ! 1)) = 100 \<and>
   Height (objSize (hBoxLayout_Layout 5 [widget 30 20, growing 2 50 10] (NewSize 100 210) ! 1)) = 210"
  using layout_cross_axis_fills_container
    [of 1 "[widget 30 20, growing 2 50 10]" 5 "NewSize 100 210"]
  by (simp add: widget_def growing_def isVerticalSpacer_def isHorizontalSpacer_def)

subsection \<open>C6: negative leftover space\<close>

text \<open>
  C6. When the container's main-axis size (non-negative, as sizes are) is smaller than
  the main-axis component of \<open>MinSize\<close>, that is the sum of the minimums plus the padding
  gaps, then \<open>extra\<close> is their difference and negative, and it enters both formulas as it
  is: with a visible spacer, \<open>spacerSize = extra / spacers\<close>, negative; with a positive
  weight total, the per-factor share is \<open>extra / growFactors\<close>, negative. \<open>Layout\<close>
  returns every object, and what it returns is computed from these values unclamped:
  every laid-out child has main-axis size \<open>h + perFactor * g * h\<close> (\<open>h\<close> for a child
  that is not growable) and stands at \<open>n * spacerSize + sum\<close>, with \<open>n\<close> the number of
  visible spacers before it and \<open>sum\<close> adding padding plus final size over the laid-out
  children before it; a growable child of positive grow factor and positive minimum
  ends strictly smaller than its minimum when the weight total is positive. Stated
  for both layouts.
\<close>

theorem negative_extra_is_not_clamped:
  "(0 \<le> Height sz \<and> Height sz < Height (vBoxLayout_MinSize padding objects) \<longrightarrow>
      vExtra padding objects sz = Height sz - Height (vBoxLayout_MinSize padding objects) \<and>
      vExtra padding objects sz < 0 \<and>
      (0 < spacers (vTotals objects sz) \<longrightarrow>
         vSpacerSize padding objects sz =
           vExtra padding objects sz / real_of_int (spacers (vTotals objects sz)) \<and>
         vSpacerSize padding objects sz < 0) \<and>
      (0 < growFactors (vTotals objects sz) \<longrightarrow>
         vPerFactor padding objects sz =
           vExtra padding objects sz / growFactors (vTotals objects sz) \<and>
         vPerFactor padding objects sz < 0) \<and>
      length (vBoxLayout_Layout padding objects sz) = length objects \<and>
      (\<forall>i < length objects. Visible (objects ! i) \<and> \<not> isVerticalSpacer (objects ! i) \<longrightarrow>
         objSize (vBoxLayout_Layout padding objects sz ! i) =
           NewSize (Width sz)
             (Height (MinSize (objects ! i)) +
              (case Growable (objects ! i) of None \<Rightarrow> 0
               | Some g \<Rightarrow> vPerFactor padding objects sz * g * Height (MinSize (objects ! i)))) \<and>
         objPos (vBoxLayout_Layout padding objects sz ! i) =
           NewPos 0
             (real (length (vSpacers (take i objects))) * vSpacerSize padding objects sz +
              sum_list (map (\<lambda>c. padding + Height (objSize c))
                (vLaidOut (take i (vBoxLayout_Layout padding objects sz)))))) \<and>
      (\<forall>i < length objects. \<forall>g. Visible (objects ! i) \<and> \<not> isVerticalSpacer (objects ! i) \<and>
           Growable (objects ! i) = Some g \<and> 0 < g \<and> 0 < Height (MinSize (objects ! i)) \<and>
           0 < growFactors (vTotals objects sz) \<longrightarrow>
         Height (objSize (vBoxLayout_Layout padding objects sz ! i)) =
           Height (MinSize (objects ! i)) +
           vExtra padding objects sz / growFactors (vTotals objects sz) * g *
             Height (MinSize (objects ! i)) \<and>
         Height (objSize (vBoxLayout_Layout padding objects sz ! i)) <
           Height (MinSize (objects ! i)))) \<and>
   (0 \<le> Width sz \<and> Width sz < Width (hBoxLayout_MinSize padding objects) \<longrightarrow>
      hExtra padding objects sz = Width sz - Width (hBoxLayout_MinSize padding objects) \<and>
      hExtra padding objects sz < 0 \<and>
      (0 < spacers (hTotals objects sz) \<longrightarrow>
         hSpacerSize padding objects sz =
           hExtra padding objects sz / real_of_int (spacers (hTotals objects sz)) \<and>
         hSpacerSize padding objects sz < 0) \<and>
      (0 < growFactors (hTotals objects sz) \<longrightarrow>
         hPerFactor padding objects sz =
           hExtra padding objects sz / growFactors (hTotals objects sz) \<and>
         hPerFactor padding objects sz < 0) \<and>
      length (hBoxLayout_Layout padding objects sz) = length objects \<and>
      (\<forall>i < length objects. Visible (objects ! i) \<and> \<not> isHorizontalSpacer (objects ! i) \<longrightarrow>
         objSize (hBoxLayout_Layout padding objects sz ! i) =
           NewSize
             (Width (MinSize (objects ! i)) +
              (case Growable (objects ! i) of None \<Rightarrow> 0
               | Some g \<Rightarrow> hPerFactor padding objects sz * g * Width (MinSize (objects ! i))))
             (Height sz) \<and>
         objPos (hBoxLayout_Layout padding objects sz ! i) =
           NewPos
             (real (length (hSpacers (take i objects))) * hSpacerSize padding objects sz +
              sum_list (map (\<lambda>c. padding + Width (objSize c))
                (hLaidOut (take i (hBoxLayout_Layout padding objects sz)))))
             0) \<and>
      (\<forall>i < length objects. \<forall>g. Visible (objects ! i) \<and> \<not> isHorizontalSpacer (objects ! i) \<and>
           Growable (objects ! i) = Some g \<and> 0 < g \<and> 0 < Width (MinSize (objects ! i)) \<and>
           0 < growFactors (hTotals objects sz) \<longrightarrow>
         Width (objSize (hBoxLayout_Layout padding objects sz ! i)) =
           Width (MinSize (objects ! i)) +
           hExtra padding objects sz / growFactors (hTotals objects sz) * g *
             Width (MinSize (objects ! i)) \<and>
         Width (objSize (hBoxLayout_Layout padding objects sz ! i)) <
           Width (MinSize (objects ! i))))"
proof -
  have v: "vExtra padding objects sz = Height sz - Height (vBoxLayout_MinSize padding objects)"
    if "0 \<le> Height sz" and "Height sz < Height (vBoxLayout_MinSize padding objects)"
  proof (cases "vLaidOut objects = []")
    case True
    then show ?thesis using that vMinSize_nothing [of objects padding] by simp
  next
    case False
    then show ?thesis by (rule vExtra_MinSize)
  qed
  have h: "hExtra padding objects sz = Width sz - Width (hBoxLayout_MinSize padding objects)"
    if "0 \<le> Width sz" and "Width sz < Width (hBoxLayout_MinSize padding objects)"
  proof (cases "hLaidOut objects = []")
    case True
    then show ?thesis using that hMinSize_nothing [of objects padding] by simp
  next
    case False
    then show ?thesis by (rule hExtra_MinSize)
  qed
  have vn: "e < 0 \<Longrightarrow> 0 < spacers t \<Longrightarrow>
      spacerSizeOf e t = e / real_of_int (spacers t) \<and> spacerSizeOf e t < 0" for e t
    by (simp add: spacerSizeOf_def divide_neg_pos)
  have gn: "e < 0 \<Longrightarrow> 0 < growFactors t \<Longrightarrow>
      perFactorOf e t = e / growFactors t \<and> perFactorOf e t < 0" for e t
    by (simp add: perFactorOf_def divide_neg_pos)
  have shrink: "a + f * g * a < a" if "f < 0" and "0 < g" and "0 < a" for a f g :: real
  proof -
    have "f * g < 0" using that by (simp add: mult_neg_pos)
    then have "f * g * a < 0" using that by (simp add: mult_neg_pos)
    then show ?thesis by simp
  qed
  have vsp: "\<forall>i < length objects. Visible (objects ! i) \<and> \<not> isVerticalSpacer (objects ! i) \<longrightarrow>
         objSize (vBoxLayout_Layout padding objects sz ! i) =
           NewSize (Width sz)
             (Height (MinSize (objects ! i)) +
              (case Growable (objects ! i) of None \<Rightarrow> 0
               | Some g \<Rightarrow> vPerFactor padding objects sz * g * Height (MinSize (objects ! i)))) \<and>
         objPos (vBoxLayout_Layout padding objects sz ! i) =
           NewPos 0
             (real (length (vSpacers (take i objects))) * vSpacerSize padding objects sz +
              sum_list (map (\<lambda>c. padding + Height (objSize c))
                (vLaidOut (take i (vBoxLayout_Layout padding objects sz)))))"
    by (simp add: vLayout_size vLayout_position)
  have hsp: "\<forall>i < length objects. Visible (objects ! i) \<and> \<not> isHorizontalSpacer (objects ! i) \<longrightarrow>
         objSize (hBoxLayout_Layout padding objects sz ! i) =
           NewSize
             (Width (MinSize (objects ! i)) +
              (case Growable (objects ! i) of None \<Rightarrow> 0
               | Some g \<Rightarrow> hPerFactor padding objects sz * g * Width (MinSize (objects ! i))))
             (Height sz) \<and>
         objPos (hBoxLayout_Layout padding objects sz ! i) =
           NewPos
             (real (length (hSpacers (take i objects))) * hSpacerSize padding objects sz +
              sum_list (map (\<lambda>c. padding + Width (objSize c))
                (hLaidOut (take i (hBoxLayout_Layout padding objects sz)))))
             0"
    by (simp add: hLayout_size hLayout_position)
  have V: "vExtra padding objects sz = Height sz - Height (vBoxLayout_MinSize padding objects) \<and>
      vExtra padding objects sz < 0 \<and>
      (0 < spacers (vTotals objects sz) \<longrightarrow>
         vSpacerSize padding objects sz =
           vExtra padding objects sz / real_of_int (spacers (vTotals objects sz)) \<and>
         vSpacerSize padding objects sz < 0) \<and>
      (0 < growFactors (vTotals objects sz) \<longrightarrow>
         vPerFactor padding objects sz =
           vExtra padding objects sz / growFactors (vTotals objects sz) \<and>
         vPerFactor padding objects sz < 0) \<and>
      length (vBoxLayout_Layout padding objects sz) = length objects \<and>
      (\<forall>i < length objects. \<forall>g. Visible (objects ! i) \<and> \<not> isVerticalSpacer (objects ! i) \<and>
           Growable (objects ! i) = Some g \<and> 0 < g \<and> 0 < Height (MinSize (objects ! i)) \<and>
           0 < growFactors (vTotals objects sz) \<longrightarrow>
         Height (objSize (vBoxLayout_Layout padding objects sz ! i)) =
           Height (MinSize (objects ! i)) +
           vExtra padding objects sz / growFactors (vTotals objects sz) * g *
             Height (MinSize (objects ! i)) \<and>
         Height (objSize (vBoxLayout_Layout padding objects sz ! i)) <
           Height (MinSize (objects ! i)))"
    if a: "0 \<le> Height sz \<and> Height sz < Height (vBoxLayout_MinSize padding objects)"
  proof -
    have e: "vExtra padding objects sz = Height sz - Height (vBoxLayout_MinSize padding objects)"
      using v a by simp
    have n: "vExtra padding objects sz < 0" using e a by simp
    have k: "0 < spacers (vTotals objects sz) \<Longrightarrow>
        vSpacerSize padding objects sz =
          vExtra padding objects sz / real_of_int (spacers (vTotals objects sz)) \<and>
        vSpacerSize padding objects sz < 0"
      unfolding vSpacerSize_def by (rule vn [OF n])
    have g: "0 < growFactors (vTotals objects sz) \<Longrightarrow>
        vPerFactor padding objects sz =
          vExtra padding objects sz / growFactors (vTotals objects sz) \<and>
        vPerFactor padding objects sz < 0"
      unfolding vPerFactor_def by (rule gn [OF n])
    have z: "\<forall>i < length objects. \<forall>g. Visible (objects ! i) \<and> \<not> isVerticalSpacer (objects ! i) \<and>
           Growable (objects ! i) = Some g \<and> 0 < g \<and> 0 < Height (MinSize (objects ! i)) \<and>
           0 < growFactors (vTotals objects sz) \<longrightarrow>
         Height (objSize (vBoxLayout_Layout padding objects sz ! i)) =
           Height (MinSize (objects ! i)) +
           vExtra padding objects sz / growFactors (vTotals objects sz) * g *
             Height (MinSize (objects ! i)) \<and>
         Height (objSize (vBoxLayout_Layout padding objects sz ! i)) <
           Height (MinSize (objects ! i))"
    proof (intro allI impI)
      fix i ga
      assume i: "i < length objects"
      assume c: "Visible (objects ! i) \<and> \<not> isVerticalSpacer (objects ! i) \<and>
           Growable (objects ! i) = Some ga \<and> 0 < ga \<and> 0 < Height (MinSize (objects ! i)) \<and>
           0 < growFactors (vTotals objects sz)"
      have f: "vPerFactor padding objects sz =
          vExtra padding objects sz / growFactors (vTotals objects sz)"
        and fn: "vPerFactor padding objects sz < 0"
        using g c by simp_all
      have s: "Height (objSize (vBoxLayout_Layout padding objects sz ! i)) =
          Height (MinSize (objects ! i)) +
          vPerFactor padding objects sz * ga * Height (MinSize (objects ! i))"
        using vLayout_growable_size [of i objects ga padding sz] i c by simp
      show "Height (objSize (vBoxLayout_Layout padding objects sz ! i)) =
           Height (MinSize (objects ! i)) +
           vExtra padding objects sz / growFactors (vTotals objects sz) * ga *
             Height (MinSize (objects ! i)) \<and>
         Height (objSize (vBoxLayout_Layout padding objects sz ! i)) <
           Height (MinSize (objects ! i))"
        using s shrink [OF fn, of ga "Height (MinSize (objects ! i))"] c unfolding f by simp
    qed
    show ?thesis
      using e n k g z vLayout_length [of padding objects sz] by blast
  qed
  have H: "hExtra padding objects sz = Width sz - Width (hBoxLayout_MinSize padding objects) \<and>
      hExtra padding objects sz < 0 \<and>
      (0 < spacers (hTotals objects sz) \<longrightarrow>
         hSpacerSize padding objects sz =
           hExtra padding objects sz / real_of_int (spacers (hTotals objects sz)) \<and>
         hSpacerSize padding objects sz < 0) \<and>
      (0 < growFactors (hTotals objects sz) \<longrightarrow>
         hPerFactor padding objects sz =
           hExtra padding objects sz / growFactors (hTotals objects sz) \<and>
         hPerFactor padding objects sz < 0) \<and>
      length (hBoxLayout_Layout padding objects sz) = length objects \<and>
      (\<forall>i < length objects. \<forall>g. Visible (objects ! i) \<and> \<not> isHorizontalSpacer (objects ! i) \<and>
           Growable (objects ! i) = Some g \<and> 0 < g \<and> 0 < Width (MinSize (objects ! i)) \<and>
           0 < growFactors (hTotals objects sz) \<longrightarrow>
         Width (objSize (hBoxLayout_Layout padding objects sz ! i)) =
           Width (MinSize (objects ! i)) +
           hExtra padding objects sz / growFactors (hTotals objects sz) * g *
             Width (MinSize (objects ! i)) \<and>
         Width (objSize (hBoxLayout_Layout padding objects sz ! i)) <
           Width (MinSize (objects ! i)))"
    if a: "0 \<le> Width sz \<and> Width sz < Width (hBoxLayout_MinSize padding objects)"
  proof -
    have e: "hExtra padding objects sz = Width sz - Width (hBoxLayout_MinSize padding objects)"
      using h a by simp
    have n: "hExtra padding objects sz < 0" using e a by simp
    have k: "0 < spacers (hTotals objects sz) \<Longrightarrow>
        hSpacerSize padding objects sz =
          hExtra padding objects sz / real_of_int (spacers (hTotals objects sz)) \<and>
        hSpacerSize padding objects sz < 0"
      unfolding hSpacerSize_def by (rule vn [OF n])
    have g: "0 < growFactors (hTotals objects sz) \<Longrightarrow>
        hPerFactor padding objects sz =
          hExtra padding objects sz / growFactors (hTotals objects sz) \<and>
        hPerFactor padding objects sz < 0"
      unfolding hPerFactor_def by (rule gn [OF n])
    have z: "\<forall>i < length objects. \<forall>g. Visible (objects ! i) \<and> \<not> isHorizontalSpacer (objects ! i) \<and>
           Growable (objects ! i) = Some g \<and> 0 < g \<and> 0 < Width (MinSize (objects ! i)) \<and>
           0 < growFactors (hTotals objects sz) \<longrightarrow>
         Width (objSize (hBoxLayout_Layout padding objects sz ! i)) =
           Width (MinSize (objects ! i)) +
           hExtra padding objects sz / growFactors (hTotals objects sz) * g *
             Width (MinSize (objects ! i)) \<and>
         Width (objSize (hBoxLayout_Layout padding objects sz ! i)) <
           Width (MinSize (objects ! i))"
    proof (intro allI impI)
      fix i ga
      assume i: "i < length objects"
      assume c: "Visible (objects ! i) \<and> \<not> isHorizontalSpacer (objects ! i) \<and>
           Growable (objects ! i) = Some ga \<and> 0 < ga \<and> 0 < Width (MinSize (objects ! i)) \<and>
           0 < growFactors (hTotals objects sz)"
      have f: "hPerFactor padding objects sz =
          hExtra padding objects sz / growFactors (hTotals objects sz)"
        and fn: "hPerFactor padding objects sz < 0"
        using g c by simp_all
      have s: "Width (objSize (hBoxLayout_Layout padding objects sz ! i)) =
          Width (MinSize (objects ! i)) +
          hPerFactor padding objects sz * ga * Width (MinSize (objects ! i))"
        using hLayout_growable_size [of i objects ga padding sz] i c by simp
      show "Width (objSize (hBoxLayout_Layout padding objects sz ! i)) =
           Width (MinSize (objects ! i)) +
           hExtra padding objects sz / growFactors (hTotals objects sz) * ga *
             Width (MinSize (objects ! i)) \<and>
         Width (objSize (hBoxLayout_Layout padding objects sz ! i)) <
           Width (MinSize (objects ! i))"
        using s shrink [OF fn, of ga "Width (MinSize (objects ! i))"] c unfolding f by simp
    qed
    show ?thesis
      using e n k g z hLayout_length [of padding objects sz] by blast
  qed
  from V H vsp hsp show ?thesis by blast
qed

theorem negative_extra_is_not_clamped_witness:
  "(0::real) \<le> Height (NewSize 100 35) \<and>
   Height (NewSize 100 35) < Height (vBoxLayout_MinSize 5 [growing 1 8 10, spacerObj, growing 3 8 30]) \<and>
   Height (vBoxLayout_MinSize 5 [growing 1 8 10, spacerObj, growing 3 8 30]) = 45 \<and>
   vExtra 5 [growing 1 8 10, spacerObj, growing 3 8 30] (NewSize 100 35) = - 10 \<and>
   spacers (vTotals [growing 1 8 10, spacerObj, growing 3 8 30] (NewSize 100 35)) = 1 \<and>
   growFactors (vTotals [growing 1 8 10, spacerObj, growing 3 8 30] (NewSize 100 35)) = 100 \<and>
   vSpacerSize 5 [growing 1 8 10, spacerObj, growing 3 8 30] (NewSize 100 35) = - 10 / 1 \<and>
   vPerFactor 5 [growing 1 8 10, spacerObj, growing 3 8 30] (NewSize 100 35) = - 10 / 100 \<and>
   map objSize (vBoxLayout_Layout 5 [growing 1 8 10, spacerObj, growing 3 8 30] (NewSize 100 35)) =
     [NewSize 100 9, NewSize 3 3, NewSize 100 21] \<and>
   map objPos (vBoxLayout_Layout 5 [growing 1 8 10, spacerObj, growing 3 8 30] (NewSize 100 35)) =
     [NewPos 0 0, NewPos 7 7, NewPos 0 4] \<and>
   (0::real) \<le> Width (NewSize 35 100) \<and>
   Width (NewSize 35 100) < Width (hBoxLayout_MinSize 5 [growing 1 10 8, spacerObj, growing 3 30 8]) \<and>
   Width (hBoxLayout_MinSize 5 [growing 1 10 8, spacerObj, growing 3 30 8]) = 45 \<and>
   hExtra 5 [growing 1 10 8, spacerObj, growing 3 30 8] (NewSize 35 100) = - 10 \<and>
   hSpacerSize 5 [growing 1 10 8, spacerObj, growing 3 30 8] (NewSize 35 100) = - 10 / 1 \<and>
   hPerFactor 5 [growing 1 10 8, spacerObj, growing 3 30 8] (NewSize 35 100) = - 10 / 100 \<and>
   map objSize (hBoxLayout_Layout 5 [growing 1 10 8, spacerObj, growing 3 30 8] (NewSize 35 100)) =
     [NewSize 9 100, NewSize 3 3, NewSize 21 100] \<and>
   map objPos (hBoxLayout_Layout 5 [growing 1 10 8, spacerObj, growing 3 30 8] (NewSize 35 100)) =
     [NewPos 0 0, NewPos 7 7, NewPos 4 0]"
proof -
  let ?objects = "[growing 1 8 10, spacerObj, growing 3 8 30]"
  let ?hobjects = "[growing 1 10 8, spacerObj, growing 3 30 8]"
  have m: "Height (vBoxLayout_MinSize 5 ?objects) = 45"
    by (simp add: minSize_defs object_defs)
  have hm: "Width (hBoxLayout_MinSize 5 ?hobjects) = 45"
    by (simp add: minSize_defs object_defs)
  have t: "vTotals ?objects (NewSize 100 35) =
      \<lparr>spacers = 1, visibleObjects = 2, totalMin = 40, growFactors = 100\<rparr>"
    by (simp add: vTotals_def vMeasureStep_def noTotals_def Let_def object_defs)
  have ht: "hTotals ?hobjects (NewSize 35 100) =
      \<lparr>spacers = 1, visibleObjects = 2, totalMin = 40, growFactors = 100\<rparr>"
    by (simp add: hTotals_def hMeasureStep_def noTotals_def Let_def object_defs)
  have l: "vBoxLayout_Layout 5 ?objects (NewSize 100 35) =
      [(growing 1 8 10)\<lparr>objPos := NewPos 0 0, objSize := NewSize 100 9\<rparr>, spacerObj,
       (growing 3 8 30)\<lparr>objPos := NewPos 0 4, objSize := NewSize 100 21\<rparr>]"
    by (simp add: layout_defs object_defs)
  have hl: "hBoxLayout_Layout 5 ?hobjects (NewSize 35 100) =
      [(growing 1 10 8)\<lparr>objPos := NewPos 0 0, objSize := NewSize 9 100\<rparr>, spacerObj,
       (growing 3 30 8)\<lparr>objPos := NewPos 4 0, objSize := NewSize 21 100\<rparr>]"
    by (simp add: layout_defs object_defs)
  have lv: "map objSize (vBoxLayout_Layout 5 ?objects (NewSize 100 35)) =
       [NewSize 100 9, NewSize 3 3, NewSize 100 21] \<and>
     map objPos (vBoxLayout_Layout 5 ?objects (NewSize 100 35)) =
       [NewPos 0 0, NewPos 7 7, NewPos 0 4]"
    unfolding l by (simp add: object_defs)
  have lh: "map objSize (hBoxLayout_Layout 5 ?hobjects (NewSize 35 100)) =
       [NewSize 9 100, NewSize 3 3, NewSize 21 100] \<and>
     map objPos (hBoxLayout_Layout 5 ?hobjects (NewSize 35 100)) =
       [NewPos 0 0, NewPos 7 7, NewPos 4 0]"
    unfolding hl by (simp add: object_defs)
  have s: "Height (NewSize 100 35) = 35 \<and> Width (NewSize 35 100) = 35" by simp
  have pv: "(0::real) \<le> Height (NewSize 100 35) \<and>
      Height (NewSize 100 35) < Height (vBoxLayout_MinSize 5 ?objects)"
    unfolding m by simp
  have ph: "(0::real) \<le> Width (NewSize 35 100) \<and>
      Width (NewSize 35 100) < Width (hBoxLayout_MinSize 5 ?hobjects)"
    unfolding hm by simp
  have cv: "vExtra 5 ?objects (NewSize 100 35) = - 10 \<and>
      vSpacerSize 5 ?objects (NewSize 100 35) = - 10 / 1 \<and>
      vPerFactor 5 ?objects (NewSize 100 35) = - 10 / 100"
    using conjunct1 [OF negative_extra_is_not_clamped [of "NewSize 100 35" 5 ?objects]] pv
    unfolding m t by simp
  have ch: "hExtra 5 ?hobjects (NewSize 35 100) = - 10 \<and>
      hSpacerSize 5 ?hobjects (NewSize 35 100) = - 10 / 1 \<and>
      hPerFactor 5 ?hobjects (NewSize 35 100) = - 10 / 100"
    using conjunct2 [OF negative_extra_is_not_clamped [of "NewSize 35 100" 5 ?hobjects]] ph
    unfolding hm ht by simp
  have tv: "spacers (vTotals ?objects (NewSize 100 35)) = 1 \<and>
      growFactors (vTotals ?objects (NewSize 100 35)) = 100"
    unfolding t by simp
  from pv m cv tv lv ph hm ch lh show ?thesis by blast
qed

subsection \<open>C7: invisible children\<close>

text \<open>
  C7. An invisible child contributes nothing to \<open>MinSize\<close>: the result is that of the
  visible children alone, so neither its size nor a padding gap is counted. \<open>Layout\<close>
  places the visible children exactly as it places them when the invisible ones are
  taken out of the slice, and it leaves every invisible child as it was, position and
  size included. Stated for both layouts.
\<close>

theorem invisible_children_are_excluded:
  "vBoxLayout_MinSize padding objects = vBoxLayout_MinSize padding (filter Visible objects) \<and>
   hBoxLayout_MinSize padding objects = hBoxLayout_MinSize padding (filter Visible objects) \<and>
   filter Visible (vBoxLayout_Layout padding objects sz) =
     vBoxLayout_Layout padding (filter Visible objects) sz \<and>
   filter Visible (hBoxLayout_Layout padding objects sz) =
     hBoxLayout_Layout padding (filter Visible objects) sz \<and>
   (\<forall>i < length objects. \<not> Visible (objects ! i) \<longrightarrow>
      vBoxLayout_Layout padding objects sz ! i = objects ! i \<and>
      hBoxLayout_Layout padding objects sz ! i = objects ! i)"
  by (simp add: vMinSize_filter_Visible hMinSize_filter_Visible vLayout_filter_Visible
        hLayout_filter_Visible vLayout_untouched hLayout_untouched)

theorem invisible_children_are_excluded_witness:
  "\<not> Visible ([widget 30 20, hidden (growing 2 50 10), widget 40 40] ! 1) \<and>
   vBoxLayout_MinSize 5 [widget 30 20, hidden (growing 2 50 10), widget 40 40] =
     vBoxLayout_MinSize 5 [widget 30 20, widget 40 40] \<and>
   hBoxLayout_MinSize 5 [widget 30 20, hidden (growing 2 50 10), widget 40 40] =
     hBoxLayout_MinSize 5 [widget 30 20, widget 40 40] \<and>
   filter Visible (vBoxLayout_Layout 5 [widget 30 20, hidden (growing 2 50 10), widget 40 40] (NewSize 100 210)) =
     vBoxLayout_Layout 5 [widget 30 20, widget 40 40] (NewSize 100 210) \<and>
   filter Visible (hBoxLayout_Layout 5 [widget 30 20, hidden (growing 2 50 10), widget 40 40] (NewSize 100 210)) =
     hBoxLayout_Layout 5 [widget 30 20, widget 40 40] (NewSize 100 210) \<and>
   vBoxLayout_Layout 5 [widget 30 20, hidden (growing 2 50 10), widget 40 40] (NewSize 100 210) ! 1 =
     hidden (growing 2 50 10) \<and>
   hBoxLayout_Layout 5 [widget 30 20, hidden (growing 2 50 10), widget 40 40] (NewSize 100 210) ! 1 =
     hidden (growing 2 50 10)"
proof -
  have v: "filter Visible [widget 30 20, hidden (growing 2 50 10), widget 40 40] =
             [widget 30 20, widget 40 40]"
    by (simp add: widget_def growing_def hidden_def)
  have i: "(1::nat) < length [widget 30 20, hidden (growing 2 50 10), widget 40 40]" by simp
  have n: "\<not> Visible ([widget 30 20, hidden (growing 2 50 10), widget 40 40] ! 1)"
    by (simp add: hidden_def)
  show ?thesis
    using invisible_children_are_excluded
      [of 5 "[widget 30 20, hidden (growing 2 50 10), widget 40 40]" "NewSize 100 210"] i n
    unfolding v by simp
qed

subsection \<open>C8: spacers\<close>

text \<open>
  C8. \<open>Layout\<close> leaves every child that is a spacer along the main axis as it was,
  position and size included. In what \<open>Layout\<close> returns, every laid-out child stands at
  cross-axis coordinate 0 and main-axis coordinate \<open>n * (extra / k) + sum\<close>, where \<open>n\<close> is
  the number of visible spacers before it in the slice, \<open>k\<close> the number of all visible
  spacers, and \<open>sum\<close> adds padding plus final main-axis size over the laid-out children
  before it: each spacer moves what follows it by exactly \<open>extra / k\<close>. In the second
  loop the body run on a visible spacer only moves the cursor by \<open>extra / k\<close>. The sizes
  that \<open>Layout\<close> gives to the other children are the sizes it gives them when the
  spacers are taken out of the slice. Stated for both layouts.
\<close>

theorem spacers_only_advance_the_cursor:
  "(\<forall>i < length objects. isVerticalSpacer (objects ! i) \<longrightarrow>
      vBoxLayout_Layout padding objects sz ! i = objects ! i) \<and>
   (\<forall>i < length objects. isHorizontalSpacer (objects ! i) \<longrightarrow>
      hBoxLayout_Layout padding objects sz ! i = objects ! i) \<and>
   (\<forall>i < length objects. Visible (objects ! i) \<and> \<not> isVerticalSpacer (objects ! i) \<longrightarrow>
      objPos (vBoxLayout_Layout padding objects sz ! i) =
        NewPos 0
          (real (length (vSpacers (take i objects))) *
             (vExtra padding objects sz / real (length (vSpacers objects))) +
           sum_list (map (\<lambda>c. padding + Height (objSize c))
             (vLaidOut (take i (vBoxLayout_Layout padding objects sz)))))) \<and>
   (\<forall>i < length objects. Visible (objects ! i) \<and> \<not> isHorizontalSpacer (objects ! i) \<longrightarrow>
      objPos (hBoxLayout_Layout padding objects sz ! i) =
        NewPos
          (real (length (hSpacers (take i objects))) *
             (hExtra padding objects sz / real (length (hSpacers objects))) +
           sum_list (map (\<lambda>c. padding + Width (objSize c))
             (hLaidOut (take i (hBoxLayout_Layout padding objects sz)))))
          0) \<and>
   (\<forall>c \<in> set objects. Visible c \<and> isVerticalSpacer c \<longrightarrow>
      (\<forall>x y. vPlaceStep sz padding (vPerFactor padding objects sz) (vSpacerSize padding objects sz) (x, y) c =
         ((x, y + vExtra padding objects sz / real (length (vSpacers objects))), c))) \<and>
   (\<forall>c \<in> set objects. Visible c \<and> isHorizontalSpacer c \<longrightarrow>
      (\<forall>x y. hPlaceStep sz padding (hPerFactor padding objects sz) (hSpacerSize padding objects sz) (x, y) c =
         ((x + hExtra padding objects sz / real (length (hSpacers objects)), y), c))) \<and>
   map objSize (filter (\<lambda>c. \<not> isVerticalSpacer c) (vBoxLayout_Layout padding objects sz)) =
     map objSize (vBoxLayout_Layout padding (filter (\<lambda>c. \<not> isVerticalSpacer c) objects) sz) \<and>
   map objSize (filter (\<lambda>c. \<not> isHorizontalSpacer c) (hBoxLayout_Layout padding objects sz)) =
     map objSize (hBoxLayout_Layout padding (filter (\<lambda>c. \<not> isHorizontalSpacer c) objects) sz)"
  by (simp add: vLayout_untouched hLayout_untouched vPlaceStep_spacer hPlaceStep_spacer
        vLayout_sizes_without_spacers hLayout_sizes_without_spacers
        vLayout_position_extra hLayout_position_extra)

theorem spacers_only_advance_the_cursor_witness:
  "spacerObj \<in> set [widget 10 8, spacerObj, widget 20 8, spacerObj] \<and>
   Visible spacerObj \<and> isHorizontalSpacer spacerObj \<and> isVerticalSpacer spacerObj \<and>
   hExtra 5 [widget 10 8, spacerObj, widget 20 8, spacerObj] (NewSize 100 50) = 65 \<and>
   length (hSpacers [widget 10 8, spacerObj, widget 20 8, spacerObj]) = 2 \<and>
   hBoxLayout_Layout 5 [widget 10 8, spacerObj, widget 20 8, spacerObj] (NewSize 100 50) =
     [(widget 10 8)\<lparr>objPos := NewPos 0 0, objSize := NewSize 10 50\<rparr>, spacerObj,
      (widget 20 8)\<lparr>objPos := NewPos (1 * (65 / 2) + (5 + 10)) 0, objSize := NewSize 20 50\<rparr>,
      spacerObj] \<and>
   vExtra 5 [widget 8 10, spacerObj, widget 8 20, spacerObj] (NewSize 50 100) = 65 \<and>
   length (vSpacers [widget 8 10, spacerObj, widget 8 20, spacerObj]) = 2 \<and>
   vBoxLayout_Layout 5 [widget 8 10, spacerObj, widget 8 20, spacerObj] (NewSize 50 100) =
     [(widget 8 10)\<lparr>objPos := NewPos 0 0, objSize := NewSize 50 10\<rparr>, spacerObj,
      (widget 8 20)\<lparr>objPos := NewPos 0 (1 * (65 / 2) + (5 + 10)), objSize := NewSize 50 20\<rparr>,
      spacerObj] \<and>
   map objSize (filter (\<lambda>c. \<not> isHorizontalSpacer c)
      (hBoxLayout_Layout 5 [widget 10 8, spacerObj, widget 20 8, spacerObj] (NewSize 100 50))) =
     map objSize (hBoxLayout_Layout 5 [widget 10 8, widget 20 8] (NewSize 100 50))"
proof -
  let ?objects = "[widget 10 8, spacerObj, widget 20 8, spacerObj]"
  let ?vobjects = "[widget 8 10, spacerObj, widget 8 20, spacerObj]"
  have s: "spacerObj \<in> set ?objects \<and> Visible spacerObj \<and> isHorizontalSpacer spacerObj \<and>
      isVerticalSpacer spacerObj"
    by (simp add: object_defs)
  have e: "hExtra 5 ?objects (NewSize 100 50) = 65 \<and> length (hSpacers ?objects) = 2"
    by (simp add: hExtra_closed hLaidOut_def hSpacers_def object_defs)
  have ve: "vExtra 5 ?vobjects (NewSize 50 100) = 65 \<and> length (vSpacers ?vobjects) = 2"
    by (simp add: vExtra_closed vLaidOut_def vSpacers_def object_defs)
  have h: "hBoxLayout_Layout 5 ?objects (NewSize 100 50) =
     [(widget 10 8)\<lparr>objPos := NewPos 0 0, objSize := NewSize 10 50\<rparr>, spacerObj,
      (widget 20 8)\<lparr>objPos := NewPos (1 * (65 / 2) + (5 + 10)) 0, objSize := NewSize 20 50\<rparr>,
      spacerObj]"
    by (simp add: layout_defs object_defs)
  have v: "vBoxLayout_Layout 5 ?vobjects (NewSize 50 100) =
     [(widget 8 10)\<lparr>objPos := NewPos 0 0, objSize := NewSize 50 10\<rparr>, spacerObj,
      (widget 8 20)\<lparr>objPos := NewPos 0 (1 * (65 / 2) + (5 + 10)), objSize := NewSize 50 20\<rparr>,
      spacerObj]"
    by (simp add: layout_defs object_defs)
  have f: "filter (\<lambda>c. \<not> isHorizontalSpacer c) ?objects = [widget 10 8, widget 20 8]"
    by (simp add: object_defs)
  have t: "map objSize (filter (\<lambda>c. \<not> isHorizontalSpacer c)
      (hBoxLayout_Layout 5 ?objects (NewSize 100 50))) =
     map objSize (hBoxLayout_Layout 5 [widget 10 8, widget 20 8] (NewSize 100 50))"
    using spacers_only_advance_the_cursor [of ?objects 5 "NewSize 100 50"]
    unfolding f by blast
  from s e ve h v t show ?thesis by blast
qed

subsection \<open>C9: the two layouts are mirror images\<close>

text \<open>
  C9. \<open>hBoxLayout\<close> is \<open>vBoxLayout\<close> with the axes swapped: for every slice, container
  size and padding, \<open>hBoxLayout.Layout\<close> returns what \<open>vBoxLayout.Layout\<close> returns on the
  objects and the container with \<open>x\<close>/\<open>y\<close>, width/height and the two expansion
  directions of a spacer exchanged, with the axes exchanged back; \<open>hBoxLayout.MinSize\<close>
  is \<open>vBoxLayout.MinSize\<close> of the exchanged objects, exchanged back; and the same with
  the two layouts in each other's place.
\<close>

theorem hBox_is_vBox_with_axes_swapped:
  "hBoxLayout_Layout padding objects sz =
     map swapAxes (vBoxLayout_Layout padding (map swapAxes objects) (swapSize sz)) \<and>
   hBoxLayout_MinSize padding objects =
     swapSize (vBoxLayout_MinSize padding (map swapAxes objects)) \<and>
   vBoxLayout_Layout padding objects sz =
     map swapAxes (hBoxLayout_Layout padding (map swapAxes objects) (swapSize sz)) \<and>
   vBoxLayout_MinSize padding objects =
     swapSize (hBoxLayout_MinSize padding (map swapAxes objects))"
proof -
  have "hBoxLayout_Layout padding (map swapAxes (map swapAxes objects)) sz =
          map swapAxes (vBoxLayout_Layout padding (map swapAxes objects) (swapSize sz))"
    by (rule hLayout_mirror)
  moreover have "hBoxLayout_MinSize padding (map swapAxes (map swapAxes objects)) =
          swapSize (vBoxLayout_MinSize padding (map swapAxes objects))"
    by (rule hMinSize_mirror)
  moreover have "map swapAxes (hBoxLayout_Layout padding (map swapAxes objects) (swapSize sz)) =
          map swapAxes (map swapAxes (vBoxLayout_Layout padding objects (swapSize (swapSize sz))))"
    by (simp only: hLayout_mirror)
  moreover have "swapSize (hBoxLayout_MinSize padding (map swapAxes objects)) =
          swapSize (swapSize (vBoxLayout_MinSize padding objects))"
    by (simp only: hMinSize_mirror)
  ultimately show ?thesis by simp
qed

theorem hBox_is_vBox_with_axes_swapped_witness:
  "hBoxLayout_Layout 5 [widget 10 8, spacerObj, growing 2 20 6] (NewSize 100 50) =
     map swapAxes (vBoxLayout_Layout 5 (map swapAxes [widget 10 8, spacerObj, growing 2 20 6])
       (swapSize (NewSize 100 50))) \<and>
   hBoxLayout_MinSize 5 [widget 10 8, spacerObj, growing 2 20 6] =
     swapSize (vBoxLayout_MinSize 5 (map swapAxes [widget 10 8, spacerObj, growing 2 20 6])) \<and>
   map objPos (hBoxLayout_Layout 5 [widget 10 8, spacerObj, growing 2 20 6] (NewSize 100 50)) =
     [NewPos 0 0, NewPos 7 7, NewPos 80 0] \<and>
   map objSize (hBoxLayout_Layout 5 [widget 10 8, spacerObj, growing 2 20 6] (NewSize 100 50)) =
     [NewSize 10 50, NewSize 3 3, NewSize 85 50] \<and>
   map objPos (vBoxLayout_Layout 5 (map swapAxes [widget 10 8, spacerObj, growing 2 20 6])
       (swapSize (NewSize 100 50))) =
     [NewPos 0 0, NewPos 7 7, NewPos 0 80] \<and>
   map objSize (vBoxLayout_Layout 5 (map swapAxes [widget 10 8, spacerObj, growing 2 20 6])
       (swapSize (NewSize 100 50))) =
     [NewSize 50 10, NewSize 3 3, NewSize 50 85] \<and>
   hBoxLayout_MinSize 5 [widget 10 8, spacerObj, growing 2 20 6] = NewSize 35 8"
proof -
  have h: "hBoxLayout_Layout 5 [widget 10 8, spacerObj, growing 2 20 6] (NewSize 100 50) =
      [(widget 10 8)\<lparr>objPos := NewPos 0 0, objSize := NewSize 10 50\<rparr>, spacerObj,
       (growing 2 20 6)\<lparr>objPos := NewPos 80 0, objSize := NewSize 85 50\<rparr>]"
    by (simp add: layout_defs object_defs)
  have v: "vBoxLayout_Layout 5 (map swapAxes [widget 10 8, spacerObj, growing 2 20 6])
        (swapSize (NewSize 100 50)) =
      [(swapAxes (widget 10 8))\<lparr>objPos := NewPos 0 0, objSize := NewSize 50 10\<rparr>,
       swapAxes spacerObj,
       (swapAxes (growing 2 20 6))\<lparr>objPos := NewPos 0 80, objSize := NewSize 50 85\<rparr>]"
    by (simp add: layout_defs object_defs swapAxes_def swapSize_def swapPos_def swapSpacer_def)
  have m: "hBoxLayout_MinSize 5 [widget 10 8, spacerObj, growing 2 20 6] = NewSize 35 8"
    by (simp add: minSize_defs object_defs)
  have p: "map objPos (hBoxLayout_Layout 5 [widget 10 8, spacerObj, growing 2 20 6] (NewSize 100 50)) =
     [NewPos 0 0, NewPos 7 7, NewPos 80 0] \<and>
   map objSize (hBoxLayout_Layout 5 [widget 10 8, spacerObj, growing 2 20 6] (NewSize 100 50)) =
     [NewSize 10 50, NewSize 3 3, NewSize 85 50]"
    unfolding h by (simp add: object_defs)
  have q: "map objPos (vBoxLayout_Layout 5 (map swapAxes [widget 10 8, spacerObj, growing 2 20 6])
       (swapSize (NewSize 100 50))) =
     [NewPos 0 0, NewPos 7 7, NewPos 0 80] \<and>
   map objSize (vBoxLayout_Layout 5 (map swapAxes [widget 10 8, spacerObj, growing 2 20 6])
       (swapSize (NewSize 100 50))) =
     [NewSize 50 10, NewSize 3 3, NewSize 50 85]"
    unfolding v by (simp add: object_defs swapAxes_def swapSize_def swapPos_def)
  show ?thesis
    using hBox_is_vBox_with_axes_swapped
      [of 5 "[widget 10 8, spacerObj, growing 2 20 6]" "NewSize 100 50"] p q m
    by blast
qed

subsection \<open>C10: a spacer that expands across the box only\<close>

text \<open>
  C10. An object with the spacer capability that does not expand along the main axis
  of the box is not a spacer for that box. Taking the capability away from every such
  object changes neither \<open>MinSize\<close> nor what \<open>Layout\<close> does to any object. In what
  \<open>Layout\<close> returns, a visible such object is among the laid-out children, has the
  container's cross-axis size and main-axis size \<open>h + perFactor * g * h\<close> (\<open>h\<close> if it
  is not growable), stands at \<open>n * spacerSize + sum\<close> (\<open>n\<close> the visible spacers before
  it, \<open>sum\<close> adding padding plus final size over the laid-out children before it), and
  is itself among the laid-out children whose padding and size move what follows.
  \<open>MinSize\<close> adds the minimums of the laid-out children, this one included, and one
  padding per gap. In the loop bodies such an object is counted (\<open>visibleObjects\<close> grows
  by one, its minimum is added, \<open>spacers\<close> stays), moved to the cursor and resized.
  Stated for both layouts.
\<close>

theorem cross_axis_spacer_is_an_ordinary_child:
  "vBoxLayout_MinSize padding (map vPlain objects) = vBoxLayout_MinSize padding objects \<and>
   vBoxLayout_Layout padding (map vPlain objects) sz =
     map vPlain (vBoxLayout_Layout padding objects sz) \<and>
   hBoxLayout_MinSize padding (map hPlain objects) = hBoxLayout_MinSize padding objects \<and>
   hBoxLayout_Layout padding (map hPlain objects) sz =
     map hPlain (hBoxLayout_Layout padding objects sz) \<and>
   (\<forall>i < length objects. \<forall>s. Visible (objects ! i) \<and> Spacer (objects ! i) = Some s \<and>
        \<not> ExpandVertical s \<longrightarrow>
      objects ! i \<in> set (vLaidOut objects) \<and>
      objSize (vBoxLayout_Layout padding objects sz ! i) =
        NewSize (Width sz)
          (Height (MinSize (objects ! i)) +
           (case Growable (objects ! i) of None \<Rightarrow> 0
            | Some g \<Rightarrow> vPerFactor padding objects sz * g * Height (MinSize (objects ! i)))) \<and>
      objPos (vBoxLayout_Layout padding objects sz ! i) =
        NewPos 0
          (real (length (vSpacers (take i objects))) * vSpacerSize padding objects sz +
           sum_list (map (\<lambda>c. padding + Height (objSize c))
             (vLaidOut (take i (vBoxLayout_Layout padding objects sz))))) \<and>
      vBoxLayout_Layout padding objects sz ! i \<in>
        set (vLaidOut (take (Suc i) (vBoxLayout_Layout padding objects sz)))) \<and>
   (\<forall>i < length objects. \<forall>s. Visible (objects ! i) \<and> Spacer (objects ! i) = Some s \<and>
        \<not> ExpandHorizontal s \<longrightarrow>
      objects ! i \<in> set (hLaidOut objects) \<and>
      objSize (hBoxLayout_Layout padding objects sz ! i) =
        NewSize
          (Width (MinSize (objects ! i)) +
           (case Growable (objects ! i) of None \<Rightarrow> 0
            | Some g \<Rightarrow> hPerFactor padding objects sz * g * Width (MinSize (objects ! i))))
          (Height sz) \<and>
      objPos (hBoxLayout_Layout padding objects sz ! i) =
        NewPos
          (real (length (hSpacers (take i objects))) * hSpacerSize padding objects sz +
           sum_list (map (\<lambda>c. padding + Width (objSize c))
             (hLaidOut (take i (hBoxLayout_Layout padding objects sz)))))
          0 \<and>
      hBoxLayout_Layout padding objects sz ! i \<in>
        set (hLaidOut (take (Suc i) (hBoxLayout_Layout padding objects sz)))) \<and>
   Height (vBoxLayout_MinSize padding objects) =
     sum_list (map (\<lambda>c. Height (MinSize c)) (vLaidOut objects)) +
     padding * real (length (vLaidOut objects) - 1) \<and>
   Width (hBoxLayout_MinSize padding objects) =
     sum_list (map (\<lambda>c. Width (MinSize c)) (hLaidOut objects)) +
     padding * real (length (hLaidOut objects) - 1) \<and>
   (Visible c \<and> Spacer c = Some s \<and> \<not> ExpandVertical s \<longrightarrow>
      \<not> isVerticalSpacer c \<and> vPlain c = c\<lparr>Spacer := None\<rparr> \<and>
      spacers (fst (vMeasureStep sz t c)) = spacers t \<and>
      visibleObjects (fst (vMeasureStep sz t c)) = visibleObjects t + 1 \<and>
      totalMin (fst (vMeasureStep sz t c)) = totalMin t + Height (MinSize c) \<and>
      objPos (snd (vPlaceStep sz padding f k (x, y) (snd (vMeasureStep sz t c)))) = NewPos x y \<and>
      Width (objSize (snd (vPlaceStep sz padding f k (x, y) (snd (vMeasureStep sz t c))))) = Width sz \<and>
      vMinSizeStep padding c (m, b) =
        (\<lparr>Width = fyne_Max (Width (MinSize c)) (Width m),
          Height = Height m + Height (MinSize c) + (if b then padding else 0)\<rparr>, True)) \<and>
   (Visible c \<and> Spacer c = Some s \<and> \<not> ExpandHorizontal s \<longrightarrow>
      \<not> isHorizontalSpacer c \<and> hPlain c = c\<lparr>Spacer := None\<rparr> \<and>
      spacers (fst (hMeasureStep sz t c)) = spacers t \<and>
      visibleObjects (fst (hMeasureStep sz t c)) = visibleObjects t + 1 \<and>
      totalMin (fst (hMeasureStep sz t c)) = totalMin t + Width (MinSize c) \<and>
      objPos (snd (hPlaceStep sz padding f k (x, y) (snd (hMeasureStep sz t c)))) = NewPos x y \<and>
      Height (objSize (snd (hPlaceStep sz padding f k (x, y) (snd (hMeasureStep sz t c))))) = Height sz \<and>
      hMinSizeStep padding c (m, b) =
        (\<lparr>Width = Width m + Width (MinSize c) + (if b then padding else 0),
          Height = fyne_Max (Height (MinSize c)) (Height m)\<rparr>, True))"
proof -
  have v: "Visible c \<and> Spacer c = Some s \<and> \<not> ExpandVertical s \<Longrightarrow> vPlain c = c\<lparr>Spacer := None\<rparr>"
    by (simp add: vPlain_def isVerticalSpacer_def)
  have h: "Visible c \<and> Spacer c = Some s \<and> \<not> ExpandHorizontal s \<Longrightarrow> hPlain c = c\<lparr>Spacer := None\<rparr>"
    by (simp add: hPlain_def isHorizontalSpacer_def)
  note vs = vCrossSpacer_steps [where c = c and s = s and sz = sz and t = t and padding = padding
      and f = f and k = k and x = x and y = y and m = m and b = b]
  note hs = hCrossSpacer_steps [where c = c and s = s and sz = sz and t = t and padding = padding
      and f = f and k = k and x = x and y = y and m = m and b = b]
  have nv: "\<not> isVerticalSpacer (objects ! i)"
    if "Spacer (objects ! i) = Some s'" and "\<not> ExpandVertical s'" for i s'
    using that by (simp add: isVerticalSpacer_def)
  have nh: "\<not> isHorizontalSpacer (objects ! i)"
    if "Spacer (objects ! i) = Some s'" and "\<not> ExpandHorizontal s'" for i s'
    using that by (simp add: isHorizontalSpacer_def)
  have mv: "Height (vBoxLayout_MinSize padding objects) =
     sum_list (map (\<lambda>c. Height (MinSize c)) (vLaidOut objects)) +
     padding * real (length (vLaidOut objects) - 1)"
    by (simp add: vMinSize_closed)
  have mh: "Width (hBoxLayout_MinSize padding objects) =
     sum_list (map (\<lambda>c. Width (MinSize c)) (hLaidOut objects)) +
     padding * real (length (hLaidOut objects) - 1)"
    by (simp add: hMinSize_closed)
  show ?thesis
    apply (intro conjI allI impI)
    subgoal by (rule vMinSize_vPlain)
    subgoal by (rule vLayout_vPlain)
    subgoal by (rule hMinSize_hPlain)
    subgoal by (rule hLayout_hPlain)
    subgoal for i s' using vLayout_laid_out_child [of i objects padding sz] nv [of i s'] by blast
    subgoal for i s' using vLayout_laid_out_child [of i objects padding sz] nv [of i s'] by blast
    subgoal for i s' using vLayout_laid_out_child [of i objects padding sz] nv [of i s'] by blast
    subgoal for i s' using vLayout_laid_out_child [of i objects padding sz] nv [of i s'] by blast
    subgoal for i s' using hLayout_laid_out_child [of i objects padding sz] nh [of i s'] by blast
    subgoal for i s' using hLayout_laid_out_child [of i objects padding sz] nh [of i s'] by blast
    subgoal for i s' using hLayout_laid_out_child [of i objects padding sz] nh [of i s'] by blast
    subgoal for i s' using hLayout_laid_out_child [of i objects padding sz] nh [of i s'] by blast
    subgoal by (rule mv)
    subgoal by (rule mh)
    subgoal using vs by blast
    subgoal using v by blast
    subgoal using vs by blast
    subgoal using vs by blast
    subgoal using vs by blast
    subgoal using vs by blast
    subgoal using vs by blast
    subgoal using vs by blast
    subgoal using hs by blast
    subgoal using h by blast
    subgoal using hs by blast
    subgoal using hs by blast
    subgoal using hs by blast
    subgoal using hs by blast
    subgoal using hs by blast
    subgoal using hs by blast
    done
qed

theorem cross_axis_spacer_is_an_ordinary_child_witness:
  "Visible crossSpacer \<and>
   Spacer crossSpacer = Some \<lparr>ExpandHorizontal = True, ExpandVertical = False\<rparr> \<and>
   \<not> ExpandVertical \<lparr>ExpandHorizontal = True, ExpandVertical = False\<rparr> \<and>
   \<not> isVerticalSpacer crossSpacer \<and>
   vPlain crossSpacer = widget 4 6 \<and>
   vBoxLayout_MinSize 5 [widget 30 20, widget 4 6] = vBoxLayout_MinSize 5 [widget 30 20, crossSpacer] \<and>
   vBoxLayout_MinSize 5 [widget 30 20, crossSpacer] = NewSize 30 31 \<and>
   vBoxLayout_Layout 5 [widget 30 20, widget 4 6] (NewSize 100 210) =
     map vPlain (vBoxLayout_Layout 5 [widget 30 20, crossSpacer] (NewSize 100 210)) \<and>
   vBoxLayout_Layout 5 [widget 30 20, crossSpacer] (NewSize 100 210) =
     [(widget 30 20)\<lparr>objPos := NewPos 0 0, objSize := NewSize 100 20\<rparr>,
      crossSpacer\<lparr>objPos := NewPos 0 (5 + 20), objSize := NewSize 100 6\<rparr>] \<and>
   Visible (swapAxes crossSpacer) \<and>
   Spacer (swapAxes crossSpacer) = Some \<lparr>ExpandHorizontal = False, ExpandVertical = True\<rparr> \<and>
   \<not> ExpandHorizontal \<lparr>ExpandHorizontal = False, ExpandVertical = True\<rparr> \<and>
   \<not> isHorizontalSpacer (swapAxes crossSpacer) \<and>
   hBoxLayout_MinSize 5 [widget 20 30, swapAxes crossSpacer] = NewSize 31 30 \<and>
   hBoxLayout_Layout 5 [widget 20 30, swapAxes crossSpacer] (NewSize 210 100) =
     [(widget 20 30)\<lparr>objPos := NewPos 0 0, objSize := NewSize 20 100\<rparr>,
      (swapAxes crossSpacer)\<lparr>objPos := NewPos (5 + 20) 0, objSize := NewSize 6 100\<rparr>]"
proof -
  let ?objects = "[widget 30 20, crossSpacer]"
  let ?hobjects = "[widget 20 30, swapAxes crossSpacer]"
  have p: "map vPlain ?objects = [widget 30 20, widget 4 6]"
    by (simp add: vPlain_def object_defs)
  have c: "Visible crossSpacer \<and>
      Spacer crossSpacer = Some \<lparr>ExpandHorizontal = True, ExpandVertical = False\<rparr> \<and>
      \<not> ExpandVertical \<lparr>ExpandHorizontal = True, ExpandVertical = False\<rparr> \<and>
      \<not> isVerticalSpacer crossSpacer"
    by (simp add: object_defs)
  have hc: "Visible (swapAxes crossSpacer) \<and>
      Spacer (swapAxes crossSpacer) = Some \<lparr>ExpandHorizontal = False, ExpandVertical = True\<rparr> \<and>
      \<not> ExpandHorizontal \<lparr>ExpandHorizontal = False, ExpandVertical = True\<rparr> \<and>
      \<not> isHorizontalSpacer (swapAxes crossSpacer)"
    by (simp add: object_defs swapAxes_def swapSpacer_def)
  have q: "vPlain crossSpacer = widget 4 6"
    by (simp add: vPlain_def object_defs)
  have m: "vBoxLayout_MinSize 5 ?objects = NewSize 30 31"
    by (simp add: minSize_defs object_defs)
  have hm: "hBoxLayout_MinSize 5 ?hobjects = NewSize 31 30"
    by (simp add: minSize_defs object_defs swapAxes_def swapSize_def swapPos_def swapSpacer_def)
  have l: "vBoxLayout_Layout 5 ?objects (NewSize 100 210) =
     [(widget 30 20)\<lparr>objPos := NewPos 0 0, objSize := NewSize 100 20\<rparr>,
      crossSpacer\<lparr>objPos := NewPos 0 (5 + 20), objSize := NewSize 100 6\<rparr>]"
    by (simp add: layout_defs object_defs)
  have hl: "hBoxLayout_Layout 5 ?hobjects (NewSize 210 100) =
     [(widget 20 30)\<lparr>objPos := NewPos 0 0, objSize := NewSize 20 100\<rparr>,
      (swapAxes crossSpacer)\<lparr>objPos := NewPos (5 + 20) 0, objSize := NewSize 6 100\<rparr>]"
    by (simp add: layout_defs object_defs swapAxes_def swapSize_def swapPos_def swapSpacer_def)
  have t: "vBoxLayout_MinSize 5 [widget 30 20, widget 4 6] = vBoxLayout_MinSize 5 ?objects \<and>
      vBoxLayout_Layout 5 [widget 30 20, widget 4 6] (NewSize 100 210) =
        map vPlain (vBoxLayout_Layout 5 ?objects (NewSize 100 210))"
    using cross_axis_spacer_is_an_ordinary_child
      [where padding = 5 and objects = ?objects and sz = "NewSize 100 210"]
    unfolding p by blast
  from c q t m l hc hm hl show ?thesis by blast
qed

end
